theory Spec2Isabelle
  imports Complex_Main "HOL-Library.Sublist" "HOL-Library.Word" "HOL-Library.AList"
begin

section \<open>JavaScript values\<close>

text \<open>
  A JavaScript string is a sequence of UTF-16 code units; a code unit is modelled as a
  natural number. \<open>js\<close> turns an ASCII literal of the source into such a sequence.
\<close>

type_synonym jsstring = "nat list"

definition js :: "string \<Rightarrow> jsstring" where
  "js s = map of_char s"

text \<open>
  A JavaScript number is a finite value or one of the three non-finite values.
  Finite values are kept exact (rationals): the development never rounds.
\<close>

datatype jsnum = Fin rat | NaN | PosInf | NegInf

text \<open>\<open>Number.isFinite\<close> on a value that is already a number.\<close>

fun isFinite :: "jsnum \<Rightarrow> bool" where
  "isFinite (Fin _) = True"
| "isFinite _ = False"

text \<open>Truthiness of a number: \<open>0\<close> and \<open>NaN\<close> are falsy.\<close>

fun num_truthy :: "jsnum \<Rightarrow> bool" where
  "num_truthy (Fin q) = (q \<noteq> 0)"
| "num_truthy NaN = False"
| "num_truthy _ = True"

text \<open>
  The values \<open>JSON.parse\<close> produces, and \<open>undefined\<close> (a missing property).
  An object is its list of own properties, in source order.
\<close>

datatype jsv =
    JUndefined
  | JNull
  | JBool bool
  | JNum jsnum
  | JStr jsstring
  | JArr "jsv list"
  | JObj "(jsstring \<times> jsv) list"

fun truthy :: "jsv \<Rightarrow> bool" where
  "truthy JUndefined = False"
| "truthy JNull = False"
| "truthy (JBool b) = b"
| "truthy (JNum n) = num_truthy n"
| "truthy (JStr s) = (s \<noteq> [])"
| "truthy (JArr _) = True"
| "truthy (JObj _) = True"

text \<open>
  \<open>String.prototype.toLowerCase\<close>, on the ASCII letters. The runtime also lowers
  letters outside ASCII; no such letter is lowered to a letter of the two keywords
  \<open>server_vad\<close> and \<open>semantic_vad\<close> compared below without another code unit next to it.
\<close>

definition lower_unit :: "nat \<Rightarrow> nat" where
  "lower_unit c = (if 65 \<le> c \<and> c \<le> 90 then c + 32 else c)"

definition toLowerCase :: "jsstring \<Rightarrow> jsstring" where
  "toLowerCase s = map lower_unit s"

section \<open>openai.js: turn detection\<close>

text \<open>
  The part of \<open>config\<close> that \<open>normalizeTurnDetection\<close> reads. \<open>VAD_TYPE\<close> is a string
  or \<open>undefined\<close> (\<open>None\<close>). The three numeric keys are numbers (config.js builds each
  with \<open>parse(...) || default\<close>).
\<close>

record vad_config =
  VAD_TYPE :: "jsstring option"
  VAD_THRESHOLD :: jsnum
  VAD_PREFIX_PADDING_MS :: jsnum
  VAD_SILENCE_DURATION_MS :: jsnum

text \<open>
  config.js, lines 26 to 28: \<open>parseFloat(env) || 0.6\<close>, \<open>Number(env) || 200\<close>,
  \<open>Number(env) || 600\<close>. The argument \<open>parsed\<close> is what \<open>parseFloat\<close> or \<open>Number\<close>
  returned for the environment string (\<open>NaN\<close> when it is unset or not a number).
  The object literal of config.js has no key \<open>VAD_TYPE\<close>, so that property of the
  configuration it builds is \<open>undefined\<close>.
\<close>

definition or_default :: "jsnum \<Rightarrow> jsnum \<Rightarrow> jsnum" where
  "or_default parsed d = (if num_truthy parsed then parsed else d)"

definition load_vad_config :: "jsnum \<Rightarrow> jsnum \<Rightarrow> jsnum \<Rightarrow> vad_config" where
  "load_vad_config th pp sd =
     \<lparr> VAD_TYPE = None,
       VAD_THRESHOLD = or_default th (Fin (6 / 10)),
       VAD_PREFIX_PADDING_MS = or_default pp (Fin 200),
       VAD_SILENCE_DURATION_MS = or_default sd (Fin 600) \<rparr>"

text \<open>
  \<open>String(config.VAD_TYPE || 'server_vad').toLowerCase()\<close>: an unset or empty string
  is falsy.
\<close>

definition rawType :: "vad_config \<Rightarrow> jsstring" where
  "rawType c =
     toLowerCase (case VAD_TYPE c of
                    None \<Rightarrow> js ''server_vad''
                  | Some s \<Rightarrow> if s = [] then js ''server_vad'' else s)"

text \<open>The local helper \<open>num\<close>: \<open>Number(v)\<close> of a number is the number itself.\<close>

definition num :: "jsnum \<Rightarrow> jsnum \<Rightarrow> jsnum" where
  "num v d = (if isFinite v then v else d)"

text \<open>The returned object literal, as its list of properties.\<close>

definition normalizeTurnDetection :: "vad_config \<Rightarrow> (jsstring \<times> jsv) list" where
  "normalizeTurnDetection c =
     (let ty = (if rawType c = js ''server_vad'' \<or> rawType c = js ''semantic_vad''
                then rawType c else js ''server_vad'')
      in if ty = js ''semantic_vad''
         then [(js ''type'', JStr (js ''semantic_vad''))]
         else [(js ''type'', JStr (js ''server_vad'')),
               (js ''threshold'', JNum (num (VAD_THRESHOLD c) (Fin (6 / 10)))),
               (js ''prefix_padding_ms'', JNum (num (VAD_PREFIX_PADDING_MS c) (Fin 200))),
               (js ''silence_duration_ms'', JNum (num (VAD_SILENCE_DURATION_MS c) (Fin 600)))])"

section \<open>openai.js: the transcript file\<close>

text \<open>
  \<open>String.prototype.trim\<close> removes the code units of WhiteSpace and LineTerminator
  (ECMAScript) from both ends.
\<close>

definition js_ws :: "nat \<Rightarrow> bool" where
  "js_ws c \<longleftrightarrow>
     c \<in> {9, 10, 11, 12, 13, 32, 160, 5760, 8232, 8233, 8239, 8287, 12288, 65279}
     \<or> (8192 \<le> c \<and> c \<le> 8202)"

definition trim :: "jsstring \<Rightarrow> jsstring" where
  "trim s = rev (dropWhile js_ws (rev (dropWhile js_ws s)))"

text \<open>
  The caller identity stored for a channel: asterisk.js stores a string; the source
  also accepts an object with string fields \<open>number\<close>, \<open>name\<close> and \<open>id\<close>.
\<close>

datatype caller_id =
    CidString jsstring
  | CidObject "jsstring option" "jsstring option" "jsstring option"

text \<open>\<open>a || b\<close> on optional strings: the first operand when truthy, else the second.\<close>

fun str_or :: "jsstring option \<Rightarrow> jsstring option \<Rightarrow> jsstring option" where
  "str_or (Some s) b = (if s \<noteq> [] then Some s else b)"
| "str_or None b = b"

text \<open>The class \<open>[^\d+]\<close> of the regular expression, negated: what \<open>replace\<close> keeps.\<close>

definition digit_or_plus :: "nat \<Rightarrow> bool" where
  "digit_or_plus c \<longleftrightarrow> (48 \<le> c \<and> c \<le> 57) \<or> c = 43"

text \<open>
  \<open>safeCallerId\<close>. The first argument is the \<open>callerId\<close> column of \<open>sipMap\<close>: \<open>None\<close> for
  a channel that is not in the map or has no caller identity.
\<close>

definition safeCallerId :: "(jsstring \<rightharpoonup> caller_id) \<Rightarrow> jsstring \<Rightarrow> jsstring" where
  "safeCallerId callerIds channelId =
     (let cid = (case callerIds channelId of
                   None \<Rightarrow> None
                 | Some (CidString s) \<Rightarrow> Some s
                 | Some (CidObject number name ident) \<Rightarrow> str_or (str_or number name) ident);
          cid1 = trim (case str_or cid (Some []) of Some s \<Rightarrow> s | None \<Rightarrow> []);
          cid2 = filter digit_or_plus cid1
      in if cid2 \<noteq> [] then cid2 else js ''unknown'')"

text \<open>\<open>String(n)\<close> of a natural number: its decimal digits.\<close>

fun dec :: "nat \<Rightarrow> jsstring" where
  "dec n = (if n < 10 then [48 + n] else dec (n div 10) @ [48 + n mod 10])"

text \<open>\<open>padStart(2, '0')\<close>.\<close>

definition padStart2 :: "jsstring \<Rightarrow> jsstring" where
  "padStart2 s = replicate (2 - length s) 48 @ s"

text \<open>
  What \<open>new Date()\<close> gives \<open>ensureDailyDir\<close>: the local year, the month as
  \<open>getMonth()\<close> returns it (0 to 11) and the day of the month.
\<close>

record local_date =
  fullYear :: nat
  month0 :: nat
  dayOfMonth :: nat

text \<open>
  \<open>path.join\<close> of the runtime, for POSIX paths. The segments that are not empty are
  joined with \<open>/\<close> and the result is normalised: \<open>normalizeString\<close> walks the path
  segment by segment, drops empty segments and \<open>.\<close>, and lets \<open>..\<close> remove the segment
  before it (a relative path keeps the \<open>..\<close> it cannot resolve, an absolute one drops
  them). \<open>split_slash\<close> gives the segments between the separators, \<open>join_slash\<close> puts
  separators between segments, and \<open>norm_segment\<close> is one round of the loop of
  \<open>normalizeString\<close> on the segments kept so far.
\<close>

fun split_slash :: "jsstring \<Rightarrow> jsstring list" where
  "split_slash [] = [[]]"
| "split_slash (c # cs) =
     (if c = 47 then [] # split_slash cs
      else (case split_slash cs of s # ss \<Rightarrow> (c # s) # ss | [] \<Rightarrow> [[c]]))"

fun join_slash :: "jsstring list \<Rightarrow> jsstring" where
  "join_slash [] = []"
| "join_slash [a] = a"
| "join_slash (a # b # bs) = a @ 47 # join_slash (b # bs)"

definition norm_segment :: "bool \<Rightarrow> jsstring list \<Rightarrow> jsstring \<Rightarrow> jsstring list" where
  "norm_segment allowAboveRoot res seg =
     (if seg = [] \<or> seg = js ''.'' then res
      else if seg = js ''..''
           then (if res \<noteq> [] \<and> last res \<noteq> js ''..'' then butlast res
                 else if allowAboveRoot then res @ [js ''..''] else res)
           else res @ [seg])"

definition normalizeString :: "jsstring \<Rightarrow> bool \<Rightarrow> jsstring" where
  "normalizeString p allowAboveRoot =
     join_slash (foldl (norm_segment allowAboveRoot) [] (split_slash p))"

text \<open>\<open>path.normalize\<close>: a leading and a trailing separator are kept.\<close>

definition path_normalize :: "jsstring \<Rightarrow> jsstring" where
  "path_normalize p =
     (if p = [] then js ''.''
      else
        let isAbsolute = (hd p = 47);
            trailingSeparator = (last p = 47);
            body = normalizeString p (\<not> isAbsolute)
        in if body = []
           then (if isAbsolute then js ''/'' else if trailingSeparator then js ''./'' else js ''.'')
           else (if isAbsolute then js ''/'' else []) @ body
                  @ (if trailingSeparator then js ''/'' else []))"

definition path_join :: "jsstring list \<Rightarrow> jsstring" where
  "path_join segs =
     (let joined = filter (\<lambda>s. s \<noteq> []) segs
      in if joined = [] then js ''.'' else path_normalize (join_slash joined))"

text \<open>
  Paths that \<open>path.join\<close> leaves as they are written: a directory in normal form (not
  \<open>.\<close>, no separator at its end) and a segment that is a plain name.
\<close>

definition plain_segment :: "jsstring \<Rightarrow> bool" where
  "plain_segment s \<longleftrightarrow> s \<noteq> [] \<and> 47 \<notin> set s \<and> s \<noteq> js ''.'' \<and> s \<noteq> js ''..''"

definition normal_dir :: "jsstring \<Rightarrow> bool" where
  "normal_dir d \<longleftrightarrow> path_normalize d = d \<and> last d \<noteq> 47 \<and> d \<noteq> js ''.''"

text \<open>
  The segments \<open>normalizeString\<close> keeps: none is empty or \<open>.\<close> or holds a separator, and
  \<open>..\<close> stands only at the front, and only in a relative path.
\<close>

definition valid_segment :: "jsstring \<Rightarrow> bool" where
  "valid_segment s \<longleftrightarrow> s \<noteq> [] \<and> 47 \<notin> set s \<and> s \<noteq> js ''.''"

fun dots_first :: "jsstring list \<Rightarrow> bool" where
  "dots_first [] = True"
| "dots_first (s # ss) = (if s = js ''..'' then dots_first ss else js ''..'' \<notin> set ss)"

definition normal_stack :: "bool \<Rightarrow> jsstring list \<Rightarrow> bool" where
  "normal_stack allowAboveRoot st \<longleftrightarrow>
     list_all valid_segment st \<and> dots_first st \<and> (\<not> allowAboveRoot \<longrightarrow> js ''..'' \<notin> set st)"

text \<open>
  \<open>ensureDailyDir\<close>: the directory it returns. Creating the directory can fail; the
  failure is logged and the same directory is returned, so the path does not depend
  on it. \<open>recordingsDir\<close> is \<open>config.RECORDINGS_DIR\<close>.
\<close>

definition ensureDailyDir :: "jsstring \<Rightarrow> local_date \<Rightarrow> jsstring" where
  "ensureDailyDir recordingsDir now =
     (let root = (if recordingsDir \<noteq> [] then recordingsDir
                  else js ''/var/spool/asterisk/monitor'');
          yyyy = dec (fullYear now);
          mm = padStart2 (dec (month0 now + 1));
          dd = padStart2 (dec (dayOfMonth now))
      in path_join [root, yyyy, mm, dd])"

definition transcriptPath ::
  "jsstring \<Rightarrow> local_date \<Rightarrow> (jsstring \<rightharpoonup> caller_id) \<Rightarrow> jsstring \<Rightarrow> jsstring" where
  "transcriptPath recordingsDir now callerIds channelId =
     (let dir = ensureDailyDir recordingsDir now;
          callerId = safeCallerId callerIds channelId
      in path_join [dir, js ''conversation-'' @ callerId @ js ''-'' @ channelId @ js ''.txt''])"

text \<open>
  \<open>appendTranscript\<close>: the request it hands to \<open>fs.appendFile\<close>, the file and the
  line, or \<open>None\<close> when it returns before writing. \<open>who\<close> is the speaker label the two
  call sites pass. \<open>now\<close> is the local date read by \<open>ensureDailyDir\<close> and \<open>stamp\<close> the
  result of \<open>new Date().toISOString()\<close>.
\<close>

datatype speaker = USER | ASSISTANT

fun speaker_label :: "speaker \<Rightarrow> jsstring" where
  "speaker_label USER = js ''USER''"
| "speaker_label ASSISTANT = js ''ASSISTANT''"

definition appendTranscript ::
  "jsstring \<Rightarrow> local_date \<Rightarrow> jsstring \<Rightarrow> (jsstring \<rightharpoonup> caller_id) \<Rightarrow> jsstring \<Rightarrow> speaker
     \<Rightarrow> jsstring \<Rightarrow> (jsstring \<times> jsstring) option" where
  "appendTranscript recordingsDir now stamp callerIds channelId who txt =
     (if txt = [] \<or> trim txt = [] then None
      else Some (transcriptPath recordingsDir now callerIds channelId,
                 stamp @ js '' '' @ speaker_label who @ js '': '' @ txt @ [10]))"

section \<open>openai.js: the per-call session\<close>

text \<open>
  Exceptions are values. \<open>TypeError\<close>: a property read on \<open>null\<close> or \<open>undefined\<close>, or a
  call of a method the value does not have. \<open>RangeError\<close>: \<open>Buffer.alloc\<close> with a
  negative size. \<open>SenderError\<close>: an exception thrown inside the RTP sender.
  \<open>OpFailed\<close>: a PBX, socket, port-pool or mail operation that threw or whose promise
  rejected.
\<close>

datatype exn = TypeError | RangeError | SenderError | OpFailed

type_synonym buffer = "8 word list"

text \<open>
  Reading property \<open>k\<close> of a value. \<open>None\<close> is the TypeError of a read on \<open>null\<close> or
  \<open>undefined\<close>. An object gives its own property, or \<open>undefined\<close>; a boolean, number,
  string or array gives \<open>undefined\<close> (none of them has a property of the names read
  in this file: \<open>type\<close>, \<open>item\<close>, \<open>id\<close>, \<open>role\<close>, \<open>delta\<close>, \<open>transcript\<close>, \<open>error\<close>).
\<close>

fun prop_of :: "jsv \<Rightarrow> jsstring \<Rightarrow> jsv option" where
  "prop_of JUndefined k = None"
| "prop_of JNull k = None"
| "prop_of (JObj ps) k = Some (case map_of ps k of None \<Rightarrow> JUndefined | Some v \<Rightarrow> v)"
| "prop_of _ k = Some JUndefined"

text \<open>What a session does to the world outside it, in the order it does it.\<close>

datatype effect =
    SendRtpPacket buffer
  | StopPlayback
  | AppendTranscriptCall speaker jsstring
  | RedirectRequest jsstring
  | TerminateRequest jsstring
  | WatchdogArmed
  | FinalizeStarted
  | WsCloseCall
  | ErrorLogged exn

text \<open>
  The configuration and the runtime the session reads. \<open>onRedirectRequest\<close> and
  \<open>onTerminateRequest\<close> say whether the hook is a function. \<open>bufferFrom\<close> is
  \<open>Buffer.from(v, 'base64')\<close> and \<open>lowerNFKC\<close> is \<open>s.toLowerCase().normalize('NFKC')\<close>, both
  of the runtime. \<open>senderThrows\<close> says whether a call into the RTP sender throws.
\<close>

record ai_env =
  AGENT_TERMINATE_PHRASES :: "jsstring list"
  REDIRECTION_PHRASES :: "jsstring list"
  SILENCE_PADDING_MS :: int
  onRedirectRequest :: bool
  onTerminateRequest :: bool
  bufferFrom :: "jsv \<Rightarrow> exn + buffer"
  lowerNFKC :: "jsstring \<Rightarrow> jsstring"
  senderThrows :: bool

text \<open>
  The variables \<open>startOpenAIWebSocket\<close> closes over. \<open>streamHandler\<close> and \<open>ws\<close> say whether
  the variable holds an object; \<open>registered\<close> is \<open>sipMap.has(channelId)\<close> and
  \<open>channelTotalDeltaBytes\<close> is \<open>channelData.totalDeltaBytes\<close>; \<open>out\<close> collects the effects.
\<close>

record session =
  streamHandler :: bool
  ws :: bool
  isResponseActive :: bool
  totalDeltaBytes :: nat
  loggedDeltaBytes :: nat
  segmentCount :: nat
  messageQueue :: "jsv list"
  itemRoles :: "(jsv \<times> jsv) list"
  lastUserItemId :: "jsv option"
  terminateRequested :: bool
  terminateReason :: "jsstring option"
  terminationInFlight :: bool
  terminationWatchdogStarted :: bool
  registered :: bool
  channelTotalDeltaBytes :: nat
  out :: "effect list"

definition emit :: "effect \<Rightarrow> session \<Rightarrow> session" where
  "emit e s = s\<lparr>out := out s @ [e]\<rparr>"

text \<open>A call into the RTP sender: the call is made, and it may throw.\<close>

definition sender_call :: "ai_env \<Rightarrow> effect \<Rightarrow> session \<Rightarrow> exn option \<times> session" where
  "sender_call env e s = (if senderThrows env then Some SenderError else None, emit e s)"

text \<open>
  \<open>finalizeAndTerminate\<close> up to its first \<open>await\<close>: a second call returns at once.
  The wait for the sender's buffer follows; \<open>finalize_end\<close> is the \<open>finally\<close> block
  that runs after it.
\<close>

definition finalize_begin :: "session \<Rightarrow> session" where
  "finalize_begin s =
     (if terminationInFlight s then s
      else emit FinalizeStarted (s\<lparr>terminationInFlight := True\<rparr>))"

definition finalize_end :: "ai_env \<Rightarrow> session \<Rightarrow> session" where
  "finalize_end env s =
     (let s1 = (if onTerminateRequest env
                then emit (TerminateRequest
                             (case terminateReason s of
                                Some r \<Rightarrow> if r \<noteq> [] then r else js ''agent-terminate''
                              | None \<Rightarrow> js ''agent-terminate'')) s
                else s)
      in s1\<lparr>terminateRequested := False, terminateReason := None\<rparr>)"

text \<open>The watchdog timer armed by a terminate phrase, when it fires.\<close>

definition watchdog_fire :: "session \<Rightarrow> session" where
  "watchdog_fire s =
     (if terminateRequested s \<and> \<not> terminationInFlight s then finalize_begin s else s)"

text \<open>\<open>case 'conversation.item.created'\<close>.\<close>

definition on_item_created :: "ai_env \<Rightarrow> session \<Rightarrow> jsv \<Rightarrow> exn option \<times> session" where
  "on_item_created env s response =
     (case prop_of response (js ''item'') of
        None \<Rightarrow> (Some TypeError, s)
      | Some item \<Rightarrow>
          if \<not> truthy item then (None, s)
          else (case prop_of item (js ''id'') of
                  None \<Rightarrow> (Some TypeError, s)
                | Some ident \<Rightarrow>
                    if \<not> truthy ident then (None, s)
                    else (case prop_of item (js ''role'') of
                            None \<Rightarrow> (Some TypeError, s)
                          | Some role \<Rightarrow>
                              if \<not> truthy role then (None, s)
                              else
                                let s1 = s\<lparr>itemRoles := AList.update ident role (itemRoles s)\<rparr>
                                in if role = JStr (js ''user'')
                                   then
                                     let s2 = s1\<lparr>lastUserItemId := Some ident\<rparr>
                                     in if streamHandler s2
                                        then sender_call env StopPlayback s2
                                        else (None, s2)
                                   else (None, s1))))"

text \<open>
  \<open>Math.ceil(silenceDurationMs / 20)\<close> on an integer, and the padding
  \<open>Buffer.alloc(silencePackets * 160, 0x7f)\<close>, which throws on a negative size.
\<close>

definition silencePackets :: "int \<Rightarrow> int" where
  "silencePackets silenceDurationMs = - ((- silenceDurationMs) div 20)"

definition silenceBuffer :: "ai_env \<Rightarrow> exn + buffer" where
  "silenceBuffer env =
     (let silenceDurationMs = (if SILENCE_PADDING_MS env \<noteq> 0 then SILENCE_PADDING_MS env else 100);
          n = silencePackets silenceDurationMs * 160
      in if n < 0 then Inl RangeError else Inr (replicate (nat n) 0x7F))"

text \<open>\<open>case 'response.audio.delta'\<close>.\<close>

definition on_audio_delta :: "ai_env \<Rightarrow> session \<Rightarrow> jsv \<Rightarrow> exn option \<times> session" where
  "on_audio_delta env s response =
     (case prop_of response (js ''delta'') of
        None \<Rightarrow> (Some TypeError, s)
      | Some delta \<Rightarrow>
          if \<not> truthy delta then (None, s)
          else (case bufferFrom env delta of
                  Inl e \<Rightarrow> (Some e, s)
                | Inr deltaBuffer \<Rightarrow>
                    if length deltaBuffer > 0 \<and> \<not> list_all (\<lambda>byte. byte = 0x7F) deltaBuffer
                    then
                      let total = totalDeltaBytes s + length deltaBuffer;
                          seg = segmentCount s + 1;
                          logit = (int total - int (loggedDeltaBytes s) \<ge> 40000 \<or> seg \<ge> 100);
                          s1 = s\<lparr>totalDeltaBytes := total,
                                 channelTotalDeltaBytes := total,
                                 registered := True,
                                 segmentCount := (if logit then 0 else seg),
                                 loggedDeltaBytes := (if logit then total else loggedDeltaBytes s)\<rparr>
                      in (case (if total = length deltaBuffer
                                then (case silenceBuffer env of
                                        Inl e \<Rightarrow> Inl e
                                      | Inr sil \<Rightarrow> Inr (sil @ deltaBuffer))
                                else Inr deltaBuffer) of
                            Inl e \<Rightarrow> (Some e, s1)
                          | Inr packetBuffer \<Rightarrow>
                              if registered s1 \<and> streamHandler s1
                              then sender_call env (SendRtpPacket packetBuffer) s1
                              else (None, s1))
                    else (None, s)))"

text \<open>
  The two transcript-delta cases only log \<open>response.delta.trim()\<close>: a TypeError when
  the delta is truthy and not a string.
\<close>

definition on_transcript_delta :: "session \<Rightarrow> jsv \<Rightarrow> exn option \<times> session" where
  "on_transcript_delta s response =
     (case prop_of response (js ''delta'') of
        None \<Rightarrow> (Some TypeError, s)
      | Some delta \<Rightarrow>
          if \<not> truthy delta then (None, s)
          else (case delta of JStr _ \<Rightarrow> (None, s) | _ \<Rightarrow> (Some TypeError, s)))"

text \<open>
  \<open>phrases.find((p) => txt.includes(p))\<close>, then \<open>if (matched)\<close>: the first phrase that
  is a substring of the text, when that phrase is not the empty string.
\<close>

definition matched_phrase :: "jsstring list \<Rightarrow> jsstring \<Rightarrow> jsstring option" where
  "matched_phrase phrases txt =
     (case find (\<lambda>p. sublist p txt) phrases of
        None \<Rightarrow> None
      | Some m \<Rightarrow> if m \<noteq> [] then Some m else None)"

text \<open>\<open>case 'response.audio_transcript.done'\<close>.\<close>

definition on_transcript_done :: "ai_env \<Rightarrow> session \<Rightarrow> jsv \<Rightarrow> exn option \<times> session" where
  "on_transcript_done env s response =
     (case prop_of response (js ''transcript'') of
        None \<Rightarrow> (Some TypeError, s)
      | Some transcript \<Rightarrow>
          if \<not> truthy transcript then (None, s)
          else (case transcript of
                  JStr t \<Rightarrow>
                    let txt = lowerNFKC env t;
                        s1 = emit (AppendTranscriptCall ASSISTANT t) s;
                        s2 = (case matched_phrase (AGENT_TERMINATE_PHRASES env) txt of
                                None \<Rightarrow> s1
                              | Some m \<Rightarrow>
                                  let s1a = s1\<lparr>terminateRequested := True,
                                                terminateReason := Some m\<rparr>
                                  in if \<not> terminationWatchdogStarted s1a
                                     then emit WatchdogArmed
                                            (s1a\<lparr>terminationWatchdogStarted := True\<rparr>)
                                     else s1a);
                        s3 = (case matched_phrase (REDIRECTION_PHRASES env) txt of
                                None \<Rightarrow> s2
                              | Some m \<Rightarrow>
                                  if onRedirectRequest env then emit (RedirectRequest m) s2
                                  else s2)
                    in (None, s3)
                | _ \<Rightarrow> (Some TypeError, s)))"

text \<open>
  \<open>case 'conversation.item.input_audio_transcription.completed'\<close>: \<open>appendTranscript\<close>
  reads \<open>text.trim()\<close> outside its own \<open>try\<close>.
\<close>

definition on_user_transcript :: "session \<Rightarrow> jsv \<Rightarrow> exn option \<times> session" where
  "on_user_transcript s response =
     (case prop_of response (js ''transcript'') of
        None \<Rightarrow> (Some TypeError, s)
      | Some transcript \<Rightarrow>
          if \<not> truthy transcript then (None, s)
          else (case transcript of
                  JStr t \<Rightarrow> (None, emit (AppendTranscriptCall USER t) s)
                | _ \<Rightarrow> (Some TypeError, s)))"

text \<open>
  \<open>case 'response.audio.done'\<close>. The handler awaits \<open>finalizeAndTerminate\<close>; the wait
  suspends this handler only, and \<open>finalize_end\<close> is the step that follows it.
\<close>

definition on_audio_done :: "session \<Rightarrow> exn option \<times> session" where
  "on_audio_done s =
     (let s1 = s\<lparr>isResponseActive := False, loggedDeltaBytes := 0, segmentCount := 0,
                 itemRoles := [], lastUserItemId := None\<rparr>
      in (None, if terminateRequested s1 then finalize_begin s1 else s1))"

text \<open>\<open>case 'error'\<close>: \<open>ws.close()\<close> sits in a \<open>try\<close> of its own.\<close>

definition on_error :: "session \<Rightarrow> exn option \<times> session" where
  "on_error s =
     (let s1 = (if ws s then emit WsCloseCall s else s)
      in (None, if terminateRequested s1 then finalize_begin s1 else s1))"

text \<open>The \<open>switch\<close> of \<open>processMessage\<close>, inside its \<open>try\<close>.\<close>

definition processMessage_body :: "ai_env \<Rightarrow> session \<Rightarrow> jsv \<Rightarrow> exn option \<times> session" where
  "processMessage_body env s response =
     (case prop_of response (js ''type'') of
        None \<Rightarrow> (Some TypeError, s)
      | Some ty \<Rightarrow>
          if ty = JStr (js ''session.created'') then (None, s)
          else if ty = JStr (js ''session.updated'') then (None, s)
          else if ty = JStr (js ''conversation.item.created'') then on_item_created env s response
          else if ty = JStr (js ''response.created'') then (None, s\<lparr>isResponseActive := True\<rparr>)
          else if ty = JStr (js ''response.audio.delta'') then on_audio_delta env s response
          else if ty = JStr (js ''response.audio_transcript.delta'')
            then on_transcript_delta s response
          else if ty = JStr (js ''response.audio_transcript.done'')
            then on_transcript_done env s response
          else if ty = JStr (js ''conversation.item.input_audio_transcription.delta'')
            then on_transcript_delta s response
          else if ty = JStr (js ''conversation.item.input_audio_transcription.completed'')
            then on_user_transcript s response
          else if ty = JStr (js ''response.audio.done'') then on_audio_done s
          else if ty = JStr (js ''error'') then on_error s
          else (None, s))"

text \<open>\<open>try { ... } catch (e) { logger.error(...) }\<close>.\<close>

definition try_catch ::
  "exn option \<times> 's \<Rightarrow> (exn \<Rightarrow> 's \<Rightarrow> exn option \<times> 's) \<Rightarrow> exn option \<times> 's" where
  "try_catch r handler = (case r of (None, s) \<Rightarrow> (None, s) | (Some e, s) \<Rightarrow> handler e s)"

definition processMessage :: "ai_env \<Rightarrow> session \<Rightarrow> jsv \<Rightarrow> exn option \<times> session" where
  "processMessage env s response =
     try_catch (processMessage_body env s response) (\<lambda>e s'. (None, emit (ErrorLogged e) s'))"

text \<open>
  The \<open>message\<close> listener: \<open>parsed\<close> is the result of \<open>JSON.parse\<close>, \<open>None\<close> when it threw.
\<close>

definition on_ws_message :: "session \<Rightarrow> jsv option \<Rightarrow> session" where
  "on_ws_message s parsed =
     (case parsed of None \<Rightarrow> s | Some response \<Rightarrow> s\<lparr>messageQueue := messageQueue s @ [response]\<rparr>)"

text \<open>
  One run of the 25 ms interval callback: up to \<open>maxMessages\<close> messages, each shifted
  off the queue and processed. An exception escaping \<open>processMessage\<close> would end the
  loop.
\<close>

fun pump_loop :: "ai_env \<Rightarrow> nat \<Rightarrow> session \<Rightarrow> exn option \<times> session" where
  "pump_loop env 0 s = (None, s)"
| "pump_loop env (Suc i) s =
     (case messageQueue s of
        [] \<Rightarrow> (None, s)
      | m # ms \<Rightarrow>
          (case processMessage env (s\<lparr>messageQueue := ms\<rparr>) m of
             (Some e, s') \<Rightarrow> (Some e, s')
           | (None, s') \<Rightarrow> pump_loop env i s'))"

definition pump_tick :: "ai_env \<Rightarrow> session \<Rightarrow> exn option \<times> session" where
  "pump_tick env s = pump_loop env 5 s"

text \<open>\<open>k\<close> runs of the interval callback, one after the other.\<close>

fun pump_ticks :: "ai_env \<Rightarrow> nat \<Rightarrow> session \<Rightarrow> exn option \<times> session" where
  "pump_ticks env 0 s = (None, s)"
| "pump_ticks env (Suc k) s =
     (case pump_tick env s of
        (Some e, s') \<Rightarrow> (Some e, s')
      | (None, s') \<Rightarrow> pump_ticks env k s')"

text \<open>
  The messages of a list handled one after the other, each after it has been shifted
  off the queue: what a pump that never stops early does to them.
\<close>

fun process_all :: "ai_env \<Rightarrow> jsv list \<Rightarrow> session \<Rightarrow> session" where
  "process_all env [] s = s"
| "process_all env (m # ms) s =
     process_all env ms (snd (processMessage env (s\<lparr>messageQueue := tl (messageQueue s)\<rparr>) m))"

section \<open>asterisk.js: the call registry\<close>

text \<open>
  The RTP sender of a call as \<open>terminateAfterPlayback\<close> reads it: the lengths of its
  \<open>audioBuffer\<close> and of its \<open>packetQueue\<close> (0 when the field is missing).
\<close>

record stream_handler =
  audioBuffer :: nat
  packetQueue :: nat

text \<open>
  The per-call object stored in \<open>sipMap\<close>. A field that holds an object is modelled
  by what the code reads of it: \<open>d_bridge\<close> is \<open>bridge.id\<close>, \<open>d_channel\<close> and \<open>d_ws\<close> say
  whether the field holds an object, timer fields hold the timer's handle. The
  source's \<open>_cleaned\<close>, \<open>_sipEnded\<close>, \<open>_extEnded\<close> and \<open>_cleanupTimer\<close> are \<open>d_cleaned\<close>,
  \<open>d_sipEnded\<close>, \<open>d_extEnded\<close> and \<open>d_cleanupTimer\<close>.
\<close>

record call_data =
  d_bridgeId :: "jsstring option"
  d_bridge :: "jsstring option"
  d_channel :: bool
  d_rtpPort :: "nat option"
  d_wsClosed :: bool
  d_ws :: bool
  d_callerId :: "jsstring option"
  d_externalChannelId :: "jsstring option"
  d_callTimeoutId :: "nat option"
  d_streamHandler :: "stream_handler option"
  d_redirecting :: bool
  d_terminateAfterPlayback :: bool
  d_cleaned :: bool
  d_sipEnded :: bool
  d_extEnded :: bool
  d_cleanupTimer :: "nat option"

text \<open>The empty object \<open>{}\<close>.\<close>

definition empty_data :: call_data where
  "empty_data =
     \<lparr> d_bridgeId = None, d_bridge = None, d_channel = False, d_rtpPort = None,
       d_wsClosed = False, d_ws = False, d_callerId = None, d_externalChannelId = None,
       d_callTimeoutId = None, d_streamHandler = None, d_redirecting = False,
       d_terminateAfterPlayback = False, d_cleaned = False, d_sipEnded = False,
       d_extEnded = False, d_cleanupTimer = None \<rparr>"

text \<open>An entry of \<open>extMap\<close>: stored under the external leg's id and under the call's id.\<close>

record ext_entry =
  e_bridgeId :: jsstring
  e_channelId :: "jsstring option"
  e_externalChannelId :: "jsstring option"

text \<open>The reason string of a cleanup, by the template that builds it.\<close>

datatype reason =
    Manual
  | BothEnded jsstring
  | GraceTimeout jsstring
  | AssistantTerminate jsstring
  | BridgeDestroyed
  | StasisStartError
  | Sigint

fun reason_text :: "reason \<Rightarrow> jsstring" where
  "reason_text Manual = js ''manual''"
| "reason_text (BothEnded sourceEvent) = sourceEvent @ js '':both-ended''"
| "reason_text (GraceTimeout sourceEvent) = sourceEvent @ js '':grace-timeout''"
| "reason_text (AssistantTerminate phrase) = js ''assistant-terminate:'' @ phrase"
| "reason_text BridgeDestroyed = js ''BridgeDestroyed''"
| "reason_text StasisStartError = js ''stasisstart-error''"
| "reason_text Sigint = js ''sigint''"

text \<open>
  What the core does to the world outside it: calls to the PBX, the sockets, the
  port pool and the mailer, and the log line that opens a cleanup.
\<close>

datatype action =
    CleanupStarted jsstring reason
  | StreamEnd jsstring
  | WsClose jsstring
  | HangupChannel jsstring
  | DestroyBridge jsstring
  | CloseReceiver jsstring
  | CloseSender jsstring
  | ReleaseRtpPort nat
  | SendTranscriptEmail jsstring jsstring reason
  | ContinueInDialplan jsstring jsstring jsstring

text \<open>What a pending timer does when it fires.\<close>

datatype timer_action =
    GraceCleanup jsstring jsstring
  | IgnoreExtExpire jsstring
  | TerminateFallback jsstring jsstring
  | CallDurationLimit jsstring

record timer =
  t_delay :: nat
  t_action :: timer_action

text \<open>The steps of the cleanup's \<open>try\<close> block, in order.\<close>

datatype cstep =
    IgnoreExtStep
  | ClearCallTimeoutStep
  | StreamEndStep
  | WsCloseStep
  | ExtHangupStep
  | BridgeDestroyStep
  | SipHangupStep
  | RxCloseStep
  | TxCloseStep
  | ReleasePortStep
  | PurgeExtMapStep
  | EmailStep
  | RemoveSipStep

definition cleanup_steps :: "cstep list" where
  "cleanup_steps =
     [IgnoreExtStep, ClearCallTimeoutStep, StreamEndStep, WsCloseStep, ExtHangupStep,
      BridgeDestroyStep, SipHangupStep, RxCloseStep, TxCloseStep, ReleasePortStep,
      PurgeExtMapStep, EmailStep, RemoveSipStep]"

text \<open>
  An entry of \<open>cleanupPromises\<close>. \<open>Running r steps awaited\<close>: the cleanup with reason \<open>r\<close>
  is in flight, \<open>steps\<close> of its \<open>try\<close> block are left, and \<open>awaited\<close> says whether it has
  suspended yet. \<open>Settled\<close>: the promise of a cleanup that returned without ever
  suspending; it was stored after its \<open>finally\<close> ran and stays in the map.
\<close>

datatype promise = Running reason "cstep list" bool | Settled

text \<open>
  The module state of asterisk.js with the maps of state.js. \<open>sipMap\<close> keeps its
  insertion order (the code iterates over it). \<open>listeners\<close> are the \<open>audioFinished\<close>
  listeners of \<open>terminateAfterPlayback\<close>, each under the handle of its fallback timer,
  and \<open>resolved\<close> the waits that are over. \<open>trace\<close> collects the actions.
\<close>

record core =
  sipMap :: "(jsstring \<times> call_data) list"
  extMap :: "jsstring \<rightharpoonup> ext_entry"
  rtpReceivers :: "jsstring \<rightharpoonup> bool"
  rtpSenders :: "jsstring \<rightharpoonup> bool"
  cleanupPromises :: "jsstring \<rightharpoonup> promise"
  ignoreExtEvents :: "jsstring set"
  cleanedChannels :: "jsstring set"
  ariClient :: bool
  timers :: "(nat \<times> timer) list"
  nextTimer :: nat
  listeners :: "(nat \<times> jsstring \<times> jsstring) list"
  resolved :: "nat set"
  trace :: "action list"

text \<open>
  The configuration the core reads, and \<open>fails\<close>: whether an operation throws or
  rejects when it is attempted. \<open>throwsAtCall\<close> says how a failing operation of the
  ARI client fails: it throws at the call, before a promise is returned, or it returns
  a promise that rejects. The two differ only where the code chains \<open>.catch\<close> on the
  promise and goes on after it.
\<close>

record core_env =
  EMAIL_ENABLED :: bool
  REDIRECTION_QUEUE :: jsstring
  REDIRECTION_QUEUE_CONTEXT :: "jsstring option"
  CLEANUP_GRACE_MS :: nat
  TERMINATE_FALLBACK_MS :: nat
  fails :: "action \<Rightarrow> bool"
  throwsAtCall :: "action \<Rightarrow> bool"

text \<open>\<open>sipMap.get(id) || {}\<close> and \<open>sipMap.set(id, data)\<close>.\<close>

definition data_of :: "core \<Rightarrow> jsstring \<Rightarrow> call_data" where
  "data_of c ident = (case map_of (sipMap c) ident of Some d \<Rightarrow> d | None \<Rightarrow> empty_data)"

definition sipMap_set :: "jsstring \<Rightarrow> call_data \<Rightarrow> core \<Rightarrow> core" where
  "sipMap_set ident d c = c\<lparr>sipMap := AList.update ident d (sipMap c)\<rparr>"

text \<open>\<open>setTimeout\<close> returns a fresh handle; \<open>clearTimeout\<close> drops the timer.\<close>

definition setTimeout :: "nat \<Rightarrow> timer_action \<Rightarrow> core \<Rightarrow> nat \<times> core" where
  "setTimeout ms act c =
     (nextTimer c,
      c\<lparr>timers := timers c @ [(nextTimer c, \<lparr>t_delay = ms, t_action = act\<rparr>)],
        nextTimer := Suc (nextTimer c)\<rparr>)"

definition clearTimeout :: "nat \<Rightarrow> core \<Rightarrow> core" where
  "clearTimeout h c = c\<lparr>timers := AList.delete h (timers c)\<rparr>"

text \<open>An operation is attempted: it is recorded, and it may throw.\<close>

definition attempt :: "core_env \<Rightarrow> action \<Rightarrow> core \<Rightarrow> exn option \<times> core" where
  "attempt env a c = (if fails env a then Some OpFailed else None, c\<lparr>trace := trace c @ [a]\<rparr>)"

text \<open>\<open>try { ... } catch (e) { logger.warn(...) }\<close>: the exception ends there.\<close>

definition swallow :: "exn option \<times> core \<Rightarrow> exn option \<times> core" where
  "swallow r = try_catch r (\<lambda>e c. (None, c))"

text \<open>\<open>try { if (b) op } catch (e) { ... }\<close>: the state after it.\<close>

definition guarded_attempt :: "bool \<Rightarrow> core_env \<Rightarrow> action \<Rightarrow> core \<Rightarrow> core" where
  "guarded_attempt b env a c = (if b then snd (swallow (attempt env a c)) else c)"

text \<open>
  \<open>ignoreExtEvents.add(ext); setTimeout(() => ignoreExtEvents.delete(ext), 10000)\<close>.
\<close>

definition ignore_ext :: "jsstring \<Rightarrow> core \<Rightarrow> core" where
  "ignore_ext ext c =
     snd (setTimeout 10000 (IgnoreExtExpire ext)
            (c\<lparr>ignoreExtEvents := insert ext (ignoreExtEvents c)\<rparr>))"

section \<open>asterisk.js: cleanup\<close>

text \<open>
  Closing the RTP receiver, one \<open>try\<close> block: an open socket is marked closed and
  closed, then the map entry is deleted; when \<open>close\<close> throws the entry stays.
  The sender's block is the same on \<open>rtpSenders\<close>.
\<close>

definition close_receiver :: "core_env \<Rightarrow> jsstring \<Rightarrow> core \<Rightarrow> exn option \<times> core" where
  "close_receiver env ident c =
     swallow
       (case (if rtpReceivers c ident = Some True
              then attempt env (CloseReceiver ident)
                     (c\<lparr>rtpReceivers := (rtpReceivers c)(ident \<mapsto> False)\<rparr>)
              else (None, c)) of
          (Some e, c1) \<Rightarrow> (Some e, c1)
        | (None, c1) \<Rightarrow> (None, c1\<lparr>rtpReceivers := (rtpReceivers c1)(ident := None)\<rparr>))"

definition close_sender :: "core_env \<Rightarrow> jsstring \<Rightarrow> core \<Rightarrow> exn option \<times> core" where
  "close_sender env ident c =
     swallow
       (case (if rtpSenders c ident = Some True
              then attempt env (CloseSender ident)
                     (c\<lparr>rtpSenders := (rtpSenders c)(ident \<mapsto> False)\<rparr>)
              else (None, c)) of
          (Some e, c1) \<Rightarrow> (Some e, c1)
        | (None, c1) \<Rightarrow> (None, c1\<lparr>rtpSenders := (rtpSenders c1)(ident := None)\<rparr>))"

text \<open>\<open>(fresh.callerId || 'unknown').toString()\<close>.\<close>

definition callerIdForMail :: "call_data \<Rightarrow> jsstring" where
  "callerIdForMail d =
     (case d_callerId d of Some s \<Rightarrow> if s \<noteq> [] then s else js ''unknown'' | None \<Rightarrow> js ''unknown'')"

text \<open>
  One step of the cleanup's \<open>try\<close> block for call \<open>ident\<close>. The call's object is read
  where the step runs (the code holds the object \<open>sipMap\<close> holds). Every operation
  that can fail sits in a \<open>try\<close> of its own or has its rejection caught.
\<close>

fun cleanup_step :: "core_env \<Rightarrow> jsstring \<Rightarrow> reason \<Rightarrow> cstep \<Rightarrow> core \<Rightarrow> exn option \<times> core" where
  "cleanup_step env ident r IgnoreExtStep c =
     (case d_externalChannelId (data_of c ident) of
        None \<Rightarrow> (None, c)
      | Some ext \<Rightarrow>
          if ext \<noteq> [] then (None, ignore_ext ext c) else (None, c))"
| "cleanup_step env ident r ClearCallTimeoutStep c =
     (case d_callTimeoutId (data_of c ident) of
        None \<Rightarrow> (None, c)
      | Some h \<Rightarrow> (None, clearTimeout h c))"
| "cleanup_step env ident r StreamEndStep c =
     (if d_streamHandler (data_of c ident) \<noteq> None
      then swallow (attempt env (StreamEnd ident) c) else (None, c))"
| "cleanup_step env ident r WsCloseStep c =
     (if \<not> d_wsClosed (data_of c ident) \<and> d_ws (data_of c ident)
      then swallow (attempt env (WsClose ident) c) else (None, c))"
| "cleanup_step env ident r ExtHangupStep c =
     (case d_externalChannelId (data_of c ident) of
        None \<Rightarrow> (None, c)
      | Some ext \<Rightarrow>
          if ext \<noteq> [] \<and> ariClient c then swallow (attempt env (HangupChannel ext) c)
          else (None, c))"
| "cleanup_step env ident r BridgeDestroyStep c =
     (case d_bridge (data_of c ident) of
        None \<Rightarrow> (None, c)
      | Some bid \<Rightarrow>
          if bid \<noteq> [] \<and> ariClient c then swallow (attempt env (DestroyBridge bid) c)
          else (None, c))"
| "cleanup_step env ident r SipHangupStep c =
     (if \<not> d_redirecting (data_of c ident) \<and> d_channel (data_of c ident) \<and> ariClient c
      then swallow (attempt env (HangupChannel ident) c) else (None, c))"
| "cleanup_step env ident r RxCloseStep c = close_receiver env ident c"
| "cleanup_step env ident r TxCloseStep c = close_sender env ident c"
| "cleanup_step env ident r ReleasePortStep c =
     (case d_rtpPort (data_of c ident) of
        None \<Rightarrow> (None, c)
      | Some p \<Rightarrow> swallow (attempt env (ReleaseRtpPort p) c))"
| "cleanup_step env ident r PurgeExtMapStep c =
     (let m1 = (case d_externalChannelId (data_of c ident) of
                  None \<Rightarrow> extMap c
                | Some ext \<Rightarrow> if ext \<noteq> [] then (extMap c)(ext := None) else extMap c)
      in (None, c\<lparr>extMap := m1(ident := None)\<rparr>))"
| "cleanup_step env ident r EmailStep c =
     (if EMAIL_ENABLED env \<and> \<not> d_redirecting (data_of c ident)
      then swallow (attempt env
                      (SendTranscriptEmail ident (callerIdForMail (data_of c ident)) r) c)
      else (None, c))"
| "cleanup_step env ident r RemoveSipStep c =
     (None, c\<lparr>sipMap := AList.delete ident (sipMap c)\<rparr>)"

text \<open>Whether the step reaches an \<open>await\<close>.\<close>

fun step_awaits :: "jsstring \<Rightarrow> cstep \<Rightarrow> core_env \<Rightarrow> core \<Rightarrow> bool" where
  "step_awaits ident WsCloseStep env c \<longleftrightarrow>
     \<not> d_wsClosed (data_of c ident) \<and> d_ws (data_of c ident)"
| "step_awaits ident ExtHangupStep env c \<longleftrightarrow>
     (case d_externalChannelId (data_of c ident) of
        None \<Rightarrow> False | Some ext \<Rightarrow> ext \<noteq> [] \<and> ariClient c)"
| "step_awaits ident BridgeDestroyStep env c \<longleftrightarrow>
     (case d_bridge (data_of c ident) of None \<Rightarrow> False | Some bid \<Rightarrow> bid \<noteq> [] \<and> ariClient c)"
| "step_awaits ident SipHangupStep env c \<longleftrightarrow>
     \<not> d_redirecting (data_of c ident) \<and> d_channel (data_of c ident) \<and> ariClient c"
| "step_awaits ident EmailStep env c \<longleftrightarrow>
     EMAIL_ENABLED env \<and> \<not> d_redirecting (data_of c ident)"
| "step_awaits ident _ env c \<longleftrightarrow> False"

text \<open>
  The start of the cleanup's body, past the soft guard: the per-call flag is set
  and stored, the call joins \<open>cleanedChannels\<close>, and a pending grace timer is cleared.
\<close>

definition cleanup_mark :: "jsstring \<Rightarrow> core \<Rightarrow> core" where
  "cleanup_mark ident c =
     (let d = data_of c ident;
          c1 = sipMap_set ident (d\<lparr>d_cleaned := True\<rparr>) c;
          c2 = c1\<lparr>cleanedChannels := insert ident (cleanedChannels c1)\<rparr>
      in (case d_cleanupTimer d of
            None \<Rightarrow> c2
          | Some h \<Rightarrow>
              sipMap_set ident (d\<lparr>d_cleaned := True, d_cleanupTimer := None\<rparr>)
                (clearTimeout h c2)))"

text \<open>
  \<open>cleanupChannel\<close> up to the start of its \<open>try\<close> block: the two guards, the log
  line, the soft guard, the marking, and the promise that holds the rest.
\<close>

definition cleanup_call :: "core_env \<Rightarrow> jsstring \<Rightarrow> reason \<Rightarrow> core \<Rightarrow> core" where
  "cleanup_call env ident r c =
     (if ident \<in> cleanedChannels c then c
      else if cleanupPromises c ident \<noteq> None then c
      else
        let c0 = c\<lparr>trace := trace c @ [CleanupStarted ident r]\<rparr>
        in if d_cleaned (data_of c ident)
           then c0\<lparr>cleanedChannels := insert ident (cleanedChannels c0),
                   cleanupPromises := (cleanupPromises c0)(ident \<mapsto> Settled)\<rparr>
           else (cleanup_mark ident c0)
                  \<lparr>cleanupPromises :=
                     (cleanupPromises c0)(ident \<mapsto> Running r cleanup_steps False)\<rparr>)"

text \<open>
  The in-flight cleanup of \<open>ident\<close> runs its next step, or its \<open>finally\<close> when no step
  is left. An exception that leaves a step ends the \<open>try\<close> block: the outer \<open>catch\<close>
  logs it and \<open>finally\<close> follows.
\<close>

definition cleanup_resume :: "core_env \<Rightarrow> jsstring \<Rightarrow> core \<Rightarrow> core" where
  "cleanup_resume env ident c =
     (case cleanupPromises c ident of
        None \<Rightarrow> c
      | Some Settled \<Rightarrow> c
      | Some (Running r [] awaited) \<Rightarrow>
          c\<lparr>cleanupPromises :=
               (cleanupPromises c)(ident := if awaited then None else Some Settled)\<rparr>
      | Some (Running r (st # sts) awaited) \<Rightarrow>
          (case cleanup_step env ident r st c of
             (None, c1) \<Rightarrow>
               c1\<lparr>cleanupPromises :=
                    (cleanupPromises c1)
                      (ident \<mapsto> Running r sts (awaited \<or> step_awaits ident st env c))\<rparr>
           | (Some e, c1) \<Rightarrow>
               c1\<lparr>cleanupPromises :=
                    (cleanupPromises c1)
                      (ident \<mapsto> Running r [] (awaited \<or> step_awaits ident st env c))\<rparr>))"

text \<open>
  \<open>cleanupChannel\<close> with nothing else running in between: the call, then the steps
  of the cleanup in flight for \<open>ident\<close> until its promise settles.
\<close>

definition cleanupChannel :: "core_env \<Rightarrow> jsstring \<Rightarrow> reason \<Rightarrow> core \<Rightarrow> core" where
  "cleanupChannel env ident r c =
     (cleanup_resume env ident ^^ Suc (length cleanup_steps)) (cleanup_call env ident r c)"

section \<open>asterisk.js: leg-end events\<close>

record channel =
  ch_id :: jsstring
  ch_name :: jsstring

definition isExternalMediaChannel :: "jsstring \<Rightarrow> bool" where
  "isExternalMediaChannel name = prefix (js ''UnicastRTP/'') name"

text \<open>\<open>resolveSipIdForChannel\<close>: \<open>None\<close> is \<open>undefined\<close>.\<close>

definition resolveSipIdForChannel :: "core \<Rightarrow> channel \<Rightarrow> jsstring option" where
  "resolveSipIdForChannel c ch =
     (if \<not> isExternalMediaChannel (ch_name ch) then Some (ch_id ch)
      else
        (case (case extMap c (ch_id ch) of
                 None \<Rightarrow> None
               | Some entry \<Rightarrow>
                   (case e_channelId entry of
                      None \<Rightarrow> None
                    | Some sid \<Rightarrow> if sid \<noteq> [] then Some sid else None)) of
           Some sid \<Rightarrow> Some sid
         | None \<Rightarrow>
             (case find (\<lambda>(sipId, d). d_externalChannelId d = Some (ch_id ch)) (sipMap c) of
                None \<Rightarrow> None
              | Some (sipId, d) \<Rightarrow> Some sipId)))"

definition markChannelEndedAndMaybeCleanup ::
  "core_env \<Rightarrow> channel \<Rightarrow> jsstring \<Rightarrow> core \<Rightarrow> core" where
  "markChannelEndedAndMaybeCleanup env ch sourceEvent c =
     (let isExt = isExternalMediaChannel (ch_name ch)
      in if isExt \<and> ch_id ch \<in> ignoreExtEvents c then c
         else (case resolveSipIdForChannel c ch of
                 None \<Rightarrow> c
               | Some sipId \<Rightarrow>
                   if sipId = [] then c
                   else if sipId \<in> cleanedChannels c then c
                   else
                     let d = data_of c sipId
                     in if d_cleaned d then c
                        else
                          let d1 = (if isExt then d\<lparr>d_extEnded := True\<rparr>
                                    else d\<lparr>d_sipEnded := True\<rparr>);
                              c1 = sipMap_set sipId d1 c
                          in if d_sipEnded d1 \<and> d_extEnded d1
                             then cleanup_call env sipId (BothEnded sourceEvent) c1
                             else
                               let c2 = (case d_cleanupTimer d1 of
                                           None \<Rightarrow> c1
                                         | Some h \<Rightarrow> clearTimeout h c1);
                                   hc = setTimeout (CLEANUP_GRACE_MS env)
                                          (GraceCleanup sipId sourceEvent) c2
                               in sipMap_set sipId (d1\<lparr>d_cleanupTimer := Some (fst hc)\<rparr>)
                                    (snd hc)))"

text \<open>The \<open>StasisEnd\<close> and \<open>ChannelDestroyed\<close> listeners.\<close>

definition late_event :: "core \<Rightarrow> channel \<Rightarrow> bool" where
  "late_event c ch \<longleftrightarrow>
     (isExternalMediaChannel (ch_name ch) \<and> ch_id ch \<in> ignoreExtEvents c)
     \<or> (case resolveSipIdForChannel c ch of
           None \<Rightarrow> False
         | Some sipId \<Rightarrow> sipId \<noteq> [] \<and> sipId \<in> cleanedChannels c)"

definition on_StasisEnd :: "core_env \<Rightarrow> channel \<Rightarrow> core \<Rightarrow> core" where
  "on_StasisEnd env ch c =
     (if late_event c ch then c
      else
        let c1 = markChannelEndedAndMaybeCleanup env ch (js ''StasisEnd'') c
        in if isExternalMediaChannel (ch_name ch)
           then c1\<lparr>extMap := (extMap c1)(ch_id ch := None)\<rparr> else c1)"

definition on_ChannelDestroyed :: "core_env \<Rightarrow> channel \<Rightarrow> core \<Rightarrow> core" where
  "on_ChannelDestroyed env ch c =
     (if late_event c ch then c
      else markChannelEndedAndMaybeCleanup env ch (js ''ChannelDestroyed'') c)"

section \<open>asterisk.js: termination after playback\<close>

text \<open>\<open>isQueueEmpty\<close> of \<open>terminateAfterPlayback\<close>.\<close>

definition isQueueEmpty :: "stream_handler option \<Rightarrow> bool" where
  "isQueueEmpty sh =
     (case sh of None \<Rightarrow> True | Some h \<Rightarrow> audioBuffer h = 0 \<and> packetQueue h = 0)"

text \<open>
  \<open>done\<close> of the wait under timer handle \<open>h\<close>: the first call resolves the promise,
  and \<open>cleanupChannel\<close> is called in the continuation.
\<close>

definition wait_done :: "core_env \<Rightarrow> nat \<Rightarrow> jsstring \<Rightarrow> jsstring \<Rightarrow> core \<Rightarrow> core" where
  "wait_done env h channelId phrase c =
     (if h \<in> resolved c then c
      else cleanup_call env channelId (AssistantTerminate phrase)
             (c\<lparr>resolved := insert h (resolved c)\<rparr>))"

definition terminateAfterPlayback :: "core_env \<Rightarrow> jsstring \<Rightarrow> jsstring \<Rightarrow> core \<Rightarrow> core" where
  "terminateAfterPlayback env channelId phraseMatched c =
     (let d = data_of c channelId
      in if d_redirecting d then c
         else if d_cleaned d \<or> channelId \<in> cleanedChannels c then c
         else
           let c1 = sipMap_set channelId (d\<lparr>d_terminateAfterPlayback := True\<rparr>) c
           in if isQueueEmpty (d_streamHandler d)
              then cleanup_call env channelId (AssistantTerminate phraseMatched) c1
              else
                let hc = setTimeout (TERMINATE_FALLBACK_MS env)
                           (TerminateFallback channelId phraseMatched) c1
                in (snd hc)\<lparr>listeners :=
                              listeners (snd hc) @ [(fst hc, channelId, phraseMatched)]\<rparr>)"

text \<open>
  The sender emits \<open>audioFinished(ident)\<close>: every listener is called, in the order of
  registration; a listener for \<open>ident\<close> removes itself and calls \<open>done\<close>.
\<close>

definition notify_listener ::
  "core_env \<Rightarrow> jsstring \<Rightarrow> core \<Rightarrow> nat \<times> jsstring \<times> jsstring \<Rightarrow> core" where
  "notify_listener env ident c l =
     (case l of (h, channelId, phrase) \<Rightarrow>
        if ident = channelId
        then wait_done env h channelId phrase
               (c\<lparr>listeners := filter (\<lambda>l'. fst l' \<noteq> h) (listeners c)\<rparr>)
        else c)"

definition audioFinished :: "core_env \<Rightarrow> jsstring \<Rightarrow> core \<Rightarrow> core" where
  "audioFinished env ident c = foldl (notify_listener env ident) c (listeners c)"

text \<open>A pending timer fires: it leaves the timer table and its callback runs.\<close>

definition fire_timer :: "core_env \<Rightarrow> nat \<Rightarrow> core \<Rightarrow> core" where
  "fire_timer env h c =
     (case map_of (timers c) h of
        None \<Rightarrow> c
      | Some t \<Rightarrow>
          let c1 = clearTimeout h c
          in (case t_action t of
                GraceCleanup sipId sourceEvent \<Rightarrow>
                  cleanup_call env sipId (GraceTimeout sourceEvent) c1
              | IgnoreExtExpire ext \<Rightarrow> c1\<lparr>ignoreExtEvents := ignoreExtEvents c1 - {ext}\<rparr>
              | TerminateFallback channelId phrase \<Rightarrow>
                  wait_done env h channelId phrase
                    (c1\<lparr>listeners := filter (\<lambda>l'. fst l' \<noteq> h) (listeners c1)\<rparr>)
              | CallDurationLimit channelId \<Rightarrow>
                  if ariClient c1
                  then snd (swallow (attempt env (HangupChannel channelId) c1))
                  else c1))"

section \<open>asterisk.js: queue handoff\<close>

text \<open>
  The loop over \<open>tryContexts\<close>: the first context for which \<open>continueInDialplan\<close>
  succeeds ends it. The result says whether one did.
\<close>

fun try_contexts ::
  "core_env \<Rightarrow> jsstring \<Rightarrow> jsstring \<Rightarrow> jsstring list \<Rightarrow> core \<Rightarrow> bool \<times> core" where
  "try_contexts env sipChannelId qExt [] c = (False, c)"
| "try_contexts env sipChannelId qExt (ctx # ctxs) c =
     (if \<not> ariClient c then try_contexts env sipChannelId qExt ctxs c
      else (case attempt env (ContinueInDialplan sipChannelId ctx qExt) c of
              (None, c1) \<Rightarrow> (True, c1)
            | (Some e, c1) \<Rightarrow> try_contexts env sipChannelId qExt ctxs c1))"

definition tryContexts :: "core_env \<Rightarrow> jsstring list" where
  "tryContexts env =
     (case REDIRECTION_QUEUE_CONTEXT env of
        None \<Rightarrow> []
      | Some ctx \<Rightarrow> if ctx \<noteq> [] then [ctx] else [])
     @ [js ''ext-queues'', js ''from-internal'']"

text \<open>
  \<open>redirectToQueue\<close>, with nothing else running in between. The hangup of the
  external leg has \<open>.catch\<close> chained on it: a rejection is dropped and the leg is then
  added to \<open>ignoreExtEvents\<close>; when the call itself throws, the rest of that \<open>try\<close>
  block is skipped.
\<close>

definition redirectToQueue :: "core_env \<Rightarrow> jsstring \<Rightarrow> core \<Rightarrow> core" where
  "redirectToQueue env sipChannelId c =
     (let qExt = trim (REDIRECTION_QUEUE env)
      in if qExt = [] then c
         else (case map_of (sipMap c) sipChannelId of
                 None \<Rightarrow> c
               | Some d \<Rightarrow>
                   if d_redirecting d then c
                   else
                     let c1 = sipMap_set sipChannelId (d\<lparr>d_redirecting := True\<rparr>) c;
                         c2 = guarded_attempt (d_streamHandler d \<noteq> None) env
                                (StreamEnd sipChannelId) c1;
                         c3 = guarded_attempt (\<not> d_wsClosed d \<and> d_ws d) env
                                (WsClose sipChannelId) c2;
                         c4 = (case d_externalChannelId d of
                                 None \<Rightarrow> c3
                               | Some ext \<Rightarrow>
                                   if ext \<noteq> [] \<and> ariClient c3
                                   then
                                     let hung = guarded_attempt True env (HangupChannel ext) c3
                                     in if fails env (HangupChannel ext)
                                           \<and> throwsAtCall env (HangupChannel ext)
                                        then hung else ignore_ext ext hung
                                   else c3);
                         c5 = (case d_bridge d of
                                 None \<Rightarrow> c4
                               | Some bid \<Rightarrow>
                                   guarded_attempt (bid \<noteq> [] \<and> ariClient c4) env
                                     (DestroyBridge bid) c4);
                         c6 = snd (close_receiver env sipChannelId c5);
                         c7 = snd (close_sender env sipChannelId c6);
                         c8 = (case d_rtpPort d of
                                 None \<Rightarrow> c7
                               | Some p \<Rightarrow> guarded_attempt True env (ReleaseRtpPort p) c7);
                         continued = try_contexts env sipChannelId qExt (tryContexts env) c8
                     in if fst continued then snd continued
                        else guarded_attempt (ariClient (snd continued)) env
                               (HangupChannel sipChannelId) (snd continued)))"

section \<open>asterisk.js: the events of a run\<close>

text \<open>The \<open>BridgeDestroyed\<close> listener: the first call of \<open>sipMap\<close> on that bridge.\<close>

definition on_BridgeDestroyed :: "core_env \<Rightarrow> jsstring \<Rightarrow> core \<Rightarrow> core" where
  "on_BridgeDestroyed env bridgeId c =
     (case find (\<lambda>(sipId, d). d_bridgeId d = Some bridgeId) (sipMap c) of
        None \<Rightarrow> c
      | Some (sipId, d) \<Rightarrow> cleanup_call env sipId BridgeDestroyed c)"

text \<open>
  What the event loop can run next: a PBX event, a timer, the sender's
  \<open>audioFinished\<close>, a hook called by the session, the cleanup after a failed call
  setup, or the next step of a cleanup in flight.
\<close>

datatype event =
    EvStasisEnd channel
  | EvChannelDestroyed channel
  | EvBridgeDestroyed jsstring
  | EvSetupError jsstring
  | EvTimer nat
  | EvAudioFinished jsstring
  | EvTerminateRequest jsstring jsstring
  | EvRedirectRequest jsstring
  | EvResume jsstring

fun core_step :: "core_env \<Rightarrow> core \<Rightarrow> event \<Rightarrow> core" where
  "core_step env c (EvStasisEnd ch) = on_StasisEnd env ch c"
| "core_step env c (EvChannelDestroyed ch) = on_ChannelDestroyed env ch c"
| "core_step env c (EvBridgeDestroyed bridgeId) = on_BridgeDestroyed env bridgeId c"
| "core_step env c (EvSetupError ident) = cleanup_call env ident StasisStartError c"
| "core_step env c (EvTimer h) = fire_timer env h c"
| "core_step env c (EvAudioFinished ident) = audioFinished env ident c"
| "core_step env c (EvTerminateRequest ident phrase) = terminateAfterPlayback env ident phrase c"
| "core_step env c (EvRedirectRequest ident) = redirectToQueue env ident c"
| "core_step env c (EvResume ident) = cleanup_resume env ident c"

definition run :: "core_env \<Rightarrow> core \<Rightarrow> event list \<Rightarrow> core" where
  "run env c evs = foldl (core_step env) c evs"

section \<open>A sample configuration and session\<close>

text \<open>
  A configuration for the runs evaluated below. Its \<open>bufferFrom\<close> is a stand-in for
  the runtime's decoder (each code unit of a string is one byte; anything but a
  string throws), its \<open>lowerNFKC\<close> the ASCII lower-casing.
\<close>

definition sample_env :: ai_env where
  "sample_env =
     \<lparr> AGENT_TERMINATE_PHRASES = [js ''goodbye''],
       REDIRECTION_PHRASES = [js ''connecting you''],
       SILENCE_PADDING_MS = 100,
       onRedirectRequest = True,
       onTerminateRequest = True,
       bufferFrom = (\<lambda>v. case v of JStr s \<Rightarrow> Inr (map of_nat s) | _ \<Rightarrow> Inl TypeError),
       lowerNFKC = toLowerCase,
       senderThrows = False \<rparr>"

text \<open>The session as the \<open>open\<close> listener of the WebSocket leaves it.\<close>

definition open_session :: session where
  "open_session =
     \<lparr> streamHandler = True, ws = True, isResponseActive = True, totalDeltaBytes = 0,
       loggedDeltaBytes = 0, segmentCount = 0, messageQueue = [], itemRoles = [],
       lastUserItemId = None, terminateRequested = False, terminateReason = None,
       terminationInFlight = False, terminationWatchdogStarted = False,
       registered = True, channelTotalDeltaBytes = 0, out = [] \<rparr>"

text \<open>An event \<open>{ type: t }\<close> with further properties.\<close>

definition ai_event :: "string \<Rightarrow> (jsstring \<times> jsv) list \<Rightarrow> jsv" where
  "ai_event t props = JObj ((js ''type'', JStr (js t)) # props)"

section \<open>Reading a trace\<close>

text \<open>The operations a cleanup step attempts, read off the state it starts in.\<close>

fun step_actions :: "core_env \<Rightarrow> jsstring \<Rightarrow> reason \<Rightarrow> cstep \<Rightarrow> core \<Rightarrow> action list" where
  "step_actions env i r StreamEndStep c =
     (if d_streamHandler (data_of c i) \<noteq> None then [StreamEnd i] else [])"
| "step_actions env i r WsCloseStep c =
     (if \<not> d_wsClosed (data_of c i) \<and> d_ws (data_of c i) then [WsClose i] else [])"
| "step_actions env i r ExtHangupStep c =
     (case d_externalChannelId (data_of c i) of
        None \<Rightarrow> []
      | Some ext \<Rightarrow> if ext \<noteq> [] \<and> ariClient c then [HangupChannel ext] else [])"
| "step_actions env i r BridgeDestroyStep c =
     (case d_bridge (data_of c i) of
        None \<Rightarrow> []
      | Some bid \<Rightarrow> if bid \<noteq> [] \<and> ariClient c then [DestroyBridge bid] else [])"
| "step_actions env i r SipHangupStep c =
     (if \<not> d_redirecting (data_of c i) \<and> d_channel (data_of c i) \<and> ariClient c
      then [HangupChannel i] else [])"
| "step_actions env i r RxCloseStep c =
     (if rtpReceivers c i = Some True then [CloseReceiver i] else [])"
| "step_actions env i r TxCloseStep c =
     (if rtpSenders c i = Some True then [CloseSender i] else [])"
| "step_actions env i r ReleasePortStep c =
     (case d_rtpPort (data_of c i) of None \<Rightarrow> [] | Some p \<Rightarrow> [ReleaseRtpPort p])"
| "step_actions env i r EmailStep c =
     (if EMAIL_ENABLED env \<and> \<not> d_redirecting (data_of c i)
      then [SendTranscriptEmail i (callerIdForMail (data_of c i)) r] else [])"
| "step_actions env i r _ c = []"

text \<open>The steps of a list, one after the other.\<close>

definition run_steps :: "core_env \<Rightarrow> jsstring \<Rightarrow> reason \<Rightarrow> cstep list \<Rightarrow> core \<Rightarrow> core" where
  "run_steps env i r sts c = foldl (\<lambda>c' st. snd (cleanup_step env i r st c')) c sts"

text \<open>The calls of the mailer for call \<open>i\<close> in a trace, and the log lines that open
  a cleanup of call \<open>i\<close> for the terminate phrase \<open>phrase\<close>.\<close>

fun is_email_for :: "jsstring \<Rightarrow> action \<Rightarrow> bool" where
  "is_email_for i (SendTranscriptEmail j callerId r) = (j = i)"
| "is_email_for i _ = False"

definition emails_for :: "jsstring \<Rightarrow> action list \<Rightarrow> nat" where
  "emails_for i tr = length (filter (is_email_for i) tr)"

definition terminate_cleanups :: "jsstring \<Rightarrow> jsstring \<Rightarrow> action list \<Rightarrow> nat" where
  "terminate_cleanups i phrase tr = count_list tr (CleanupStarted i (AssistantTerminate phrase))"

text \<open>
  The events that let a terminate request for call \<open>i\<close> and phrase \<open>phrase\<close> go ahead
  in state \<open>c\<close>: the sender's \<open>audioFinished\<close> for \<open>i\<close>, the fallback timer of such a
  request, and the request itself when the sender's queues are empty.
\<close>

fun releases :: "core \<Rightarrow> event \<Rightarrow> jsstring \<Rightarrow> jsstring \<Rightarrow> bool" where
  "releases c (EvAudioFinished j) i phrase = (j = i)"
| "releases c (EvTimer h) i phrase =
     (case map_of (timers c) h of
        None \<Rightarrow> False
      | Some t \<Rightarrow> t_action t = TerminateFallback i phrase)"
| "releases c (EvTerminateRequest j phrase') i phrase =
     (j = i \<and> phrase' = phrase \<and> isQueueEmpty (d_streamHandler (data_of c i)))"
| "releases c _ i phrase = False"

text \<open>The \<open>continueInDialplan\<close> attempts of a trace.\<close>

fun is_continue :: "action \<Rightarrow> bool" where
  "is_continue (ContinueInDialplan sip ctx q) = True"
| "is_continue _ = False"

text \<open>
  What \<open>redirectToQueue\<close> attempts before it continues the call in the dialplan, read
  off the state \<open>c\<close> it starts in and the call's object \<open>d\<close>.
\<close>

definition handoff_actions :: "core \<Rightarrow> jsstring \<Rightarrow> call_data \<Rightarrow> action list" where
  "handoff_actions c sip d =
     (if d_streamHandler d \<noteq> None then [StreamEnd sip] else [])
     @ (if \<not> d_wsClosed d \<and> d_ws d then [WsClose sip] else [])
     @ (case d_externalChannelId d of
          None \<Rightarrow> []
        | Some ext \<Rightarrow> if ext \<noteq> [] \<and> ariClient c then [HangupChannel ext] else [])
     @ (case d_bridge d of
          None \<Rightarrow> []
        | Some bid \<Rightarrow> if bid \<noteq> [] \<and> ariClient c then [DestroyBridge bid] else [])
     @ (if rtpReceivers c sip = Some True then [CloseReceiver sip] else [])
     @ (if rtpSenders c sip = Some True then [CloseSender sip] else [])
     @ (case d_rtpPort d of None \<Rightarrow> [] | Some p \<Rightarrow> [ReleaseRtpPort p])"

text \<open>
  The e-mail steps a promise still has before it, and the budget of call \<open>i\<close>: a call
  that has not been cleaned has no promise and no e-mail; for a cleaned call the
  e-mails sent and the e-mail steps still to run are at most one together.
\<close>

fun pending_emails :: "promise option \<Rightarrow> nat" where
  "pending_emails (Some (Running r sts awaited)) = length (filter (\<lambda>st. st = EmailStep) sts)"
| "pending_emails _ = 0"

definition email_budget :: "jsstring \<Rightarrow> core \<Rightarrow> bool" where
  "email_budget i c \<longleftrightarrow>
     (if i \<in> cleanedChannels c
      then emails_for i (trace c) + pending_emails (cleanupPromises c i) \<le> 1
      else cleanupPromises c i = None \<and> emails_for i (trace c) = 0)"

text \<open>The session's effects that start the teardown of the call.\<close>

fun is_teardown :: "effect \<Rightarrow> bool" where
  "is_teardown FinalizeStarted = True"
| "is_teardown (TerminateRequest r) = True"
| "is_teardown _ = False"

section \<open>A sample call\<close>

text \<open>
  \<open>Number(process.env.X || d)\<close>. The setting is \<open>None\<close> when the variable is unset or
  the empty string, the two falsy cases, and \<open>Some n\<close> when it is a string that
  \<open>Number\<close> reads as the natural number \<open>n\<close>: such a string is truthy also when
  \<open>n\<close> is 0. A string that \<open>Number\<close> reads as anything else is outside this type.
\<close>

definition env_ms :: "nat option \<Rightarrow> nat \<Rightarrow> nat" where
  "env_ms setting d = (case setting of None \<Rightarrow> d | Some n \<Rightarrow> n)"

text \<open>
  A configuration with e-mail on and the defaults of the two delays, in which every
  operation fails when \<open>failing\<close> is set; a failing call of the ARI client returns a
  promise that rejects.
\<close>

definition sample_core_env :: "bool \<Rightarrow> core_env" where
  "sample_core_env failing =
     \<lparr> EMAIL_ENABLED = True,
       REDIRECTION_QUEUE = js ''3000'',
       REDIRECTION_QUEUE_CONTEXT = None,
       CLEANUP_GRACE_MS = env_ms None 1500,
       TERMINATE_FALLBACK_MS = env_ms None 8000,
       fails = (\<lambda>a. failing),
       throwsAtCall = (\<lambda>a. False) \<rparr>"

text \<open>A live call \<open>sip-1\<close> with external leg \<open>ext-1\<close>, port 12000 and audio queued.\<close>

definition sample_call :: call_data where
  "sample_call =
     \<lparr> d_bridgeId = Some (js ''sip-1_bridge''), d_bridge = Some (js ''sip-1_bridge''),
       d_channel = True, d_rtpPort = Some 12000, d_wsClosed = False, d_ws = True,
       d_callerId = Some (js ''+48123456''), d_externalChannelId = Some (js ''ext-1''),
       d_callTimeoutId = None,
       d_streamHandler = Some \<lparr>audioBuffer = 40, packetQueue = 12\<rparr>,
       d_redirecting = False, d_terminateAfterPlayback = False, d_cleaned = False,
       d_sipEnded = False, d_extEnded = False, d_cleanupTimer = None \<rparr>"

definition sample_core :: core where
  "sample_core =
     \<lparr> sipMap = [(js ''sip-1'', sample_call)],
       extMap = [js ''ext-1'' \<mapsto> \<lparr>e_bridgeId = js ''sip-1_bridge'',
                                  e_channelId = Some (js ''sip-1''),
                                  e_externalChannelId = None\<rparr>,
                 js ''sip-1'' \<mapsto> \<lparr>e_bridgeId = js ''sip-1_bridge'',
                                  e_channelId = None,
                                  e_externalChannelId = Some (js ''ext-1'')\<rparr>],
       rtpReceivers = [js ''sip-1'' \<mapsto> True],
       rtpSenders = [js ''sip-1'' \<mapsto> True],
       cleanupPromises = Map.empty,
       ignoreExtEvents = {},
       cleanedChannels = {},
       ariClient = True,
       timers = [],
       nextTimer = 0,
       listeners = [],
       resolved = {},
       trace = [] \<rparr>"

text \<open>The two legs of the sample call, as the PBX names them.\<close>

definition sample_sip_leg :: channel where
  "sample_sip_leg = \<lparr>ch_id = js ''sip-1'', ch_name = js ''PJSIP/300-00000001''\<rparr>"

definition sample_ext_leg :: channel where
  "sample_ext_leg = \<lparr>ch_id = js ''ext-1'', ch_name = js ''UnicastRTP/127.0.0.1:12000-0x7f3c''\<rparr>"

section \<open>Facts about strings\<close>

lemma js_eq_iff: "js a = js b \<longleftrightarrow> a = b"
  by (simp add: js_def inj_map_eq_map inj_on_def)

lemma js_Nil_iff: "js a = [] \<longleftrightarrow> a = []"
  by (simp add: js_def)

section \<open>Turn detection is normalised\<close>

lemma isFinite_num: "isFinite d \<Longrightarrow> isFinite (num v d)"
  by (simp add: num_def)

lemma num_finite_arg: "isFinite v \<Longrightarrow> num v d = v"
  by (simp add: num_def)

lemma num_default: "\<not> isFinite v \<Longrightarrow> num v d = d"
  by (simp add: num_def)

lemma toLowerCase_server_vad: "toLowerCase (js ''server_vad'') = js ''server_vad''"
  by (simp add: toLowerCase_def js_def lower_unit_def)

lemma rawType_semantic_iff:
  "rawType c = js ''semantic_vad'' \<longleftrightarrow>
     (\<exists>s. VAD_TYPE c = Some s \<and> toLowerCase s = js ''semantic_vad'')"
proof (cases "VAD_TYPE c")
  case None
  then show ?thesis
    by (simp add: rawType_def toLowerCase_server_vad js_eq_iff)
next
  case (Some s)
  show ?thesis
  proof (cases "s = []")
    case True
    with Some show ?thesis
      by (simp add: rawType_def toLowerCase_server_vad js_eq_iff)
         (simp add: toLowerCase_def js_def)
  next
    case False
    with Some show ?thesis by (simp add: rawType_def)
  qed
qed

lemma normalizeTurnDetection_cases:
  "normalizeTurnDetection c =
     (if rawType c = js ''semantic_vad''
      then [(js ''type'', JStr (js ''semantic_vad''))]
      else [(js ''type'', JStr (js ''server_vad'')),
            (js ''threshold'', JNum (num (VAD_THRESHOLD c) (Fin (6 / 10)))),
            (js ''prefix_padding_ms'', JNum (num (VAD_PREFIX_PADDING_MS c) (Fin 200))),
            (js ''silence_duration_ms'', JNum (num (VAD_SILENCE_DURATION_MS c) (Fin 600)))])"
  by (simp add: normalizeTurnDetection_def Let_def js_eq_iff)

text \<open>
  C8. \<open>normalizeTurnDetection\<close> returns a value for every configuration, of one of two
  shapes. When the configured type is a string that lower-cases to \<open>semantic_vad\<close> the
  object has the single property \<open>type\<close>. Otherwise (\<open>server_vad\<close>, any other string,
  unset) it is a \<open>server_vad\<close> object whose three numeric properties are finite
  numbers: the configured value when that is finite, else 0.6, 200 and 600.
\<close>

theorem normalizeTurnDetection_shapes:
  "normalizeTurnDetection c =
     (if (\<exists>s. VAD_TYPE c = Some s \<and> toLowerCase s = js ''semantic_vad'')
      then [(js ''type'', JStr (js ''semantic_vad''))]
      else [(js ''type'', JStr (js ''server_vad'')),
            (js ''threshold'',
               JNum (if isFinite (VAD_THRESHOLD c) then VAD_THRESHOLD c else Fin (6 / 10))),
            (js ''prefix_padding_ms'',
               JNum (if isFinite (VAD_PREFIX_PADDING_MS c) then VAD_PREFIX_PADDING_MS c else Fin 200)),
            (js ''silence_duration_ms'',
               JNum (if isFinite (VAD_SILENCE_DURATION_MS c) then VAD_SILENCE_DURATION_MS c else Fin 600))])
   \<and> isFinite (if isFinite (VAD_THRESHOLD c) then VAD_THRESHOLD c else Fin (6 / 10))
   \<and> isFinite (if isFinite (VAD_PREFIX_PADDING_MS c) then VAD_PREFIX_PADDING_MS c else Fin 200)
   \<and> isFinite (if isFinite (VAD_SILENCE_DURATION_MS c) then VAD_SILENCE_DURATION_MS c else Fin 600)"
  unfolding normalizeTurnDetection_cases rawType_semantic_iff
  by (simp add: num_def)

text \<open>Three runs: a mixed-case \<open>semantic_vad\<close>, an unknown type with a non-finite
  threshold, and the configuration config.js builds when nothing is set.\<close>

lemma normalizeTurnDetection_mixed_case:
  "normalizeTurnDetection
     \<lparr> VAD_TYPE = Some (js ''Semantic_VAD''), VAD_THRESHOLD = Fin (1 / 2),
       VAD_PREFIX_PADDING_MS = Fin 300, VAD_SILENCE_DURATION_MS = Fin 500 \<rparr>
   = [(js ''type'', JStr (js ''semantic_vad''))]"
  by (simp add: normalizeTurnDetection_cases rawType_def toLowerCase_def js_def lower_unit_def)

lemma normalizeTurnDetection_unknown_type:
  "normalizeTurnDetection
     \<lparr> VAD_TYPE = Some (js ''none''), VAD_THRESHOLD = PosInf,
       VAD_PREFIX_PADDING_MS = Fin 300, VAD_SILENCE_DURATION_MS = NaN \<rparr>
   = [(js ''type'', JStr (js ''server_vad'')),
      (js ''threshold'', JNum (Fin (6 / 10))),
      (js ''prefix_padding_ms'', JNum (Fin 300)),
      (js ''silence_duration_ms'', JNum (Fin 600))]"
  by (simp add: normalizeTurnDetection_cases rawType_def toLowerCase_def js_def lower_unit_def
      num_def)

lemma normalizeTurnDetection_unset:
  "normalizeTurnDetection (load_vad_config NaN NaN NaN)
   = [(js ''type'', JStr (js ''server_vad'')),
      (js ''threshold'', JNum (Fin (6 / 10))),
      (js ''prefix_padding_ms'', JNum (Fin 200)),
      (js ''silence_duration_ms'', JNum (Fin 600))]"
  by (simp add: normalizeTurnDetection_cases rawType_def toLowerCase_def js_def lower_unit_def
      num_def load_vad_config_def or_default_def)

section \<open>The transcript file\<close>

declare dec.simps [simp del]

lemma dropWhile_all_iff: "(\<forall>x\<in>set (dropWhile P s). P x) \<longleftrightarrow> dropWhile P s = []"
  using hd_dropWhile [of P s] by (cases "dropWhile P s") (auto dest: set_dropWhileD)

lemma trim_Nil_iff: "trim s = [] \<longleftrightarrow> list_all js_ws s"
  by (simp add: trim_def dropWhile_eq_Nil_conv dropWhile_all_iff list_all_iff)

lemma filter_dropWhile_ws:
  "filter digit_or_plus (dropWhile js_ws s) = filter digit_or_plus s"
  by (induction s) (auto simp: js_ws_def digit_or_plus_def)

lemma filter_trim: "filter digit_or_plus (trim s) = filter digit_or_plus s"
  by (simp add: trim_def filter_dropWhile_ws flip: rev_filter)

lemma dec_small: "n < 10 \<Longrightarrow> dec n = [48 + n]"
  by (simp add: dec.simps)

lemma dec_two: "10 \<le> n \<Longrightarrow> n < 100 \<Longrightarrow> dec n = [48 + n div 10, 48 + n mod 10]"
  by (subst dec.simps) (simp add: dec_small)

lemma padStart2_dec:
  "n < 100 \<Longrightarrow> padStart2 (dec n) = [48 + n div 10, 48 + n mod 10]"
  by (cases "n < 10") (simp_all add: padStart2_def dec_two dec_small)

lemma dec_three: "100 \<le> n \<Longrightarrow> n < 1000 \<Longrightarrow> length (dec n) = 3"
  by (subst dec.simps) (simp add: dec_two)

lemma dec_four: "1000 \<le> n \<Longrightarrow> n < 10000 \<Longrightarrow> length (dec n) = 4"
  by (subst dec.simps) (simp add: dec_three)

lemma dec_digits: "list_all (\<lambda>c. 48 \<le> c \<and> c \<le> 57) (dec n)"
  by (induction n rule: dec.induct) (subst dec.simps, auto)

lemma safeCallerId_filter:
  "safeCallerId callerIds channelId =
     (let raw = (case callerIds channelId of
                   None \<Rightarrow> []
                 | Some (CidString s) \<Rightarrow> s
                 | Some (CidObject number name ident) \<Rightarrow>
                     (case str_or (str_or number name) ident of None \<Rightarrow> [] | Some s \<Rightarrow> s))
      in if filter digit_or_plus raw = [] then js ''unknown'' else filter digit_or_plus raw)"
  by (auto simp: safeCallerId_def Let_def filter_trim split: option.splits caller_id.splits)

section \<open>Paths that need no normalisation\<close>

lemma split_slash_nonempty [simp]: "split_slash p \<noteq> []"
  by (induction p) (auto split: list.splits)

lemma split_slash_append: "split_slash (a @ 47 # b) = split_slash a @ split_slash b"
proof (induction a)
  case Nil
  show ?case by simp
next
  case (Cons c a)
  then show ?case by (cases "split_slash a") auto
qed

lemma split_slash_plain: "47 \<notin> set s \<Longrightarrow> split_slash s = [s]"
  by (induction s) auto

lemma split_slash_free: "s \<in> set (split_slash p) \<Longrightarrow> 47 \<notin> set s"
  by (induction p arbitrary: s) (auto split: if_splits list.splits)

lemma join_slash_snoc: "st \<noteq> [] \<Longrightarrow> join_slash (st @ [s]) = join_slash st @ 47 # s"
  by (induction st rule: join_slash.induct) auto

lemma join_slash_Nil_iff: "\<forall>s\<in>set st. s \<noteq> [] \<Longrightarrow> join_slash st = [] \<longleftrightarrow> st = []"
  by (induction st rule: join_slash.induct) auto

lemma split_join_slash:
  "st \<noteq> [] \<Longrightarrow> \<forall>s\<in>set st. 47 \<notin> set s \<Longrightarrow> split_slash (join_slash st) = st"
proof (induction st rule: join_slash.induct)
  case 1
  then show ?case by simp
next
  case (2 a)
  then show ?case by (simp add: split_slash_plain)
next
  case (3 a b bs)
  then show ?case by (simp add: split_slash_append split_slash_plain)
qed

lemma norm_segment_plain: "plain_segment s \<Longrightarrow> norm_segment a st s = st @ [s]"
  by (simp add: norm_segment_def plain_segment_def)

text \<open>Appending a plain segment to a directory in normal form needs no normalisation.\<close>

lemma normal_dir_extend:
  assumes d: "normal_dir d" and s: "plain_segment s"
  shows "path_normalize (d @ 47 # s) = d @ 47 # s" and "normal_dir (d @ 47 # s)"
proof -
  define st where "st = foldl (norm_segment (hd d \<noteq> 47)) [] (split_slash d)"
  from d have nd: "path_normalize d = d" and ld: "last d \<noteq> 47" and dd: "d \<noteq> js ''.''"
    by (simp_all add: normal_dir_def)
  from nd have dne: "d \<noteq> []" by (auto simp: path_normalize_def js_def)
  have body: "join_slash st \<noteq> []"
  proof
    assume "join_slash st = []"
    with nd dne ld dd show False
      by (auto simp: path_normalize_def normalizeString_def st_def Let_def js_def
          split: if_splits)
  qed
  then have stne: "st \<noteq> []" by auto
  have dform: "d = (if hd d = 47 then js ''/'' else []) @ join_slash st"
    using nd dne ld body
    by (auto simp: path_normalize_def normalizeString_def st_def Let_def split: if_splits)
  from s have sne: "s \<noteq> []" and sfree: "47 \<notin> set s" by (simp_all add: plain_segment_def)
  have "last s \<noteq> 47" using sfree last_in_set [OF sne] by metis
  then have ls: "last (d @ 47 # s) \<noteq> 47" using sne by simp
  have hd: "hd (d @ 47 # s) = hd d" using dne by simp
  have stack: "foldl (norm_segment (hd d \<noteq> 47)) [] (split_slash (d @ 47 # s)) = st @ [s]"
    by (simp add: split_slash_append split_slash_plain [OF sfree] st_def norm_segment_plain [OF s])
  have "path_normalize (d @ 47 # s) = (if hd d = 47 then js ''/'' else []) @ join_slash (st @ [s])"
    using ls stne
    by (simp add: path_normalize_def normalizeString_def Let_def hd stack join_slash_snoc
        del: foldl_append)
  also have "\<dots> = d @ 47 # s"
    using stne dform by (simp add: join_slash_snoc)
  finally show n: "path_normalize (d @ 47 # s) = d @ 47 # s" .
  have "length (d @ 47 # s) \<noteq> length (js ''.'')" using dne by (simp add: js_def)
  then have "d @ 47 # s \<noteq> js ''.''" by metis
  then show "normal_dir (d @ 47 # s)"
    using n ls by (simp add: normal_dir_def)
qed

lemma dots_first_snoc:
  "dots_first (st @ [x]) \<longleftrightarrow> dots_first st \<and> (x = js ''..'' \<longrightarrow> (\<forall>s\<in>set st. s = js ''..''))"
  by (induction st) auto

lemma dots_first_butlast: "dots_first st \<Longrightarrow> dots_first (butlast st)"
proof (cases "st = []")
  case False
  assume "dots_first st"
  then have "dots_first (butlast st @ [last st])" using False by simp
  then show ?thesis unfolding dots_first_snoc by simp
qed simp

lemma dots_first_last:
  assumes "dots_first st" and "st \<noteq> []" and "last st = js ''..''"
  shows "\<forall>s\<in>set st. s = js ''..''"
proof -
  from assms have "dots_first (butlast st @ [js ''..''])" by (metis append_butlast_last_id)
  then have "\<forall>s\<in>set (butlast st). s = js ''..''" unfolding dots_first_snoc by simp
  moreover have "set st = insert (last st) (set (butlast st))"
    using assms(2) by (metis append_butlast_last_id list.simps(15) rotate1.simps(2) set_rotate1)
  ultimately show ?thesis using assms(3) by simp
qed

lemma valid_dotdot: "valid_segment (js ''..'')"
  by (simp add: valid_segment_def js_def)

lemma normal_stack_Nil [simp]: "normal_stack a []"
  by (simp add: normal_stack_def)

lemma norm_segment_normal:
  assumes "normal_stack a st" and "47 \<notin> set seg"
  shows "normal_stack a (norm_segment a st seg)"
proof -
  from assms(1) have v: "list_all valid_segment st" and df: "dots_first st"
    and na: "\<not> a \<longrightarrow> js ''..'' \<notin> set st"
    by (simp_all add: normal_stack_def)
  consider (skip) "seg = [] \<or> seg = js ''.''"
    | (pop) "seg = js ''..''" "st \<noteq> []" "last st \<noteq> js ''..''"
    | (up) "seg = js ''..''" "st = [] \<or> last st = js ''..''" a
    | (stay) "seg = js ''..''" "st = [] \<or> last st = js ''..''" "\<not> a"
    | (push) "seg \<noteq> []" "seg \<noteq> js ''.''" "seg \<noteq> js ''..''"
    by blast
  then show ?thesis
  proof cases
    case skip
    then show ?thesis using assms(1) by (auto simp: norm_segment_def)
  next
    case pop
    then have "norm_segment a st seg = butlast st" by (simp add: norm_segment_def js_def)
    moreover have "list_all valid_segment (butlast st)"
      using v by (auto simp: list_all_iff dest: in_set_butlastD)
    moreover have "\<not> a \<longrightarrow> js ''..'' \<notin> set (butlast st)"
      using na by (auto dest: in_set_butlastD)
    ultimately show ?thesis using dots_first_butlast [OF df] by (simp add: normal_stack_def)
  next
    case up
    then have eq: "norm_segment a st seg = st @ [js ''..'']"
      by (auto simp: norm_segment_def js_def)
    have "\<forall>s\<in>set st. s = js ''..''"
    proof (cases "st = []")
      case True
      then show ?thesis by simp
    next
      case False
      with up(2) have "last st = js ''..''" by simp
      from dots_first_last [OF df False this] show ?thesis .
    qed
    then show ?thesis
      unfolding eq using v df up(3) valid_dotdot
      by (simp add: normal_stack_def dots_first_snoc)
  next
    case stay
    then have "norm_segment a st seg = st" by (auto simp: norm_segment_def js_def)
    then show ?thesis using assms(1) by simp
  next
    case push
    then have eq: "norm_segment a st seg = st @ [seg]" by (simp add: norm_segment_def)
    show ?thesis
      unfolding eq using v df na push assms(2)
      by (simp add: normal_stack_def dots_first_snoc valid_segment_def)
  qed
qed

lemma foldl_norm_segment_normal:
  "normal_stack a st \<Longrightarrow> \<forall>s\<in>set segs. 47 \<notin> set s
   \<Longrightarrow> normal_stack a (foldl (norm_segment a) st segs)"
  by (induction segs arbitrary: st) (simp_all add: norm_segment_normal)

lemma stack_normal: "normal_stack a (foldl (norm_segment a) [] (split_slash p))"
  by (rule foldl_norm_segment_normal) (auto dest: split_slash_free)

text \<open>A stack in normal form is what normalising its own segments gives.\<close>

lemma normal_stack_fixed: "normal_stack a st \<Longrightarrow> foldl (norm_segment a) [] st = st"
proof (induction st rule: rev_induct)
  case Nil
  show ?case by simp
next
  case (snoc x st)
  from snoc.prems have st: "normal_stack a st" and x: "valid_segment x"
    and up: "x = js ''..'' \<longrightarrow> a \<and> (\<forall>s\<in>set st. s = js ''..'')"
    by (auto simp: normal_stack_def dots_first_snoc)
  have "norm_segment a st x = st @ [x]"
  proof (cases "x = js ''..''")
    case True
    with up have "st = [] \<or> last st = js ''..''" by (cases "st = []") simp_all
    with True up show ?thesis by (auto simp: norm_segment_def js_def)
  next
    case False
    with x show ?thesis by (simp add: norm_segment_def valid_segment_def)
  qed
  then show ?case using snoc.IH [OF st] by simp
qed

lemma normal_stack_free: "normal_stack a st \<Longrightarrow> \<forall>s\<in>set st. 47 \<notin> set s"
  by (simp add: normal_stack_def list_all_iff valid_segment_def)

lemma normal_stack_join_Nil: "normal_stack a st \<Longrightarrow> join_slash st = [] \<longleftrightarrow> st = []"
  by (rule join_slash_Nil_iff) (simp add: normal_stack_def list_all_iff valid_segment_def)

lemma norm_segment_empty [simp]: "norm_segment a st [] = st"
  by (simp add: norm_segment_def)

text \<open>Normalising a normalised path finds the same segments.\<close>

lemma stack_idem:
  assumes "p \<noteq> []"
  shows "foldl (norm_segment (hd p \<noteq> 47)) [] (split_slash (path_normalize p))
           = foldl (norm_segment (hd p \<noteq> 47)) [] (split_slash p)"
proof -
  define a where "a = (hd p \<noteq> 47)"
  define st where "st = foldl (norm_segment a) [] (split_slash p)"
  have ns: "normal_stack a st" unfolding st_def by (rule stack_normal)
  show ?thesis
  proof (cases "st = []")
    case True
    then have "path_normalize p = js ''/'' \<or> path_normalize p = js ''./''
                 \<or> path_normalize p = js ''.''"
      using assms by (simp add: path_normalize_def normalizeString_def Let_def st_def a_def)
    moreover have "foldl (norm_segment a) [] (split_slash (js ''/'')) = []"
      "foldl (norm_segment a) [] (split_slash (js ''./'')) = []"
      "foldl (norm_segment a) [] (split_slash (js ''.'')) = []"
      by (simp_all add: js_def norm_segment_def)
    ultimately show ?thesis using True by (auto simp: st_def a_def)
  next
    case False
    then have body: "join_slash st \<noteq> []" using normal_stack_join_Nil [OF ns] by simp
    have sj: "split_slash (join_slash st) = st"
      using False normal_stack_free [OF ns] by (rule split_join_slash)
    have sj2: "split_slash (join_slash st @ [47]) = st @ [[]]"
      using split_slash_append [of "join_slash st" "[]"] sj by simp
    have np: "path_normalize p = (if a then [] else [47]) @ join_slash st
                                   @ (if last p = 47 then [47] else [])"
      using assms body
      by (simp add: path_normalize_def normalizeString_def Let_def st_def a_def js_def)
    have "foldl (norm_segment a) [] (split_slash (path_normalize p)) = st"
      unfolding np using sj sj2 normal_stack_fixed [OF ns] by (cases a) simp_all
    then show ?thesis by (simp add: st_def a_def)
  qed
qed

lemma path_normalize_nonempty [simp]: "path_normalize p \<noteq> []"
  by (simp add: path_normalize_def Let_def js_def)

lemma hd_path_normalize:
  assumes "p \<noteq> []"
  shows "hd (path_normalize p) = 47 \<longleftrightarrow> hd p = 47"
proof -
  define st where "st = foldl (norm_segment (hd p \<noteq> 47)) [] (split_slash p)"
  have ns: "normal_stack (hd p \<noteq> 47) st" unfolding st_def by (rule stack_normal)
  show ?thesis
  proof (cases "st = []")
    case True
    then show ?thesis
      using assms by (simp add: path_normalize_def normalizeString_def Let_def st_def js_def)
  next
    case False
    then obtain s ss where st: "st = s # ss" by (cases st) auto
    with ns have "s \<noteq> []" "47 \<notin> set s" by (simp_all add: normal_stack_def valid_segment_def)
    then have "hd s \<noteq> 47" by (cases s) auto
    moreover have "hd (join_slash st) = hd s"
      unfolding st using \<open>s \<noteq> []\<close> by (cases ss) simp_all
    moreover have "join_slash st \<noteq> []" using normal_stack_join_Nil [OF ns] False by simp
    ultimately show ?thesis
      using assms
      by (simp add: path_normalize_def normalizeString_def Let_def js_def flip: st_def)
  qed
qed

text \<open>Joining onto a joined path: the inner normalisation changes nothing.\<close>

lemma path_normalize_left:
  assumes "p \<noteq> []"
  shows "path_normalize (path_normalize p @ 47 # f) = path_normalize (p @ 47 # f)"
proof -
  have h: "hd (path_normalize p @ 47 # f) = 47 \<longleftrightarrow> hd (p @ 47 # f) = 47"
    using assms hd_path_normalize [OF assms] by simp
  have "foldl (norm_segment (hd (p @ 47 # f) \<noteq> 47)) [] (split_slash (path_normalize p @ 47 # f))
      = foldl (norm_segment (hd (p @ 47 # f) \<noteq> 47)) [] (split_slash (p @ 47 # f))"
    using assms stack_idem [OF assms] by (simp add: split_slash_append)
  then show ?thesis
    using h by (simp add: path_normalize_def normalizeString_def Let_def)
qed

lemma path_join_pair:
  "a \<noteq> [] \<Longrightarrow> b \<noteq> [] \<Longrightarrow> path_join [a, b] = path_normalize (a @ 47 # b)"
  by (simp add: path_join_def)

lemma path_join_four:
  "a \<noteq> [] \<Longrightarrow> b \<noteq> [] \<Longrightarrow> c \<noteq> [] \<Longrightarrow> d \<noteq> []
   \<Longrightarrow> path_join [a, b, c, d] = path_normalize (a @ 47 # b @ 47 # c @ 47 # d)"
  by (simp add: path_join_def)

lemma path_join_nested:
  assumes "a \<noteq> []" "b \<noteq> []" "c \<noteq> []" "d \<noteq> []" "f \<noteq> []"
  shows "path_join [path_join [a, b, c, d], f]
           = path_normalize (a @ 47 # b @ 47 # c @ 47 # d @ 47 # f)"
  using assms path_normalize_left [of "a @ 47 # b @ 47 # c @ 47 # d" f]
  by (simp add: path_join_four path_join_pair)

lemma plain_digits:
  assumes "list_all (\<lambda>c. 48 \<le> c \<and> c \<le> 57) s" and "s \<noteq> []"
  shows "plain_segment s"
proof -
  from assms(1) have "\<forall>c\<in>set s. 48 \<le> c" by (simp add: list_all_iff)
  then have "47 \<notin> set s" "46 \<notin> set s" by auto
  then show ?thesis using assms(2) by (auto simp: plain_segment_def js_def)
qed

lemma dec_nonempty: "dec n \<noteq> []"
  by (subst dec.simps) simp

lemma plain_two_digits: "plain_segment [48 + a, 48 + b]"
  by (simp add: plain_segment_def js_def)

lemma safeCallerId_no_slash: "47 \<notin> set (safeCallerId callerIds channelId)"
  by (auto simp: safeCallerId_filter Let_def digit_or_plus_def js_def)

lemma safeCallerId_nonempty: "safeCallerId callerIds channelId \<noteq> []"
  by (simp add: safeCallerId_filter Let_def js_Nil_iff)

lemma plain_file_name:
  "47 \<notin> set caller \<Longrightarrow> 47 \<notin> set channelId
   \<Longrightarrow> plain_segment (js ''conversation-'' @ caller @ js ''-'' @ channelId @ js ''.txt'')"
  by (simp add: plain_segment_def js_def)

lemma default_dir_normal: "normal_dir (js ''/var/spool/asterisk/monitor'')"
  by (simp add: normal_dir_def path_normalize_def normalizeString_def norm_segment_def
      Let_def js_def)

section \<open>The transcript file and its lines\<close>

text \<open>
  C9. Every transcript append whose text is not empty and not whitespace only asks for
  one write: to the file \<open>RECORDINGS_DIR/YYYY/MM/DD/conversation-<caller>-<callId>.txt\<close>
  as \<open>path.join\<close> spells that path, with the local year, the month and the day of the
  month written with two digits, and \<open><caller>\<close> either \<open>unknown\<close> or a non-empty string
  of digits and \<open>+\<close>. When \<open>RECORDINGS_DIR\<close> is unset or a directory in normal form and
  the call id holds no separator, the path is spelled exactly so. The line is the ISO
  time stamp, a space, \<open>USER\<close> or \<open>ASSISTANT\<close>, a colon and a space, the text and a line
  feed. A text that is empty or whitespace only asks for no write.
\<close>

theorem appendTranscript_line_and_file:
  assumes "1000 \<le> fullYear now" and "fullYear now < 10000"
    and "month0 now < 12" and "dayOfMonth now \<le> 31"
  shows "appendTranscript recordingsDir now stamp callerIds channelId who txt =
     (if list_all js_ws txt then None
      else Some (path_normalize
                   ((if recordingsDir \<noteq> [] then recordingsDir
                     else js ''/var/spool/asterisk/monitor'')
                    @ js ''/'' @ dec (fullYear now)
                    @ js ''/'' @ [48 + (month0 now + 1) div 10, 48 + (month0 now + 1) mod 10]
                    @ js ''/'' @ [48 + dayOfMonth now div 10, 48 + dayOfMonth now mod 10]
                    @ js ''/'' @ js ''conversation-'' @ safeCallerId callerIds channelId
                    @ js ''-'' @ channelId @ js ''.txt''),
                 stamp @ js '' '' @ speaker_label who @ js '': '' @ txt @ js [CHR 0x0A]))
     \<and> ((recordingsDir = [] \<or> normal_dir recordingsDir) \<and> 47 \<notin> set channelId \<longrightarrow>
          path_normalize
            ((if recordingsDir \<noteq> [] then recordingsDir else js ''/var/spool/asterisk/monitor'')
             @ js ''/'' @ dec (fullYear now)
             @ js ''/'' @ [48 + (month0 now + 1) div 10, 48 + (month0 now + 1) mod 10]
             @ js ''/'' @ [48 + dayOfMonth now div 10, 48 + dayOfMonth now mod 10]
             @ js ''/'' @ js ''conversation-'' @ safeCallerId callerIds channelId
             @ js ''-'' @ channelId @ js ''.txt'')
          = (if recordingsDir \<noteq> [] then recordingsDir else js ''/var/spool/asterisk/monitor'')
             @ js ''/'' @ dec (fullYear now)
             @ js ''/'' @ [48 + (month0 now + 1) div 10, 48 + (month0 now + 1) mod 10]
             @ js ''/'' @ [48 + dayOfMonth now div 10, 48 + dayOfMonth now mod 10]
             @ js ''/'' @ js ''conversation-'' @ safeCallerId callerIds channelId
             @ js ''-'' @ channelId @ js ''.txt'')
     \<and> length (dec (fullYear now)) = 4
     \<and> (speaker_label who = js ''USER'' \<or> speaker_label who = js ''ASSISTANT'')
     \<and> safeCallerId callerIds channelId =
          (let raw = (case callerIds channelId of
                        None \<Rightarrow> []
                      | Some (CidString s) \<Rightarrow> s
                      | Some (CidObject number name ident) \<Rightarrow>
                          (case str_or (str_or number name) ident of None \<Rightarrow> [] | Some s \<Rightarrow> s))
           in if filter digit_or_plus raw = [] then js ''unknown'' else filter digit_or_plus raw)"
proof -
  define root where
    "root = (if recordingsDir \<noteq> [] then recordingsDir else js ''/var/spool/asterisk/monitor'')"
  define yyyy where "yyyy = dec (fullYear now)"
  define mm where "mm = [48 + (month0 now + 1) div 10, 48 + (month0 now + 1) mod 10]"
  define dd where "dd = [48 + dayOfMonth now div 10, 48 + dayOfMonth now mod 10]"
  define name where
    "name = js ''conversation-'' @ safeCallerId callerIds channelId @ js ''-'' @ channelId
              @ js ''.txt''"
  have mm: "padStart2 (dec (month0 now + 1)) = mm"
    unfolding mm_def using assms(3) by (intro padStart2_dec) simp
  have dd: "padStart2 (dec (dayOfMonth now)) = dd"
    unfolding dd_def using assms(4) by (intro padStart2_dec) simp
  have ne: "root \<noteq> []" "yyyy \<noteq> []" "mm \<noteq> []" "dd \<noteq> []" "name \<noteq> []"
    by (simp_all add: root_def yyyy_def mm_def dd_def name_def js_Nil_iff dec_nonempty)
  have skip: "(txt = [] \<or> trim txt = []) \<longleftrightarrow> list_all js_ws txt"
    by (auto simp: trim_Nil_iff)
  have "transcriptPath recordingsDir now callerIds channelId
          = path_join [path_join [root, yyyy, mm, dd], name]"
    using mm dd
    by (simp only: transcriptPath_def ensureDailyDir_def Let_def root_def yyyy_def name_def)
  also have "\<dots> = path_normalize (root @ 47 # yyyy @ 47 # mm @ 47 # dd @ 47 # name)"
    using ne by (rule path_join_nested)
  finally have path: "transcriptPath recordingsDir now callerIds channelId
      = path_normalize (root @ js ''/'' @ yyyy @ js ''/'' @ mm @ js ''/'' @ dd @ js ''/'' @ name)"
    by (simp add: js_def)
  have plain: "path_normalize (root @ js ''/'' @ yyyy @ js ''/'' @ mm @ js ''/'' @ dd
                                 @ js ''/'' @ name)
               = root @ js ''/'' @ yyyy @ js ''/'' @ mm @ js ''/'' @ dd @ js ''/'' @ name"
    if dir: "recordingsDir = [] \<or> normal_dir recordingsDir" and ch: "47 \<notin> set channelId"
  proof -
    have r: "normal_dir root" using dir default_dir_normal by (auto simp: root_def)
    have y: "plain_segment yyyy"
      unfolding yyyy_def by (rule plain_digits [OF dec_digits dec_nonempty])
    have m: "plain_segment mm" unfolding mm_def by (rule plain_two_digits)
    have d: "plain_segment dd" unfolding dd_def by (rule plain_two_digits)
    have f: "plain_segment name"
      unfolding name_def by (rule plain_file_name [OF safeCallerId_no_slash ch])
    note r1 = normal_dir_extend(2) [OF r y]
    note r2 = normal_dir_extend(2) [OF r1 m]
    note r3 = normal_dir_extend(2) [OF r2 d]
    from normal_dir_extend(1) [OF r3 f] show ?thesis by (simp add: js_def)
  qed
  have line: "js [CHR 0x0A] = [10]" by (simp add: js_def)
  have who: "speaker_label who = js ''USER'' \<or> speaker_label who = js ''ASSISTANT''"
    by (cases who) simp_all
  have year: "length (dec (fullYear now)) = 4"
    using assms(1,2) by (rule dec_four)
  have first: "appendTranscript recordingsDir now stamp callerIds channelId who txt =
     (if list_all js_ws txt then None
      else Some (path_normalize (root @ js ''/'' @ yyyy @ js ''/'' @ mm @ js ''/'' @ dd
                                   @ js ''/'' @ name),
                 stamp @ js '' '' @ speaker_label who @ js '': '' @ txt @ js [CHR 0x0A]))"
    unfolding appendTranscript_def skip path line by simp
  show ?thesis
    using first plain who year safeCallerId_filter [of callerIds channelId]
    unfolding root_def yyyy_def mm_def dd_def name_def by simp
qed

lemma sample_dir_normal: "normal_dir (js ''/rec'')"
  by (simp add: normal_dir_def path_normalize_def normalizeString_def norm_segment_def
      Let_def js_def)

lemma sample_caller:
  "safeCallerId [js ''c1'' \<mapsto> CidString (js ''+48 123-456'')] (js ''c1'') = js ''+48123456''"
  by (simp add: safeCallerId_filter js_def digit_or_plus_def)

theorem appendTranscript_witness:
  "appendTranscript (js ''/rec'') \<lparr>fullYear = 2025, month0 = 0, dayOfMonth = 5\<rparr>
      (js ''2025-01-05T09:30:00.000Z'') [js ''c1'' \<mapsto> CidString (js ''+48 123-456'')]
      (js ''c1'') ASSISTANT (js ''Hello'')
   = Some (js ''/rec/2025/01/05/conversation-+48123456-c1.txt'',
           js ''2025-01-05T09:30:00.000Z ASSISTANT: Hello'' @ [10])"
proof -
  let ?now = "\<lparr>fullYear = 2025, month0 = 0, dayOfMonth = 5\<rparr>"
  have date: "1000 \<le> fullYear ?now" "fullYear ?now < 10000" "month0 ?now < 12"
    "dayOfMonth ?now \<le> 31"
    by simp_all
  have dir: "(js ''/rec'' = [] \<or> normal_dir (js ''/rec'')) \<and> 47 \<notin> set (js ''c1'')"
    using sample_dir_normal by (simp add: js_def)
  note at_sample =
    appendTranscript_line_and_file
      [of "?now" "js ''/rec''" "js ''2025-01-05T09:30:00.000Z''"
          "[js ''c1'' \<mapsto> CidString (js ''+48 123-456'')]" "js ''c1''" ASSISTANT
          "js ''Hello''", OF date]
  note written = at_sample [THEN conjunct1]
    and spelled = at_sample [THEN conjunct2, THEN conjunct1, rule_format, OF dir]
  show ?thesis
    unfolding written spelled
    by (simp add: sample_caller js_Nil_iff) (simp add: js_def js_ws_def dec.simps)
qed

text \<open>
  Where \<open>path.join\<close> normalises: a separator at the end of \<open>RECORDINGS_DIR\<close> is not
  doubled, and a call id with \<open>..\<close> in it is resolved.
\<close>

lemma appendTranscript_trailing_separator:
  "appendTranscript (js ''/rec/'') \<lparr>fullYear = 2025, month0 = 0, dayOfMonth = 5\<rparr>
      (js ''2025-01-05T09:30:00.000Z'') Map.empty (js ''c1'') USER (js ''Hi'')
   = Some (js ''/rec/2025/01/05/conversation-unknown-c1.txt'',
           js ''2025-01-05T09:30:00.000Z USER: Hi'' @ [10])"
  by (simp add: appendTranscript_def transcriptPath_def ensureDailyDir_def path_join_def
      path_normalize_def normalizeString_def norm_segment_def safeCallerId_def padStart2_def
      trim_def Let_def js_def js_ws_def dec.simps)

lemma appendTranscript_dotted_call_id:
  "appendTranscript (js ''/rec'') \<lparr>fullYear = 2025, month0 = 0, dayOfMonth = 5\<rparr>
      (js ''2025-01-05T09:30:00.000Z'') Map.empty (js ''a/../b'') USER (js ''Hi'')
   = Some (js ''/rec/2025/01/05/b.txt'', js ''2025-01-05T09:30:00.000Z USER: Hi'' @ [10])"
  by (simp add: appendTranscript_def transcriptPath_def ensureDailyDir_def path_join_def
      path_normalize_def normalizeString_def norm_segment_def safeCallerId_def padStart2_def
      trim_def Let_def js_def js_ws_def dec.simps)

lemma appendTranscript_skips_whitespace:
  "appendTranscript d now stamp ids ch who [160, 32, 10, 9] = None"
  by (simp add: appendTranscript_def trim_Nil_iff js_ws_def)

lemma safeCallerId_unknown:
  "safeCallerId [js ''c1'' \<mapsto> CidString (js ''anonymous'')] (js ''c1'') = js ''unknown''"
  by (simp add: safeCallerId_filter js_def digit_or_plus_def)

section \<open>The message pump\<close>

lemma processMessage_no_throw: "fst (processMessage env s response) = None"
  by (simp add: processMessage_def try_catch_def split: prod.splits option.splits)

lemma processMessage_catches:
  "processMessage env s response =
     (case processMessage_body env s response of
        (None, s') \<Rightarrow> (None, s')
      | (Some e, s') \<Rightarrow> (None, emit (ErrorLogged e) s'))"
  by (simp add: processMessage_def try_catch_def)

lemma mq_emit [simp]: "messageQueue (emit e s) = messageQueue s"
  by (simp add: emit_def)

lemma mq_sender_call [simp]: "messageQueue (snd (sender_call env e s)) = messageQueue s"
  by (simp add: sender_call_def)

lemma mq_finalize_begin [simp]: "messageQueue (finalize_begin s) = messageQueue s"
  by (simp add: finalize_begin_def)

lemma mq_on_item_created [simp]:
  "messageQueue (snd (on_item_created env s r)) = messageQueue s"
  by (simp add: on_item_created_def Let_def split: option.splits)

lemma mq_on_audio_delta [simp]:
  "messageQueue (snd (on_audio_delta env s r)) = messageQueue s"
  by (simp add: on_audio_delta_def Let_def split: option.splits sum.splits)

lemma mq_on_transcript_delta [simp]:
  "messageQueue (snd (on_transcript_delta s r)) = messageQueue s"
  by (simp add: on_transcript_delta_def split: option.splits jsv.splits)

lemma mq_on_transcript_done [simp]:
  "messageQueue (snd (on_transcript_done env s r)) = messageQueue s"
  by (simp add: on_transcript_done_def Let_def split: option.splits jsv.splits)

lemma mq_on_user_transcript [simp]:
  "messageQueue (snd (on_user_transcript s r)) = messageQueue s"
  by (simp add: on_user_transcript_def split: option.splits jsv.splits)

lemma mq_on_audio_done [simp]: "messageQueue (snd (on_audio_done s)) = messageQueue s"
  by (simp add: on_audio_done_def Let_def)

lemma mq_on_error [simp]: "messageQueue (snd (on_error s)) = messageQueue s"
  by (simp add: on_error_def Let_def)

lemma mq_body [simp]: "messageQueue (snd (processMessage_body env s r)) = messageQueue s"
  by (simp add: processMessage_body_def split: option.splits)

lemma mq_processMessage [simp]: "messageQueue (snd (processMessage env s r)) = messageQueue s"
proof (cases "processMessage_body env s r")
  case (Pair e s')
  with mq_body [of env s r] show ?thesis
    by (cases e) (simp_all add: processMessage_def try_catch_def)
qed

lemma mq_process_all: "messageQueue (process_all env ms s) = drop (length ms) (messageQueue s)"
  by (induction ms arbitrary: s) (simp_all add: drop_Suc)

lemma pump_loop_eq:
  "pump_loop env i s = (None, process_all env (take i (messageQueue s)) s)"
proof (induction i arbitrary: s)
  case 0
  show ?case by simp
next
  case (Suc i)
  show ?case
  proof (cases "messageQueue s")
    case Nil
    then show ?thesis by simp
  next
    case (Cons m ms)
    obtain e s' where r: "processMessage env (s\<lparr>messageQueue := ms\<rparr>) m = (e, s')"
      by (cases "processMessage env (s\<lparr>messageQueue := ms\<rparr>) m")
    have e: "e = None"
      using processMessage_no_throw [of env "s\<lparr>messageQueue := ms\<rparr>" m] r by simp
    have q: "messageQueue s' = ms"
      using mq_processMessage [of env "s\<lparr>messageQueue := ms\<rparr>" m] r by simp
    show ?thesis using Cons r e q Suc.IH [of s'] by simp
  qed
qed

lemma process_all_append:
  "process_all env (xs @ ys) s = process_all env ys (process_all env xs s)"
  by (induction xs arbitrary: s) simp_all

lemma pump_ticks_eq:
  "pump_ticks env k s = (None, process_all env (take (5 * k) (messageQueue s)) s)"
proof (induction k arbitrary: s)
  case 0
  show ?case by simp
next
  case (Suc k)
  let ?q = "messageQueue s"
  let ?s1 = "process_all env (take 5 ?q) s"
  have q1: "messageQueue ?s1 = drop 5 ?q"
    by (simp add: mq_process_all min_def drop_all)
  have split: "take (5 + 5 * k) ?q = take 5 ?q @ take (5 * k) (drop 5 ?q)"
    by (simp add: take_add)
  show ?case
    by (simp add: pump_tick_def pump_loop_eq Suc.IH q1 split process_all_append)
qed

text \<open>
  C10. \<open>processMessage\<close> returns normally for every value it is given: an exception of
  its body ends in the \<open>catch\<close>, which logs it. So the pump never stops early: \<open>k\<close> runs
  of the interval callback handle the first \<open>5k\<close> queued messages, one after the
  other in queue order, and leave the rest of the queue.
\<close>

theorem processMessage_contains_exceptions:
  "fst (processMessage env s response) = None
   \<and> processMessage env s response =
       (case processMessage_body env s response of
          (None, s') \<Rightarrow> (None, s')
        | (Some e, s') \<Rightarrow> (None, emit (ErrorLogged e) s'))
   \<and> pump_ticks env k s = (None, process_all env (take (5 * k) (messageQueue s)) s)
   \<and> messageQueue (snd (pump_ticks env k s)) = drop (5 * k) (messageQueue s)"
  using processMessage_no_throw [of env s response] processMessage_catches [of env s response]
  by (simp add: pump_ticks_eq mq_process_all min_def drop_all)

lemmas session_run_defs =
  processMessage_def processMessage_body_def ai_event_def js_eq_iff js_Nil_iff try_catch_def
  on_audio_delta_def on_audio_done_def on_item_created_def on_transcript_done_def
  on_user_transcript_def on_transcript_delta_def on_error_def finalize_begin_def
  sample_env_def open_session_def Let_def silenceBuffer_def silencePackets_def
  sender_call_def emit_def matched_phrase_def

text \<open>Bodies that throw: \<open>null\<close> as the message, a number as the audio delta.\<close>

lemma processMessage_body_null: "processMessage_body env s JNull = (Some TypeError, s)"
  by (simp add: processMessage_body_def)

lemma processMessage_body_bad_delta:
  "processMessage_body sample_env open_session
     (ai_event ''response.audio.delta'' [(js ''delta'', JNum (Fin 5))])
   = (Some TypeError, open_session)"
  by (simp add: session_run_defs)

text \<open>A queue of a malformed message, \<open>null\<close> and a user transcript: all three are
  handled by one run of the pump, and the transcript is appended.\<close>

lemma pump_survives_malformed:
  "out (snd (pump_tick sample_env
          (open_session\<lparr>messageQueue :=
             [ai_event ''response.audio.delta'' [(js ''delta'', JNum (Fin 5))],
              JNull,
              ai_event ''conversation.item.input_audio_transcription.completed''
                [(js ''transcript'', JStr (js ''hello''))]]\<rparr>)))
   = [ErrorLogged TypeError, ErrorLogged TypeError, AppendTranscriptCall USER (js ''hello'')]"
  by (simp add: pump_tick_def numeral_eq_Suc session_run_defs)

section \<open>Barge-in\<close>






section \<open>Audio deltas and the silence prefix\<close>

lemma body_audio_delta:
  "prop_of response (js ''type'') = Some (JStr (js ''response.audio.delta''))
   \<Longrightarrow> processMessage_body env s response = on_audio_delta env s response"
  by (simp add: processMessage_body_def js_eq_iff)

lemma body_audio_done:
  "prop_of response (js ''type'') = Some (JStr (js ''response.audio.done''))
   \<Longrightarrow> processMessage_body env s response = on_audio_done s"
  by (simp add: processMessage_body_def js_eq_iff)

lemma silenceBuffer_default:
  "SILENCE_PADDING_MS env = 100 \<or> SILENCE_PADDING_MS env = 0
   \<Longrightarrow> silenceBuffer env = Inr (replicate (5 * 160) 0x7F)"
  by (auto simp: silenceBuffer_def silencePackets_def Let_def)

text \<open>An empty delta and a delta of silence bytes only are skipped.\<close>

lemma audio_delta_skipped:
  assumes "prop_of response (js ''delta'') = Some delta"
    and "bufferFrom env delta = Inr deltaBuffer"
    and "deltaBuffer = [] \<or> list_all (\<lambda>byte. byte = 0x7F) deltaBuffer"
  shows "on_audio_delta env s response = (None, s)"
  using assms by (auto simp: on_audio_delta_def)

text \<open>The first delta the session pushes is prefixed with the silence.\<close>

lemma audio_delta_first_of_session:
  assumes "prop_of response (js ''delta'') = Some delta" and "truthy delta"
    and "bufferFrom env delta = Inr deltaBuffer"
    and "deltaBuffer \<noteq> []" and "\<not> list_all (\<lambda>byte. byte = 0x7F) deltaBuffer"
    and "totalDeltaBytes s = 0" and "streamHandler s"
    and "SILENCE_PADDING_MS env = 100 \<or> SILENCE_PADDING_MS env = 0"
  shows "out (snd (on_audio_delta env s response)) =
           out s @ [SendRtpPacket (replicate (5 * 160) 0x7F @ deltaBuffer)]"
  using assms(1-7) silenceBuffer_default [OF assms(8)]
  by (simp add: on_audio_delta_def Let_def sender_call_def emit_def)

text \<open>Once a delta has been counted, every later delta is pushed as it is.\<close>

lemma audio_delta_later:
  assumes "prop_of response (js ''delta'') = Some delta" and "truthy delta"
    and "bufferFrom env delta = Inr deltaBuffer"
    and "deltaBuffer \<noteq> []" and "\<not> list_all (\<lambda>byte. byte = 0x7F) deltaBuffer"
    and "0 < totalDeltaBytes s" and "streamHandler s"
  shows "out (snd (on_audio_delta env s response)) = out s @ [SendRtpPacket deltaBuffer]"
  using assms by (simp add: on_audio_delta_def Let_def sender_call_def emit_def)

text \<open>\<open>response.audio.done\<close> resets the other counters and keeps the byte total.\<close>

lemma audio_done_keeps_total:
  "totalDeltaBytes (snd (on_audio_done s)) = totalDeltaBytes s
   \<and> loggedDeltaBytes (snd (on_audio_done s)) = 0
   \<and> segmentCount (snd (on_audio_done s)) = 0"
  by (simp add: on_audio_done_def Let_def finalize_begin_def emit_def)

text \<open>
  C5 at two responses. The first response has the delta \<open>AB\<close>, the second the delta
  \<open>CD\<close>. The sender is given the silence and \<open>AB\<close>, then \<open>CD\<close> with no silence
  before it.
\<close>

theorem second_response_first_delta_unpadded:
  "out (process_all sample_env
          [ai_event ''response.created'' [],
           ai_event ''response.audio.delta'' [(js ''delta'', JStr (js ''AB''))],
           ai_event ''response.audio.done'' [],
           ai_event ''response.created'' [],
           ai_event ''response.audio.delta'' [(js ''delta'', JStr (js ''CD''))]]
          open_session)
   = [SendRtpPacket (replicate 800 0x7F @ [0x41, 0x42]), SendRtpPacket [0x43, 0x44]]"
  by (simp add: session_run_defs js_def)

section \<open>Cleanup steps\<close>

lemmas step_defs =
  swallow_def try_catch_def attempt_def setTimeout_def clearTimeout_def
  close_receiver_def close_sender_def ignore_ext_def guarded_attempt_def Let_def

lemma cleanup_step_no_throw: "fst (cleanup_step env i r st c) = None"
  by (cases st) (simp_all add: step_defs split: option.splits)

lemma cleanup_step_frame [simp]:
  "cleanedChannels (snd (cleanup_step env i r st c)) = cleanedChannels c"
  "cleanupPromises (snd (cleanup_step env i r st c)) = cleanupPromises c"
  "ariClient (snd (cleanup_step env i r st c)) = ariClient c"
  "listeners (snd (cleanup_step env i r st c)) = listeners c"
  "resolved (snd (cleanup_step env i r st c)) = resolved c"
  by (cases st; simp add: step_defs split: option.splits)+

lemma cleanup_step_sipMap [simp]:
  "st \<noteq> RemoveSipStep \<Longrightarrow> sipMap (snd (cleanup_step env i r st c)) = sipMap c"
  by (cases st) (simp_all add: step_defs split: option.splits)

lemma cleanup_step_data_of [simp]:
  "st \<noteq> RemoveSipStep \<Longrightarrow> data_of (snd (cleanup_step env i r st c)) j = data_of c j"
  by (simp add: data_of_def)

lemma cleanup_step_extMap [simp]:
  "st \<noteq> PurgeExtMapStep \<Longrightarrow> extMap (snd (cleanup_step env i r st c)) = extMap c"
  by (cases st) (simp_all add: step_defs split: option.splits)

lemma cleanup_step_rtpReceivers [simp]:
  "st \<noteq> RxCloseStep \<Longrightarrow> rtpReceivers (snd (cleanup_step env i r st c)) = rtpReceivers c"
  by (cases st) (simp_all add: step_defs split: option.splits)

lemma cleanup_step_rtpSenders [simp]:
  "st \<noteq> TxCloseStep \<Longrightarrow> rtpSenders (snd (cleanup_step env i r st c)) = rtpSenders c"
  by (cases st) (simp_all add: step_defs split: option.splits)

lemma cleanup_step_trace:
  "trace (snd (cleanup_step env i r st c)) = trace c @ step_actions env i r st c"
  by (cases st) (simp_all add: step_defs split: option.splits)

lemma cleanup_step_promises_commute:
  "cleanup_step env i r st (c\<lparr>cleanupPromises := p\<rparr>) =
     (fst (cleanup_step env i r st c), (snd (cleanup_step env i r st c))\<lparr>cleanupPromises := p\<rparr>)"
  by (cases st) (simp_all add: step_defs data_of_def split: option.splits)

lemma run_steps_Nil [simp]: "run_steps env i r [] c = c"
  by (simp add: run_steps_def)

lemma run_steps_Cons [simp]:
  "run_steps env i r (st # sts) c = run_steps env i r sts (snd (cleanup_step env i r st c))"
  by (simp add: run_steps_def)

lemma run_steps_promises_commute:
  "run_steps env i r sts (c\<lparr>cleanupPromises := p\<rparr>) = (run_steps env i r sts c)\<lparr>cleanupPromises := p\<rparr>"
  by (induction sts arbitrary: c) (simp_all add: cleanup_step_promises_commute)

lemma cleanup_resume_step:
  assumes "cleanupPromises c i = Some (Running r (st # sts) aw)"
  shows "cleanup_resume env i c =
           (snd (cleanup_step env i r st c))
             \<lparr>cleanupPromises :=
                (cleanupPromises c)(i \<mapsto> Running r sts (aw \<or> step_awaits i st env c))\<rparr>"
proof -
  obtain e c1 where st: "cleanup_step env i r st c = (e, c1)"
    by (cases "cleanup_step env i r st c")
  have e: "e = None" using cleanup_step_no_throw [of env i r st c] st by simp
  have p: "cleanupPromises c1 = cleanupPromises c"
    using cleanup_step_frame(2) [of env i r st c] st by simp
  show ?thesis using assms st e p by (simp add: cleanup_resume_def)
qed

lemma cleanup_resume_steps:
  "\<exists>aw'. (cleanup_resume env i ^^ length sts) (c\<lparr>cleanupPromises := p(i \<mapsto> Running r sts aw)\<rparr>)
         = (run_steps env i r sts c)\<lparr>cleanupPromises := p(i \<mapsto> Running r [] aw')\<rparr>"
proof (induction sts arbitrary: c aw)
  case Nil
  show ?case by (rule exI [of _ aw]) simp
next
  case (Cons st sts)
  let ?c0 = "c\<lparr>cleanupPromises := p(i \<mapsto> Running r (st # sts) aw)\<rparr>"
  let ?aw1 = "aw \<or> step_awaits i st env ?c0"
  have one: "cleanup_resume env i ?c0 =
      (snd (cleanup_step env i r st c))\<lparr>cleanupPromises := p(i \<mapsto> Running r sts ?aw1)\<rparr>"
    by (subst cleanup_resume_step [where c = ?c0 and r = r and st = st and sts = sts and aw = aw])
       (simp_all add: cleanup_step_promises_commute)
  obtain aw' where rest:
    "(cleanup_resume env i ^^ length sts)
       ((snd (cleanup_step env i r st c))\<lparr>cleanupPromises := p(i \<mapsto> Running r sts ?aw1)\<rparr>)
     = (run_steps env i r sts (snd (cleanup_step env i r st c)))
         \<lparr>cleanupPromises := p(i \<mapsto> Running r [] aw')\<rparr>"
    using Cons.IH [where c = "snd (cleanup_step env i r st c)" and aw = ?aw1] by blast
  have "(cleanup_resume env i ^^ length (st # sts)) ?c0
        = (cleanup_resume env i ^^ length sts) (cleanup_resume env i ?c0)"
    by (simp only: list.size funpow_Suc_right o_apply add_Suc_right add_0_right One_nat_def)
  also have "\<dots> = (run_steps env i r (st # sts) c)
                      \<lparr>cleanupPromises := p(i \<mapsto> Running r [] aw')\<rparr>"
    unfolding one rest run_steps_Cons ..
  finally show ?case by (rule exI [of _ aw'])
qed

lemma cleanup_resume_finally:
  "cleanup_resume env i (c\<lparr>cleanupPromises := p(i \<mapsto> Running r [] aw)\<rparr>)
   = c\<lparr>cleanupPromises := p(i := if aw then None else Some Settled)\<rparr>"
  by (simp add: cleanup_resume_def)

lemma cleanup_call_fresh:
  assumes "i \<notin> cleanedChannels c" and "cleanupPromises c i = None"
    and "\<not> d_cleaned (data_of c i)"
  shows "cleanup_call env i r c =
           (cleanup_mark i (c\<lparr>trace := trace c @ [CleanupStarted i r]\<rparr>))
             \<lparr>cleanupPromises := (cleanupPromises c)(i \<mapsto> Running r cleanup_steps False)\<rparr>"
  using assms by (simp add: cleanup_call_def Let_def data_of_def)

text \<open>A cleanup that starts runs every step of its \<open>try\<close> block, then settles.\<close>

lemma cleanupChannel_fresh:
  assumes "i \<notin> cleanedChannels c" and "cleanupPromises c i = None"
    and "\<not> d_cleaned (data_of c i)"
  shows "\<exists>p. (p = None \<or> p = Some Settled) \<and>
           cleanupChannel env i r c =
             (run_steps env i r cleanup_steps
                (cleanup_mark i (c\<lparr>trace := trace c @ [CleanupStarted i r]\<rparr>)))
               \<lparr>cleanupPromises := (cleanupPromises c)(i := p)\<rparr>"
proof -
  let ?m = "cleanup_mark i (c\<lparr>trace := trace c @ [CleanupStarted i r]\<rparr>)"
  obtain aw' where steps:
    "(cleanup_resume env i ^^ length cleanup_steps)
        (?m\<lparr>cleanupPromises := (cleanupPromises c)(i \<mapsto> Running r cleanup_steps False)\<rparr>)
     = (run_steps env i r cleanup_steps ?m)
         \<lparr>cleanupPromises := (cleanupPromises c)(i \<mapsto> Running r [] aw')\<rparr>"
    using cleanup_resume_steps
      [where env = env and i = i and sts = cleanup_steps and c = ?m and p = "cleanupPromises c"
         and r = r and aw = False]
    by blast
  have "cleanupChannel env i r c =
      (run_steps env i r cleanup_steps ?m)
        \<lparr>cleanupPromises := (cleanupPromises c)(i := if aw' then None else Some Settled)\<rparr>"
    unfolding cleanupChannel_def cleanup_call_fresh [OF assms] funpow.simps o_apply steps
    using cleanup_resume_finally
      [where env = env and i = i and c = "run_steps env i r cleanup_steps ?m"
         and p = "cleanupPromises c" and r = r and aw = aw']
    by simp
  then show ?thesis by (intro exI [of _ "if aw' then None else Some Settled"]) simp
qed

lemma data_of_sipMap_set [simp]:
  "data_of (sipMap_set i d c) j = (if j = i then d else data_of c j)"
  by (simp add: data_of_def sipMap_set_def update_conv')

lemma sipMap_set_frame [simp]:
  "trace (sipMap_set i d c) = trace c"
  "ariClient (sipMap_set i d c) = ariClient c"
  "extMap (sipMap_set i d c) = extMap c"
  "rtpReceivers (sipMap_set i d c) = rtpReceivers c"
  "rtpSenders (sipMap_set i d c) = rtpSenders c"
  "cleanedChannels (sipMap_set i d c) = cleanedChannels c"
  "cleanupPromises (sipMap_set i d c) = cleanupPromises c"
  "ignoreExtEvents (sipMap_set i d c) = ignoreExtEvents c"
  "timers (sipMap_set i d c) = timers c"
  "nextTimer (sipMap_set i d c) = nextTimer c"
  "listeners (sipMap_set i d c) = listeners c"
  "resolved (sipMap_set i d c) = resolved c"
  by (simp_all add: sipMap_set_def)

lemma data_of_update_other [simp]:
  "data_of (c\<lparr>trace := t\<rparr>) = data_of c"
  "data_of (c\<lparr>cleanedChannels := s\<rparr>) = data_of c"
  "data_of (c\<lparr>cleanupPromises := p\<rparr>) = data_of c"
  "data_of (c\<lparr>timers := ts\<rparr>) = data_of c"
  "data_of (c\<lparr>nextTimer := n\<rparr>) = data_of c"
  "data_of (c\<lparr>listeners := ls\<rparr>) = data_of c"
  "data_of (c\<lparr>resolved := rs\<rparr>) = data_of c"
  "data_of (c\<lparr>ignoreExtEvents := ig\<rparr>) = data_of c"
  "data_of (c\<lparr>extMap := em\<rparr>) = data_of c"
  "data_of (c\<lparr>rtpReceivers := rx\<rparr>) = data_of c"
  "data_of (c\<lparr>rtpSenders := tx\<rparr>) = data_of c"
  by (simp_all add: data_of_def fun_eq_iff)

lemma data_of_clearTimeout [simp]: "data_of (clearTimeout h c) = data_of c"
  by (simp add: clearTimeout_def)

lemma clearTimeout_frame [simp]:
  "trace (clearTimeout h c) = trace c"
  "ariClient (clearTimeout h c) = ariClient c"
  "extMap (clearTimeout h c) = extMap c"
  "rtpReceivers (clearTimeout h c) = rtpReceivers c"
  "rtpSenders (clearTimeout h c) = rtpSenders c"
  "cleanedChannels (clearTimeout h c) = cleanedChannels c"
  "cleanupPromises (clearTimeout h c) = cleanupPromises c"
  "ignoreExtEvents (clearTimeout h c) = ignoreExtEvents c"
  "sipMap (clearTimeout h c) = sipMap c"
  "nextTimer (clearTimeout h c) = nextTimer c"
  "listeners (clearTimeout h c) = listeners c"
  "resolved (clearTimeout h c) = resolved c"
  by (simp_all add: clearTimeout_def)

lemma cleanup_mark_data:
  "data_of (cleanup_mark i c) i = (data_of c i)\<lparr>d_cleaned := True, d_cleanupTimer := None\<rparr>"
  by (simp add: cleanup_mark_def Let_def split: option.splits)

lemma cleanup_mark_frame [simp]:
  "trace (cleanup_mark i c) = trace c"
  "ariClient (cleanup_mark i c) = ariClient c"
  "extMap (cleanup_mark i c) = extMap c"
  "rtpReceivers (cleanup_mark i c) = rtpReceivers c"
  "rtpSenders (cleanup_mark i c) = rtpSenders c"
  "cleanedChannels (cleanup_mark i c) = insert i (cleanedChannels c)"
  "cleanupPromises (cleanup_mark i c) = cleanupPromises c"
  "ignoreExtEvents (cleanup_mark i c) = ignoreExtEvents c"
  "listeners (cleanup_mark i c) = listeners c"
  "resolved (cleanup_mark i c) = resolved c"
  by (simp_all add: cleanup_mark_def Let_def split: option.splits)

lemma step_actions_mark:
  "step_actions env i r st (cleanup_mark i c) = step_actions env i r st c"
  by (cases st) (simp_all add: cleanup_mark_data callerIdForMail_def split: option.splits)

lemma step_actions_trace_update [simp]:
  "step_actions env i r st (c\<lparr>trace := t\<rparr>) = step_actions env i r st c"
  by (cases st) (simp_all split: option.splits)

lemma step_RemoveSip_sipMap:
  "sipMap (snd (cleanup_step env i r RemoveSipStep c)) = AList.delete i (sipMap c)"
  by simp

lemma step_Purge_extMap:
  "extMap (snd (cleanup_step env i r PurgeExtMapStep c)) =
     ((case d_externalChannelId (data_of c i) of
         None \<Rightarrow> extMap c
       | Some ext \<Rightarrow> if ext \<noteq> [] then (extMap c)(ext := None) else extMap c))(i := None)"
  by (simp add: Let_def)

lemma close_receiver_closed:
  "rtpReceivers (snd (cleanup_step env i r RxCloseStep c)) i \<noteq> Some True"
  by (simp add: step_defs)

lemma close_sender_closed:
  "rtpSenders (snd (cleanup_step env i r TxCloseStep c)) i \<noteq> Some True"
  by (simp add: step_defs)

declare cleanup_step.simps [simp del]
declare step_actions.simps [simp del]

lemma step_actions_frame [simp]:
  "st' \<noteq> RemoveSipStep \<Longrightarrow> st' \<noteq> RxCloseStep \<Longrightarrow> st' \<noteq> TxCloseStep \<Longrightarrow>
   step_actions env i r st (snd (cleanup_step env i r st' c)) = step_actions env i r st c"
  by (cases st) (simp_all add: step_actions.simps split: option.splits)

lemma step_actions_frame_rx [simp]:
  "st \<noteq> RxCloseStep \<Longrightarrow>
   step_actions env i r st (snd (cleanup_step env i r RxCloseStep c)) = step_actions env i r st c"
  by (cases st) (simp_all add: step_actions.simps split: option.splits)

lemma step_actions_frame_tx [simp]:
  "st \<noteq> TxCloseStep \<Longrightarrow>
   step_actions env i r st (snd (cleanup_step env i r TxCloseStep c)) = step_actions env i r st c"
  by (cases st) (simp_all add: step_actions.simps split: option.splits)

lemma run_steps_trace:
  "trace (run_steps env i r cleanup_steps c) =
     trace c @ concat (map (\<lambda>st. step_actions env i r st c) cleanup_steps)"
  by (simp add: cleanup_steps_def cleanup_step_trace)

lemma run_steps_sipMap:
  "map_of (sipMap (run_steps env i r cleanup_steps c)) i = None"
  by (simp add: cleanup_steps_def step_RemoveSip_sipMap delete_conv')

lemma run_steps_cleaned:
  "cleanedChannels (run_steps env i r cleanup_steps c) = cleanedChannels c"
  by (simp add: cleanup_steps_def)

lemma run_steps_extMap:
  "extMap (run_steps env i r cleanup_steps c) =
     ((case d_externalChannelId (data_of c i) of
         None \<Rightarrow> extMap c
       | Some ext \<Rightarrow> if ext \<noteq> [] then (extMap c)(ext := None) else extMap c))(i := None)"
  by (simp add: cleanup_steps_def step_Purge_extMap split: option.splits)

lemma run_steps_sockets:
  "rtpReceivers (run_steps env i r cleanup_steps c) i \<noteq> Some True
   \<and> rtpSenders (run_steps env i r cleanup_steps c) i \<noteq> Some True"
  by (simp add: cleanup_steps_def close_receiver_closed close_sender_closed)

lemma step_actions_fails [simp]:
  "step_actions (env\<lparr>fails := f\<rparr>) i r st c = step_actions env i r st c"
  by (cases st) (simp_all add: step_actions.simps)

text \<open>
  C7. A cleanup that starts attempts every operation whose guard holds, in the order
  of the code, whatever fails: the trace is the same as when nothing fails. At its
  end the port has been handed back, the call has left \<open>sipMap\<close> and \<open>extMap\<close> (under
  both keys), no socket of the call is left open, the call is in \<open>cleanedChannels\<close>
  and the promise has settled.
\<close>

theorem cleanup_steps_survive_failures:
  assumes "ident \<notin> cleanedChannels c" and "cleanupPromises c ident = None"
    and "\<not> d_cleaned (data_of c ident)"
  shows "trace (cleanupChannel env ident r c) =
           trace c @ CleanupStarted ident r
             # concat (map (\<lambda>st. step_actions env ident r st c) cleanup_steps)
    \<and> trace (cleanupChannel env ident r c)
        = trace (cleanupChannel (env\<lparr>fails := (\<lambda>a. False)\<rparr>) ident r c)
    \<and> (case d_rtpPort (data_of c ident) of
          None \<Rightarrow> True
        | Some p \<Rightarrow> ReleaseRtpPort p \<in> set (trace (cleanupChannel env ident r c)))
    \<and> map_of (sipMap (cleanupChannel env ident r c)) ident = None
    \<and> extMap (cleanupChannel env ident r c) ident = None
    \<and> (case d_externalChannelId (data_of c ident) of
          None \<Rightarrow> True
        | Some ext \<Rightarrow> ext = [] \<or> extMap (cleanupChannel env ident r c) ext = None)
    \<and> rtpReceivers (cleanupChannel env ident r c) ident \<noteq> Some True
    \<and> rtpSenders (cleanupChannel env ident r c) ident \<noteq> Some True
    \<and> ident \<in> cleanedChannels (cleanupChannel env ident r c)
    \<and> (cleanupPromises (cleanupChannel env ident r c) ident = None
        \<or> cleanupPromises (cleanupChannel env ident r c) ident = Some Settled)"
proof -
  let ?m = "cleanup_mark ident (c\<lparr>trace := trace c @ [CleanupStarted ident r]\<rparr>)"
  have tr: "trace (cleanupChannel env' ident r c) =
              trace c @ CleanupStarted ident r
                # concat (map (\<lambda>st. step_actions env ident r st c) cleanup_steps)"
    if "env' = env \<or> env' = env\<lparr>fails := (\<lambda>a. False)\<rparr>" for env'
  proof -
    obtain p where
      "cleanupChannel env' ident r c =
         (run_steps env' ident r cleanup_steps ?m)\<lparr>cleanupPromises := (cleanupPromises c)(ident := p)\<rparr>"
      using cleanupChannel_fresh [OF assms, of env' r] by blast
    then have "trace (cleanupChannel env' ident r c) =
        trace c @ CleanupStarted ident r
          # concat (map (\<lambda>st. step_actions env' ident r st c) cleanup_steps)"
      by (simp add: run_steps_trace step_actions_mark)
    with that show ?thesis by auto
  qed
  obtain p where p: "p = None \<or> p = Some Settled"
    and run: "cleanupChannel env ident r c =
         (run_steps env ident r cleanup_steps ?m)\<lparr>cleanupPromises := (cleanupPromises c)(ident := p)\<rparr>"
    using cleanupChannel_fresh [OF assms, of env r] by blast
  have data: "data_of ?m ident = (data_of c ident)\<lparr>d_cleaned := True, d_cleanupTimer := None\<rparr>"
    by (simp add: cleanup_mark_data)
  have port: "(case d_rtpPort (data_of c ident) of
          None \<Rightarrow> True
        | Some p \<Rightarrow> ReleaseRtpPort p \<in> set (trace (cleanupChannel env ident r c)))"
    unfolding tr [of env, simplified]
    by (simp add: cleanup_steps_def step_actions.simps split: option.splits)
  have ext: "(case d_externalChannelId (data_of c ident) of
          None \<Rightarrow> True
        | Some ext \<Rightarrow> ext = [] \<or> extMap (cleanupChannel env ident r c) ext = None)"
    unfolding run by (simp add: run_steps_extMap data split: option.splits)
  have sockets: "rtpReceivers (cleanupChannel env ident r c) ident \<noteq> Some True
     \<and> rtpSenders (cleanupChannel env ident r c) ident \<noteq> Some True"
    unfolding run using run_steps_sockets [of env ident r ?m] by simp
  have rest: "map_of (sipMap (cleanupChannel env ident r c)) ident = None
     \<and> extMap (cleanupChannel env ident r c) ident = None
     \<and> ident \<in> cleanedChannels (cleanupChannel env ident r c)
     \<and> (cleanupPromises (cleanupChannel env ident r c) ident = None
        \<or> cleanupPromises (cleanupChannel env ident r c) ident = Some Settled)"
    unfolding run using p
    by (simp add: run_steps_sipMap run_steps_extMap run_steps_cleaned)
  show ?thesis
    using tr [of env] tr [of "env\<lparr>fails := (\<lambda>a. False)\<rparr>"] port ext sockets rest by simp
qed

lemmas sample_core_defs =
  sample_core_def sample_call_def sample_core_env_def env_ms_def data_of_def
  callerIdForMail_def js_eq_iff js_Nil_iff

theorem cleanup_steps_survive_failures_witness:
  "trace (cleanupChannel (sample_core_env True) (js ''sip-1'') Manual sample_core) =
     [CleanupStarted (js ''sip-1'') Manual, StreamEnd (js ''sip-1''), WsClose (js ''sip-1''),
      HangupChannel (js ''ext-1''), DestroyBridge (js ''sip-1_bridge''),
      HangupChannel (js ''sip-1''), CloseReceiver (js ''sip-1''), CloseSender (js ''sip-1''),
      ReleaseRtpPort 12000,
      SendTranscriptEmail (js ''sip-1'') (js ''+48123456'') Manual]
   \<and> map_of (sipMap (cleanupChannel (sample_core_env True) (js ''sip-1'') Manual sample_core))
        (js ''sip-1'') = None
   \<and> extMap (cleanupChannel (sample_core_env True) (js ''sip-1'') Manual sample_core)
        (js ''ext-1'') = None"
  using cleanup_steps_survive_failures
    [of "js ''sip-1''" sample_core "sample_core_env True" Manual]
  by (simp add: sample_core_defs cleanup_steps_def step_actions.simps)

section \<open>Queue handoff\<close>

lemma guarded_attempt_trace [simp]:
  "trace (guarded_attempt b env a c) = trace c @ (if b then [a] else [])"
  by (simp add: step_defs)

lemma guarded_attempt_frame [simp]:
  "sipMap (guarded_attempt b env a c) = sipMap c"
  "ariClient (guarded_attempt b env a c) = ariClient c"
  "rtpReceivers (guarded_attempt b env a c) = rtpReceivers c"
  "rtpSenders (guarded_attempt b env a c) = rtpSenders c"
  "cleanedChannels (guarded_attempt b env a c) = cleanedChannels c"
  "cleanupPromises (guarded_attempt b env a c) = cleanupPromises c"
  "data_of (guarded_attempt b env a c) = data_of c"
  by (simp_all add: step_defs)

lemma ignore_ext_frame [simp]:
  "trace (ignore_ext ext c) = trace c"
  "sipMap (ignore_ext ext c) = sipMap c"
  "ariClient (ignore_ext ext c) = ariClient c"
  "rtpReceivers (ignore_ext ext c) = rtpReceivers c"
  "rtpSenders (ignore_ext ext c) = rtpSenders c"
  "cleanedChannels (ignore_ext ext c) = cleanedChannels c"
  "cleanupPromises (ignore_ext ext c) = cleanupPromises c"
  "data_of (ignore_ext ext c) = data_of c"
  "ignoreExtEvents (ignore_ext ext c) = insert ext (ignoreExtEvents c)"
  by (simp_all add: step_defs)

lemma close_receiver_trace [simp]:
  "trace (snd (close_receiver env i c)) =
     trace c @ (if rtpReceivers c i = Some True then [CloseReceiver i] else [])"
  by (simp add: step_defs)

lemma close_sender_trace [simp]:
  "trace (snd (close_sender env i c)) =
     trace c @ (if rtpSenders c i = Some True then [CloseSender i] else [])"
  by (simp add: step_defs)

lemma close_receiver_frame [simp]:
  "sipMap (snd (close_receiver env i c)) = sipMap c"
  "ariClient (snd (close_receiver env i c)) = ariClient c"
  "rtpSenders (snd (close_receiver env i c)) = rtpSenders c"
  "cleanedChannels (snd (close_receiver env i c)) = cleanedChannels c"
  "cleanupPromises (snd (close_receiver env i c)) = cleanupPromises c"
  "data_of (snd (close_receiver env i c)) = data_of c"
  by (simp_all add: step_defs)

lemma close_sender_frame [simp]:
  "sipMap (snd (close_sender env i c)) = sipMap c"
  "ariClient (snd (close_sender env i c)) = ariClient c"
  "rtpReceivers (snd (close_sender env i c)) = rtpReceivers c"
  "cleanedChannels (snd (close_sender env i c)) = cleanedChannels c"
  "cleanupPromises (snd (close_sender env i c)) = cleanupPromises c"
  "data_of (snd (close_sender env i c)) = data_of c"
  by (simp_all add: step_defs)

text \<open>The loop over the contexts: what it attempts and when it succeeds.\<close>

lemma try_contexts_result:
  "fst (try_contexts env sip q ctxs c) \<longleftrightarrow>
     ariClient c \<and> (\<exists>ctx\<in>set ctxs. \<not> fails env (ContinueInDialplan sip ctx q))"
  "ariClient (snd (try_contexts env sip q ctxs c)) = ariClient c"
  "sipMap (snd (try_contexts env sip q ctxs c)) = sipMap c"
  "cleanedChannels (snd (try_contexts env sip q ctxs c)) = cleanedChannels c"
  "cleanupPromises (snd (try_contexts env sip q ctxs c)) = cleanupPromises c"
  by (induction ctxs arbitrary: c; auto simp: attempt_def)+

lemma try_contexts_trace:
  "\<exists>new. trace (snd (try_contexts env sip q ctxs c)) = trace c @ new \<and> list_all is_continue new"
proof (induction ctxs arbitrary: c)
  case Nil
  show ?case by simp
next
  case (Cons ctx ctxs)
  show ?case
  proof (cases "ariClient c \<and> fails env (ContinueInDialplan sip ctx q)")
    case True
    let ?c1 = "c\<lparr>trace := trace c @ [ContinueInDialplan sip ctx q]\<rparr>"
    obtain new where "trace (snd (try_contexts env sip q ctxs ?c1)) = trace ?c1 @ new"
      and "list_all is_continue new"
      using Cons.IH [of ?c1] by blast
    with True show ?thesis
      by (intro exI [of _ "ContinueInDialplan sip ctx q # new"]) (simp add: attempt_def)
  next
    case False
    show ?thesis
    proof (cases "ariClient c")
      case True
      with False show ?thesis
        by (intro exI [of _ "[ContinueInDialplan sip ctx q]"]) (simp add: attempt_def)
    next
      case False
      with Cons.IH [of c] show ?thesis by simp
    qed
  qed
qed


lemma redirectToQueue_runs:
  assumes "map_of (sipMap c) sip = Some d" and "\<not> d_redirecting d"
    and "trim (REDIRECTION_QUEUE env) \<noteq> []"
  shows "\<exists>conts. list_all is_continue conts
     \<and> trace (redirectToQueue env sip c) =
          trace c @ handoff_actions c sip d @ conts
            @ (if ariClient c
                  \<and> (\<forall>ctx\<in>set (tryContexts env).
                        fails env (ContinueInDialplan sip ctx (trim (REDIRECTION_QUEUE env))))
               then [HangupChannel sip] else [])
     \<and> data_of (redirectToQueue env sip c) sip = d\<lparr>d_redirecting := True\<rparr>
     \<and> cleanedChannels (redirectToQueue env sip c) = cleanedChannels c
     \<and> cleanupPromises (redirectToQueue env sip c) = cleanupPromises c"
proof -
  let ?q = "trim (REDIRECTION_QUEUE env)"
  define c3 where "c3 =
     guarded_attempt (\<not> d_wsClosed d \<and> d_ws d) env (WsClose sip)
       (guarded_attempt (d_streamHandler d \<noteq> None) env (StreamEnd sip)
          (sipMap_set sip (d\<lparr>d_redirecting := True\<rparr>) c))"
  define c4 where "c4 =
     (case d_externalChannelId d of
        None \<Rightarrow> c3
      | Some ext \<Rightarrow>
          if ext \<noteq> [] \<and> ariClient c3
          then
            let hung = guarded_attempt True env (HangupChannel ext) c3
            in if fails env (HangupChannel ext) \<and> throwsAtCall env (HangupChannel ext)
               then hung else ignore_ext ext hung
          else c3)"
  define c5 where "c5 =
     (case d_bridge d of
        None \<Rightarrow> c4
      | Some bid \<Rightarrow> guarded_attempt (bid \<noteq> [] \<and> ariClient c4) env (DestroyBridge bid) c4)"
  define c7 where "c7 = snd (close_sender env sip (snd (close_receiver env sip c5)))"
  define c8 where "c8 =
     (case d_rtpPort d of
        None \<Rightarrow> c7
      | Some p \<Rightarrow> guarded_attempt True env (ReleaseRtpPort p) c7)"
  have unfolded: "redirectToQueue env sip c =
     (if fst (try_contexts env sip ?q (tryContexts env) c8)
      then snd (try_contexts env sip ?q (tryContexts env) c8)
      else guarded_attempt (ariClient (snd (try_contexts env sip ?q (tryContexts env) c8))) env
             (HangupChannel sip) (snd (try_contexts env sip ?q (tryContexts env) c8)))"
    using assms
    by (simp only: redirectToQueue_def Let_def c8_def c7_def c5_def c4_def c3_def
          option.case if_False if_True simp_thms)
  have f3: "trace c3 = trace c @ (if d_streamHandler d \<noteq> None then [StreamEnd sip] else [])
                @ (if \<not> d_wsClosed d \<and> d_ws d then [WsClose sip] else [])"
    "ariClient c3 = ariClient c" "rtpReceivers c3 = rtpReceivers c" "rtpSenders c3 = rtpSenders c"
    "data_of c3 sip = d\<lparr>d_redirecting := True\<rparr>" "cleanedChannels c3 = cleanedChannels c"
    "cleanupPromises c3 = cleanupPromises c"
    by (simp_all add: c3_def)
  have f4: "trace c4 = trace c3 @ (case d_externalChannelId d of
          None \<Rightarrow> []
        | Some ext \<Rightarrow> if ext \<noteq> [] \<and> ariClient c then [HangupChannel ext] else [])"
    "ariClient c4 = ariClient c" "rtpReceivers c4 = rtpReceivers c" "rtpSenders c4 = rtpSenders c"
    "data_of c4 sip = d\<lparr>d_redirecting := True\<rparr>" "cleanedChannels c4 = cleanedChannels c"
    "cleanupPromises c4 = cleanupPromises c"
    by (simp_all add: c4_def f3 Let_def split: option.splits)
  have f5: "trace c5 = trace c4 @ (case d_bridge d of
          None \<Rightarrow> []
        | Some bid \<Rightarrow> if bid \<noteq> [] \<and> ariClient c then [DestroyBridge bid] else [])"
    "ariClient c5 = ariClient c" "rtpReceivers c5 = rtpReceivers c" "rtpSenders c5 = rtpSenders c"
    "data_of c5 sip = d\<lparr>d_redirecting := True\<rparr>" "cleanedChannels c5 = cleanedChannels c"
    "cleanupPromises c5 = cleanupPromises c"
    by (simp_all add: c5_def f4 split: option.splits)
  have f7: "trace c7 = trace c5 @ (if rtpReceivers c sip = Some True then [CloseReceiver sip] else [])
                @ (if rtpSenders c sip = Some True then [CloseSender sip] else [])"
    "ariClient c7 = ariClient c"
    "data_of c7 sip = d\<lparr>d_redirecting := True\<rparr>" "cleanedChannels c7 = cleanedChannels c"
    "cleanupPromises c7 = cleanupPromises c"
    by (simp_all add: c7_def f5)
  have f8: "trace c8 = trace c @ handoff_actions c sip d"
    "ariClient c8 = ariClient c"
    "data_of c8 sip = d\<lparr>d_redirecting := True\<rparr>" "cleanedChannels c8 = cleanedChannels c"
    "cleanupPromises c8 = cleanupPromises c"
    by (simp_all add: c8_def f7 f5 f4 f3 handoff_actions_def split: option.splits)
  obtain conts where conts: "list_all is_continue conts"
    and tc: "trace (snd (try_contexts env sip ?q (tryContexts env) c8)) = trace c8 @ conts"
    using try_contexts_trace [of env sip ?q "tryContexts env" c8] by blast
  have d: "data_of (snd (try_contexts env sip ?q (tryContexts env) c8)) sip = d\<lparr>d_redirecting := True\<rparr>"
    using f8(3) by (simp add: data_of_def try_contexts_result)
  show ?thesis
    unfolding unfolded
    using conts tc d f8
    by (intro exI [of _ conts]) (auto simp: try_contexts_result)
qed


lemma handoff_actions_no_sip_hangup:
  "d_externalChannelId d \<noteq> Some sip \<Longrightarrow>
     HangupChannel sip \<notin> set (handoff_actions c sip d)
     \<and> list_all (\<lambda>a. \<not> is_email_for sip a) (handoff_actions c sip d)"
  by (auto simp: handoff_actions_def split: option.splits)

lemma is_continue_not_others:
  "list_all is_continue conts \<Longrightarrow>
     HangupChannel sip \<notin> set conts \<and> list_all (\<lambda>a. \<not> is_email_for sip a) conts"
  by (induction conts) (auto elim: is_continue.elims)

lemma redirecting_cleanup_actions:
  assumes "d_redirecting (data_of c ident)"
    and "d_externalChannelId (data_of c ident) \<noteq> Some ident"
  shows "HangupChannel ident
           \<notin> set (concat (map (\<lambda>st. step_actions env ident r st c) cleanup_steps))
     \<and> list_all (\<lambda>a. \<not> is_email_for ident a)
         (concat (map (\<lambda>st. step_actions env ident r st c) cleanup_steps))"
  using assms by (auto simp: cleanup_steps_def step_actions.simps split: option.splits)

text \<open>
  C3, as amended. When the redirecting flag of a call is set, the cleanup's SIP
  hangup step and e-mail step do nothing, so a cleanup of that call neither hangs up
  its SIP leg nor calls the mailer. \<open>redirectToQueue\<close> itself sets the flag, never
  calls the mailer, and hangs up the SIP leg exactly when the PBX client exists and
  \<open>continueInDialplan\<close> failed for every context it tried.
\<close>

theorem redirecting_skips_sip_hangup_and_email:
  assumes "ident \<notin> cleanedChannels c" and "cleanupPromises c ident = None"
    and "\<not> d_cleaned (data_of c ident)"
    and "d_redirecting (data_of c ident)"
    and "d_externalChannelId (data_of c ident) \<noteq> Some ident"
    and "map_of (sipMap c0) ident = Some d" and "\<not> d_redirecting d"
    and "trim (REDIRECTION_QUEUE env) \<noteq> []"
    and "d_externalChannelId d \<noteq> Some ident"
  shows "trace (snd (cleanup_step env ident r SipHangupStep c)) = trace c
    \<and> trace (snd (cleanup_step env ident r EmailStep c)) = trace c
    \<and> (\<exists>new. trace (cleanupChannel env ident r c) = trace c @ new
          \<and> HangupChannel ident \<notin> set new
          \<and> list_all (\<lambda>a. \<not> is_email_for ident a) new)
    \<and> d_redirecting (data_of (redirectToQueue env ident c0) ident)
    \<and> (\<exists>new. trace (redirectToQueue env ident c0) = trace c0 @ new
          \<and> list_all (\<lambda>a. \<not> is_email_for ident a) new
          \<and> (HangupChannel ident \<in> set new \<longleftrightarrow>
               ariClient c0
               \<and> (\<forall>ctx\<in>set (tryContexts env).
                     fails env (ContinueInDialplan ident ctx (trim (REDIRECTION_QUEUE env))))))"
proof -
  have steps: "trace (snd (cleanup_step env ident r SipHangupStep c)) = trace c
     \<and> trace (snd (cleanup_step env ident r EmailStep c)) = trace c"
    using assms(4) by (simp add: cleanup_step_trace step_actions.simps)
  obtain p where
    "cleanupChannel env ident r c =
       (run_steps env ident r cleanup_steps
          (cleanup_mark ident (c\<lparr>trace := trace c @ [CleanupStarted ident r]\<rparr>)))
         \<lparr>cleanupPromises := (cleanupPromises c)(ident := p)\<rparr>"
    using cleanupChannel_fresh [OF assms(1-3), of env r] by blast
  then have tr: "trace (cleanupChannel env ident r c) =
      trace c @ CleanupStarted ident r
        # concat (map (\<lambda>st. step_actions env ident r st c) cleanup_steps)"
    by (simp add: run_steps_trace step_actions_mark)
  have cleanup: "\<exists>new. trace (cleanupChannel env ident r c) = trace c @ new
          \<and> HangupChannel ident \<notin> set new
          \<and> list_all (\<lambda>a. \<not> is_email_for ident a) new"
    using tr redirecting_cleanup_actions [OF assms(4,5), of env r]
    by (intro exI [of _ "CleanupStarted ident r
          # concat (map (\<lambda>st. step_actions env ident r st c) cleanup_steps)"]) simp
  obtain conts where conts: "list_all is_continue conts"
    and rt: "trace (redirectToQueue env ident c0) =
          trace c0 @ handoff_actions c0 ident d @ conts
            @ (if ariClient c0
                  \<and> (\<forall>ctx\<in>set (tryContexts env).
                        fails env (ContinueInDialplan ident ctx (trim (REDIRECTION_QUEUE env))))
               then [HangupChannel ident] else [])"
    and rd: "data_of (redirectToQueue env ident c0) ident = d\<lparr>d_redirecting := True\<rparr>"
    using redirectToQueue_runs [OF assms(6-8)] by blast
  have handoff: "\<exists>new. trace (redirectToQueue env ident c0) = trace c0 @ new
          \<and> list_all (\<lambda>a. \<not> is_email_for ident a) new
          \<and> (HangupChannel ident \<in> set new \<longleftrightarrow>
               ariClient c0
               \<and> (\<forall>ctx\<in>set (tryContexts env).
                     fails env (ContinueInDialplan ident ctx (trim (REDIRECTION_QUEUE env)))))"
    using rt handoff_actions_no_sip_hangup [OF assms(9), of c0]
      is_continue_not_others [OF conts, of ident]
    by (intro exI [of _ "handoff_actions c0 ident d @ conts
            @ (if ariClient c0
                  \<and> (\<forall>ctx\<in>set (tryContexts env).
                        fails env (ContinueInDialplan ident ctx (trim (REDIRECTION_QUEUE env))))
               then [HangupChannel ident] else [])"]) auto
  show ?thesis using steps cleanup handoff rd by simp
qed

lemma trim_sample_queue: "trim (js ''3000'') = js ''3000''"
  by (simp add: trim_def js_def js_ws_def)

lemma sample_redirect:
  "data_of (redirectToQueue (sample_core_env f) (js ''sip-1'') sample_core) (js ''sip-1'')
     = sample_call\<lparr>d_redirecting := True\<rparr>
   \<and> cleanedChannels (redirectToQueue (sample_core_env f) (js ''sip-1'') sample_core) = {}
   \<and> cleanupPromises (redirectToQueue (sample_core_env f) (js ''sip-1'') sample_core) = Map.empty"
proof -
  have "map_of (sipMap sample_core) (js ''sip-1'') = Some sample_call"
    and "\<not> d_redirecting sample_call"
    and "trim (REDIRECTION_QUEUE (sample_core_env f)) \<noteq> []"
    by (simp_all add: sample_core_def sample_call_def sample_core_env_def trim_sample_queue
        js_Nil_iff)
  from redirectToQueue_runs [OF this] show ?thesis
    by (auto simp: sample_core_def)
qed

theorem redirecting_skips_sip_hangup_and_email_witness:
  "(\<exists>new. trace (cleanupChannel (sample_core_env False) (js ''sip-1'') (GraceTimeout (js ''StasisEnd''))
              (redirectToQueue (sample_core_env False) (js ''sip-1'') sample_core))
          = trace (redirectToQueue (sample_core_env False) (js ''sip-1'') sample_core) @ new
        \<and> HangupChannel (js ''sip-1'') \<notin> set new
        \<and> list_all (\<lambda>a. \<not> is_email_for (js ''sip-1'') a) new)
   \<and> d_redirecting (data_of (redirectToQueue (sample_core_env False) (js ''sip-1'') sample_core)
        (js ''sip-1''))"
  using redirecting_skips_sip_hangup_and_email
    [of "js ''sip-1''" "redirectToQueue (sample_core_env False) (js ''sip-1'') sample_core"
        sample_core sample_call "sample_core_env False" "GraceTimeout (js ''StasisEnd'')"]
    sample_redirect [of False]
  by (simp add: sample_core_def sample_call_def sample_core_env_def trim_sample_queue
      js_eq_iff js_Nil_iff)

text \<open>
  The claim as stated fails: when every attempt to continue in the dialplan fails,
  \<open>redirectToQueue\<close> hangs up the SIP leg of the call whose redirecting flag it has set.
\<close>

theorem redirect_fallback_hangup_counterexample:
  "d_redirecting
     (data_of (redirectToQueue (sample_core_env True) (js ''sip-1'') sample_core) (js ''sip-1''))
   \<and> HangupChannel (js ''sip-1'')
       \<in> set (trace (redirectToQueue (sample_core_env True) (js ''sip-1'') sample_core))"
proof -
  have "map_of (sipMap sample_core) (js ''sip-1'') = Some sample_call"
    and "\<not> d_redirecting sample_call"
    and "trim (REDIRECTION_QUEUE (sample_core_env True)) \<noteq> []"
    by (simp_all add: sample_core_def sample_call_def sample_core_env_def trim_sample_queue
        js_Nil_iff)
  from redirectToQueue_runs [OF this] show ?thesis
    by (auto simp: sample_core_def sample_core_env_def)
qed

section \<open>Cleanup is idempotent\<close>

lemma cleanup_call_cleaned: "i \<in> cleanedChannels c \<Longrightarrow> cleanup_call env i r c = c"
  by (simp add: cleanup_call_def)

lemma cleanup_call_joins: "cleanupPromises c i \<noteq> None \<Longrightarrow> cleanup_call env i r c = c"
  by (auto simp: cleanup_call_def)

lemma cleanup_call_marks:
  "cleanupPromises c i = None \<Longrightarrow> i \<in> cleanedChannels (cleanup_call env i r c)"
  by (simp add: cleanup_call_def Let_def)

lemma cleanup_resume_settled:
  "cleanupPromises c i = None \<or> cleanupPromises c i = Some Settled
   \<Longrightarrow> (cleanup_resume env i ^^ n) c = c"
  by (induction n) (auto simp: cleanup_resume_def)

lemma cleanupChannel_done:
  assumes "i \<in> cleanedChannels c"
    and "cleanupPromises c i = None \<or> cleanupPromises c i = Some Settled"
  shows "cleanupChannel env i r c = c"
  unfolding cleanupChannel_def cleanup_call_cleaned [OF assms(1)]
  by (rule cleanup_resume_settled [OF assms(2)])

lemma cleanupChannel_settles:
  assumes "cleanupPromises c i = None"
  shows "i \<in> cleanedChannels (cleanupChannel env i r c)
     \<and> (cleanupPromises (cleanupChannel env i r c) i = None
        \<or> cleanupPromises (cleanupChannel env i r c) i = Some Settled)"
proof (cases "i \<in> cleanedChannels c")
  case True
  then show ?thesis using assms by (simp add: cleanupChannel_done)
next
  case False
  show ?thesis
  proof (cases "d_cleaned (data_of c i)")
    case True
    let ?c1 = "cleanup_call env i r c"
    have c1: "i \<in> cleanedChannels ?c1" "cleanupPromises ?c1 i = Some Settled"
      using False True assms by (simp_all add: cleanup_call_def Let_def)
    have "cleanupChannel env i r c = ?c1"
      unfolding cleanupChannel_def using c1(2) by (intro cleanup_resume_settled) simp
    with c1 show ?thesis by simp
  next
    case d: False
    obtain p where p: "p = None \<or> p = Some Settled"
      and run: "cleanupChannel env i r c =
         (run_steps env i r cleanup_steps
            (cleanup_mark i (c\<lparr>trace := trace c @ [CleanupStarted i r]\<rparr>)))
           \<lparr>cleanupPromises := (cleanupPromises c)(i := p)\<rparr>"
      using cleanupChannel_fresh [OF False assms d, of env r] by blast
    show ?thesis unfolding run using p by (auto simp: run_steps_cleaned)
  qed
qed

lemma cleanupChannel_repeat:
  assumes "i \<in> cleanedChannels c"
    and "cleanupPromises c i = None \<or> cleanupPromises c i = Some Settled"
  shows "foldl (\<lambda>c' r'. cleanupChannel env i r' c') c rs = c"
  using assms by (induction rs) (simp_all add: cleanupChannel_done)

lemma emails_for_append [simp]:
  "emails_for i (xs @ ys) = emails_for i xs + emails_for i ys"
  by (simp add: emails_for_def)

lemma emails_for_Nil [simp]: "emails_for i [] = 0"
  by (simp add: emails_for_def)

lemma emails_for_single [simp]:
  "emails_for i [a] = (if is_email_for i a then 1 else 0)"
  by (simp add: emails_for_def)

lemma emails_step_actions:
  "emails_for i (step_actions env j r st c) \<le> (if j = i \<and> st = EmailStep then 1 else 0)"
  by (cases st) (simp_all add: step_actions.simps split: option.splits)

lemma budget_cong:
  "cleanedChannels c' = cleanedChannels c \<Longrightarrow> cleanupPromises c' = cleanupPromises c
   \<Longrightarrow> emails_for i (trace c') = emails_for i (trace c)
   \<Longrightarrow> email_budget i c' = email_budget i c"
  by (simp add: email_budget_def)

lemma budget_updates [simp]:
  "email_budget i (sipMap_set j d c) = email_budget i c"
  "email_budget i (clearTimeout h c) = email_budget i c"
  "email_budget i (snd (setTimeout ms act c)) = email_budget i c"
  "email_budget i (ignore_ext ext c) = email_budget i c"
  "email_budget i (c\<lparr>extMap := em\<rparr>) = email_budget i c"
  "email_budget i (c\<lparr>listeners := ls\<rparr>) = email_budget i c"
  "email_budget i (c\<lparr>resolved := rs\<rparr>) = email_budget i c"
  "email_budget i (c\<lparr>ignoreExtEvents := ig\<rparr>) = email_budget i c"
  "email_budget i (snd (close_receiver env j c)) = email_budget i c"
  "email_budget i (snd (close_sender env j c)) = email_budget i c"
  by (rule budget_cong; simp add: setTimeout_def)+

lemma budget_guarded_attempt [simp]:
  "\<not> is_email_for i a \<Longrightarrow> email_budget i (guarded_attempt b env a c) = email_budget i c"
  by (rule budget_cong) simp_all

lemma budget_cleanup_call:
  assumes "email_budget i c"
  shows "email_budget i (cleanup_call env j r c)"
proof (cases "j \<in> cleanedChannels c \<or> cleanupPromises c j \<noteq> None")
  case True
  then show ?thesis using assms by (auto simp: cleanup_call_def)
next
  case False
  show ?thesis
  proof (cases "j = i")
    case True
    with False assms show ?thesis
      by (simp add: cleanup_call_def Let_def email_budget_def cleanup_steps_def)
  next
    case neq: False
    with False assms show ?thesis
      by (auto simp: cleanup_call_def Let_def email_budget_def split: if_splits)
  qed
qed

lemma budget_cleanup_resume:
  assumes "email_budget i c"
  shows "email_budget i (cleanup_resume env j c)"
proof (cases "cleanupPromises c j")
  case None
  then show ?thesis using assms by (simp add: cleanup_resume_def)
next
  case (Some pr)
  show ?thesis
  proof (cases pr)
    case Settled
    with Some show ?thesis using assms by (simp add: cleanup_resume_def)
  next
    case (Running r sts aw)
    show ?thesis
    proof (cases sts)
      case Nil
      with Some Running assms show ?thesis
        by (auto simp: cleanup_resume_def email_budget_def split: if_splits)
    next
      case (Cons st sts')
      have step: "cleanup_resume env j c =
           (snd (cleanup_step env j r st c))
             \<lparr>cleanupPromises :=
                (cleanupPromises c)(j \<mapsto> Running r sts' (aw \<or> step_awaits j st env c))\<rparr>"
        using Some Running Cons by (intro cleanup_resume_step) simp
      have em: "emails_for i (step_actions env j r st c)
                  \<le> (if j = i \<and> st = EmailStep then 1 else 0)"
        by (rule emails_step_actions)
      show ?thesis
      proof (cases "j = i")
        case True
        with assms Some Running Cons em show ?thesis
          unfolding step
          by (auto simp: email_budget_def cleanup_step_trace split: if_splits)
      next
        case False
        with assms em show ?thesis
          unfolding step by (auto simp: email_budget_def cleanup_step_trace split: if_splits)
      qed
    qed
  qed
qed

lemma budget_mark:
  "email_budget i c \<Longrightarrow> email_budget i (markChannelEndedAndMaybeCleanup env ch src c)"
  by (auto simp: markChannelEndedAndMaybeCleanup_def Let_def budget_cleanup_call
      split: option.splits)

lemma budget_on_StasisEnd: "email_budget i c \<Longrightarrow> email_budget i (on_StasisEnd env ch c)"
  by (simp add: on_StasisEnd_def Let_def budget_mark)

lemma budget_on_ChannelDestroyed:
  "email_budget i c \<Longrightarrow> email_budget i (on_ChannelDestroyed env ch c)"
  by (simp add: on_ChannelDestroyed_def budget_mark)

lemma budget_on_BridgeDestroyed:
  "email_budget i c \<Longrightarrow> email_budget i (on_BridgeDestroyed env b c)"
  by (auto simp: on_BridgeDestroyed_def budget_cleanup_call split: option.splits)

lemma budget_wait_done:
  "email_budget i c \<Longrightarrow> email_budget i (wait_done env h ch phrase c)"
  by (simp add: wait_done_def budget_cleanup_call)

lemma budget_notify:
  "email_budget i c \<Longrightarrow> email_budget i (notify_listener env ident c l)"
  by (cases l) (simp add: notify_listener_def budget_wait_done)

lemma budget_foldl_notify:
  "email_budget i c \<Longrightarrow> email_budget i (foldl (notify_listener env ident) c ls)"
  by (induction ls arbitrary: c) (simp_all add: budget_notify)

lemma budget_audioFinished:
  "email_budget i c \<Longrightarrow> email_budget i (audioFinished env ident c)"
  by (simp add: audioFinished_def budget_foldl_notify)

lemma budget_fire_timer: "email_budget i c \<Longrightarrow> email_budget i (fire_timer env h c)"
  by (auto simp: fire_timer_def Let_def budget_cleanup_call budget_wait_done
      simp flip: guarded_attempt_def [of True, simplified]
      split: option.splits timer_action.splits)

lemma budget_terminate:
  "email_budget i c \<Longrightarrow> email_budget i (terminateAfterPlayback env ch phrase c)"
  by (simp add: terminateAfterPlayback_def Let_def budget_cleanup_call)

lemma budget_try_contexts:
  "email_budget i c \<Longrightarrow> email_budget i (snd (try_contexts env sip q ctxs c))"
proof -
  obtain new where "trace (snd (try_contexts env sip q ctxs c)) = trace c @ new"
    and "list_all is_continue new"
    using try_contexts_trace [of env sip q ctxs c] by blast
  moreover have "list_all is_continue new \<Longrightarrow> emails_for i new = 0" for new
    by (induction new) (auto simp: emails_for_def elim: is_continue.elims)
  ultimately have "email_budget i (snd (try_contexts env sip q ctxs c)) = email_budget i c"
    by (intro budget_cong) (simp_all add: try_contexts_result)
  then show "email_budget i c \<Longrightarrow> email_budget i (snd (try_contexts env sip q ctxs c))"
    by simp
qed

lemma budget_redirect:
  "email_budget i c \<Longrightarrow> email_budget i (redirectToQueue env sip c)"
  by (simp add: redirectToQueue_def Let_def budget_try_contexts split: option.splits)

lemma budget_core_step: "email_budget i c \<Longrightarrow> email_budget i (core_step env c ev)"
  by (cases ev)
     (simp_all add: budget_on_StasisEnd budget_on_ChannelDestroyed budget_on_BridgeDestroyed
        budget_cleanup_call budget_fire_timer budget_audioFinished budget_terminate
        budget_redirect budget_cleanup_resume)

lemma budget_run: "email_budget i c \<Longrightarrow> email_budget i (run env c evs)"
  unfolding run_def by (induction evs arbitrary: c) (simp_all add: budget_core_step)

lemma budget_bound: "email_budget i c \<Longrightarrow> emails_for i (trace c) \<le> 1"
  by (auto simp: email_budget_def split: if_splits)

lemma cleaned_cleanup_call:
  "x \<in> cleanedChannels c \<Longrightarrow> x \<in> cleanedChannels (cleanup_call env j r c)"
  by (auto simp: cleanup_call_def Let_def)

lemma cleaned_cleanup_resume: "cleanedChannels (cleanup_resume env j c) = cleanedChannels c"
proof (cases "cleanupPromises c j")
  case None
  then show ?thesis by (simp add: cleanup_resume_def)
next
  case (Some pr)
  show ?thesis
  proof (cases pr)
    case Settled
    with Some show ?thesis by (simp add: cleanup_resume_def)
  next
    case (Running r sts aw)
    show ?thesis
    proof (cases sts)
      case Nil
      with Some Running show ?thesis by (simp add: cleanup_resume_def)
    next
      case (Cons st sts')
      with Some Running show ?thesis
        by (subst cleanup_resume_step [where r = r and st = st and sts = sts' and aw = aw])
           simp_all
    qed
  qed
qed

lemma cleaned_mark:
  "x \<in> cleanedChannels c
   \<Longrightarrow> x \<in> cleanedChannels (markChannelEndedAndMaybeCleanup env ch src c)"
  by (auto simp: markChannelEndedAndMaybeCleanup_def Let_def setTimeout_def
      intro!: cleaned_cleanup_call split: option.splits)

lemma cleaned_wait_done:
  "x \<in> cleanedChannels c \<Longrightarrow> x \<in> cleanedChannels (wait_done env h ch phrase c)"
  by (auto simp: wait_done_def intro!: cleaned_cleanup_call)

lemma cleaned_notify:
  "x \<in> cleanedChannels c \<Longrightarrow> x \<in> cleanedChannels (notify_listener env ident c l)"
  by (cases l) (auto simp: notify_listener_def intro!: cleaned_wait_done)

lemma cleaned_foldl_notify:
  "x \<in> cleanedChannels c
   \<Longrightarrow> x \<in> cleanedChannels (foldl (notify_listener env ident) c ls)"
  by (induction ls arbitrary: c) (simp_all add: cleaned_notify)

lemma cleaned_fire_timer:
  "x \<in> cleanedChannels c \<Longrightarrow> x \<in> cleanedChannels (fire_timer env h c)"
  by (auto simp: fire_timer_def Let_def step_defs
      intro!: cleaned_cleanup_call cleaned_wait_done
      split: option.splits timer_action.splits)

lemma cleaned_terminate:
  "x \<in> cleanedChannels c
   \<Longrightarrow> x \<in> cleanedChannels (terminateAfterPlayback env ch phrase c)"
  by (auto simp: terminateAfterPlayback_def Let_def setTimeout_def
      intro!: cleaned_cleanup_call)

lemma cleaned_redirect: "cleanedChannels (redirectToQueue env sip c) = cleanedChannels c"
  by (simp add: redirectToQueue_def Let_def try_contexts_result split: option.splits)

lemma cleaned_core_step:
  "x \<in> cleanedChannels c \<Longrightarrow> x \<in> cleanedChannels (core_step env c ev)"
  by (cases ev)
     (auto simp: on_StasisEnd_def on_ChannelDestroyed_def on_BridgeDestroyed_def Let_def
        audioFinished_def cleaned_redirect cleaned_cleanup_resume
        intro!: cleaned_mark cleaned_cleanup_call cleaned_fire_timer cleaned_foldl_notify
          cleaned_terminate
        split: option.splits)

lemma cleaned_run: "x \<in> cleanedChannels c \<Longrightarrow> x \<in> cleanedChannels (run env c evs)"
  unfolding run_def by (induction evs arbitrary: c) (simp_all add: cleaned_core_step)

text \<open>
  C2. From a state with no cleanup of the call in flight, any number of calls of
  \<open>cleanupChannel\<close> one after the other leave the state the first call leaves. The
  first call puts the call into \<open>cleanedChannels\<close> before it suspends, and it stays
  there through every later event; a call of \<open>cleanupChannel\<close> for an id that is in
  \<open>cleanedChannels\<close>, or that has a promise in \<open>cleanupPromises\<close>, changes nothing.
  Whatever events follow, in whatever order the steps of cleanups in flight are
  interleaved with them, the mailer is called at most once for the call.
\<close>

theorem cleanup_is_idempotent:
  assumes "cleanupPromises c ident = None" and "emails_for ident (trace c) = 0"
  shows "foldl (\<lambda>c' r'. cleanupChannel env ident r' c') c (r # rs) = cleanupChannel env ident r c
    \<and> (\<forall>evs. ident \<in> cleanedChannels (run env (cleanup_call env ident r c) evs))
    \<and> (\<forall>c' r'. ident \<in> cleanedChannels c' \<or> cleanupPromises c' ident \<noteq> None
          \<longrightarrow> cleanup_call env ident r' c' = c')
    \<and> (\<forall>evs. emails_for ident (trace (run env c evs)) \<le> 1)"
proof -
  have seq: "foldl (\<lambda>c' r'. cleanupChannel env ident r' c') c (r # rs)
               = cleanupChannel env ident r c"
    using cleanupChannel_settles [OF assms(1), of env r]
    by (simp add: cleanupChannel_repeat)
  have stays: "ident \<in> cleanedChannels (run env (cleanup_call env ident r c) evs)" for evs
    using cleanup_call_marks [OF assms(1), of env r] by (rule cleaned_run)
  have noop: "ident \<in> cleanedChannels c' \<or> cleanupPromises c' ident \<noteq> None
          \<longrightarrow> cleanup_call env ident r' c' = c'" for c' r'
    using cleanup_call_cleaned [of ident c' env r'] cleanup_call_joins [of c' ident env r']
    by blast
  have "email_budget ident c"
    using assms by (simp add: email_budget_def)
  then have mail: "emails_for ident (trace (run env c evs)) \<le> 1" for evs
    by (intro budget_bound budget_run)
  show ?thesis using seq stays noop mail by blast
qed

theorem cleanup_is_idempotent_witness:
  "foldl (\<lambda>c' r'. cleanupChannel (sample_core_env False) (js ''sip-1'') r' c') sample_core
         [BridgeDestroyed, GraceTimeout (js ''StasisEnd''), Sigint]
     = cleanupChannel (sample_core_env False) (js ''sip-1'') BridgeDestroyed sample_core
   \<and> emails_for (js ''sip-1'')
        (trace (run (sample_core_env False) sample_core
           [EvBridgeDestroyed (js ''sip-1_bridge''), EvResume (js ''sip-1''),
            EvSetupError (js ''sip-1''), EvResume (js ''sip-1''),
            EvTerminateRequest (js ''sip-1'') (js ''goodbye'')])) \<le> 1"
  using cleanup_is_idempotent
    [of sample_core "js ''sip-1''" "sample_core_env False" BridgeDestroyed
        "[GraceTimeout (js ''StasisEnd''), Sigint]"]
  by (simp add: sample_core_def)

section \<open>Leg-end events\<close>

lemma setTimeout_frame [simp]:
  "trace (snd (setTimeout ms act c)) = trace c"
  "sipMap (snd (setTimeout ms act c)) = sipMap c"
  "cleanedChannels (snd (setTimeout ms act c)) = cleanedChannels c"
  "cleanupPromises (snd (setTimeout ms act c)) = cleanupPromises c"
  "data_of (snd (setTimeout ms act c)) = data_of c"
  "fst (setTimeout ms act c) = nextTimer c"
  "timers (snd (setTimeout ms act c)) = timers c @ [(nextTimer c, \<lparr>t_delay = ms, t_action = act\<rparr>)]"
  by (simp_all add: setTimeout_def)

lemma timers_clearTimeout [simp]: "timers (clearTimeout h c) = AList.delete h (timers c)"
  by (simp add: clearTimeout_def)

lemma map_of_fresh_handle:
  "list_all (\<lambda>ht. fst ht < (n::nat)) ts \<Longrightarrow> map_of ts n = None"
  by (induction ts) auto

lemma list_all_delete:
  "list_all P ts \<Longrightarrow> list_all P (AList.delete h ts)"
  by (induction ts) auto

lemma cleanup_call_starts:
  assumes "i \<notin> cleanedChannels c" and "cleanupPromises c i = None"
    and "\<not> d_cleaned (data_of c i)"
  shows "trace (cleanup_call env i r c) = trace c @ [CleanupStarted i r]"
    and "i \<in> cleanedChannels (cleanup_call env i r c)"
    and "cleanupPromises (cleanup_call env i r c) i = Some (Running r cleanup_steps False)"
    and "data_of (cleanup_call env i r c) i = (data_of c i)\<lparr>d_cleaned := True, d_cleanupTimer := None\<rparr>"
  unfolding cleanup_call_fresh [OF assms] by (simp_all add: cleanup_mark_data)

text \<open>The event is let through by the guards of \<open>markChannelEndedAndMaybeCleanup\<close>.\<close>

lemma mark_passes_guards:
  assumes "resolveSipIdForChannel c ch = Some sipId" and "sipId \<noteq> []"
    and "sipId \<notin> cleanedChannels c"
    and "map_of (sipMap c) sipId = Some d" and "\<not> d_cleaned d"
    and "\<not> (isExternalMediaChannel (ch_name ch) \<and> ch_id ch \<in> ignoreExtEvents c)"
  shows "markChannelEndedAndMaybeCleanup env ch src c =
     (let d1 = (if isExternalMediaChannel (ch_name ch) then d\<lparr>d_extEnded := True\<rparr>
                else d\<lparr>d_sipEnded := True\<rparr>);
          c1 = sipMap_set sipId d1 c
      in if d_sipEnded d1 \<and> d_extEnded d1
         then cleanup_call env sipId (BothEnded src) c1
         else
           let c2 = (case d_cleanupTimer d1 of None \<Rightarrow> c1 | Some h \<Rightarrow> clearTimeout h c1);
               hc = setTimeout (CLEANUP_GRACE_MS env) (GraceCleanup sipId src) c2
           in sipMap_set sipId (d1\<lparr>d_cleanupTimer := Some (fst hc)\<rparr>) (snd hc))"
  using assms by (auto simp: markChannelEndedAndMaybeCleanup_def Let_def data_of_def)


text \<open>
  C4, as amended. A leg-end event that resolves to a registered call that is not
  cleaned and has no cleanup in flight, and whose channel is not an external leg on
  the ignore list, sets the end-flag of its leg. When both flags are then set, the
  cleanup starts at once with the reason \<open><event>:both-ended\<close>. Otherwise the call's
  pending grace timer is cleared and one timer of \<open>CLEANUP_GRACE_MS\<close> is armed and
  stored with the call; when it fires, the cleanup starts with the reason
  \<open><event>:grace-timeout\<close>.
\<close>

theorem leg_end_marks_and_schedules_cleanup:
  assumes "resolveSipIdForChannel c ch = Some sipId" and "sipId \<noteq> []"
    and "sipId \<notin> cleanedChannels c"
    and "map_of (sipMap c) sipId = Some d" and "\<not> d_cleaned d"
    and "\<not> (isExternalMediaChannel (ch_name ch) \<and> ch_id ch \<in> ignoreExtEvents c)"
    and "cleanupPromises c sipId = None"
    and "list_all (\<lambda>ht. fst ht < nextTimer c) (timers c)"
  shows
    "(if isExternalMediaChannel (ch_name ch)
      then d_extEnded (data_of (markChannelEndedAndMaybeCleanup env ch src c) sipId)
      else d_sipEnded (data_of (markChannelEndedAndMaybeCleanup env ch src c) sipId))
     \<and> (if (if isExternalMediaChannel (ch_name ch) then d_sipEnded d else d_extEnded d)
         then trace (markChannelEndedAndMaybeCleanup env ch src c)
                = trace c @ [CleanupStarted sipId (BothEnded src)]
              \<and> reason_text (BothEnded src) = src @ js '':both-ended''
              \<and> sipId \<in> cleanedChannels (markChannelEndedAndMaybeCleanup env ch src c)
              \<and> cleanupPromises (markChannelEndedAndMaybeCleanup env ch src c) sipId
                  = Some (Running (BothEnded src) cleanup_steps False)
         else trace (markChannelEndedAndMaybeCleanup env ch src c) = trace c
              \<and> timers (markChannelEndedAndMaybeCleanup env ch src c)
                  = (case d_cleanupTimer d of
                       None \<Rightarrow> timers c
                     | Some h \<Rightarrow> AList.delete h (timers c))
                    @ [(nextTimer c, \<lparr>t_delay = CLEANUP_GRACE_MS env,
                                       t_action = GraceCleanup sipId src\<rparr>)]
              \<and> d_cleanupTimer (data_of (markChannelEndedAndMaybeCleanup env ch src c) sipId)
                  = Some (nextTimer c)
              \<and> trace (fire_timer env (nextTimer c)
                         (markChannelEndedAndMaybeCleanup env ch src c))
                  = trace c @ [CleanupStarted sipId (GraceTimeout src)]
              \<and> reason_text (GraceTimeout src) = src @ js '':grace-timeout''
              \<and> sipId \<in> cleanedChannels
                           (fire_timer env (nextTimer c)
                              (markChannelEndedAndMaybeCleanup env ch src c)))"
proof -
  let ?ext = "isExternalMediaChannel (ch_name ch)"
  let ?d1 = "if ?ext then d\<lparr>d_extEnded := True\<rparr> else d\<lparr>d_sipEnded := True\<rparr>"
  let ?c1 = "sipMap_set sipId ?d1 c"
  let ?m = "markChannelEndedAndMaybeCleanup env ch src c"
  note eq = mark_passes_guards [OF assms(1-6), of env src]
  have d: "data_of c sipId = d" using assms(4) by (simp add: data_of_def)
  have both_iff: "(d_sipEnded ?d1 \<and> d_extEnded ?d1)
                    \<longleftrightarrow> (if ?ext then d_sipEnded d else d_extEnded d)"
    by simp
  show ?thesis
  proof (cases "if ?ext then d_sipEnded d else d_extEnded d")
    case True
    have m: "?m = cleanup_call env sipId (BothEnded src) ?c1"
      using True unfolding eq Let_def by (simp split: if_splits)
    have fresh: "sipId \<notin> cleanedChannels ?c1" "cleanupPromises ?c1 sipId = None"
      "\<not> d_cleaned (data_of ?c1 sipId)"
      using assms(3,5,7) by simp_all
    show ?thesis
      using True cleanup_call_starts [OF fresh, of env "BothEnded src"]
      unfolding m by (simp split: if_splits)
  next
    case False
    let ?c2 = "case d_cleanupTimer ?d1 of None \<Rightarrow> ?c1 | Some h \<Rightarrow> clearTimeout h ?c1"
    let ?t = "\<lparr>t_delay = CLEANUP_GRACE_MS env, t_action = GraceCleanup sipId src\<rparr>"
    let ?ts = "case d_cleanupTimer d of None \<Rightarrow> timers c | Some h \<Rightarrow> AList.delete h (timers c)"
    have m: "?m = sipMap_set sipId (?d1\<lparr>d_cleanupTimer := Some (nextTimer c)\<rparr>)
                    (snd (setTimeout (CLEANUP_GRACE_MS env) (GraceCleanup sipId src) ?c2))"
      using False unfolding eq Let_def by (simp split: if_splits option.splits)
    have ts: "timers ?m = ?ts @ [(nextTimer c, ?t)]"
      unfolding m by (simp split: option.splits)
    have old: "list_all (\<lambda>ht. fst ht < nextTimer c) ?ts"
      using assms(8) by (simp add: list_all_delete split: option.splits)
    have look: "map_of (timers ?m) (nextTimer c) = Some ?t"
      unfolding ts using map_of_fresh_handle [OF old] by (simp add: map_add_def)
    have tr: "trace ?m = trace c" unfolding m by (simp split: option.splits)
    have dm: "data_of ?m sipId = ?d1\<lparr>d_cleanupTimer := Some (nextTimer c)\<rparr>"
      unfolding m by simp
    have cl: "cleanedChannels ?m = cleanedChannels c" "cleanupPromises ?m = cleanupPromises c"
      unfolding m by (simp_all split: option.splits)
    let ?f = "clearTimeout (nextTimer c) ?m"
    have fire: "fire_timer env (nextTimer c) ?m = cleanup_call env sipId (GraceTimeout src) ?f"
      using look by (simp add: fire_timer_def Let_def)
    have fresh: "sipId \<notin> cleanedChannels ?f" "cleanupPromises ?f sipId = None"
      "\<not> d_cleaned (data_of ?f sipId)"
      using assms(3,5,7) cl dm by simp_all
    have flag: "if ?ext then d_extEnded (data_of ?m sipId) else d_sipEnded (data_of ?m sipId)"
      unfolding dm by simp
    show ?thesis
      using False flag tr ts dm cleanup_call_starts(1,2) [OF fresh, of env "GraceTimeout src"]
      unfolding fire by (simp split: if_splits)
  qed
qed


lemma sample_legs:
  "\<not> isExternalMediaChannel (ch_name sample_sip_leg)"
  "isExternalMediaChannel (ch_name sample_ext_leg)"
  "ch_id sample_sip_leg = js ''sip-1''" "ch_id sample_ext_leg = js ''ext-1''"
  by (simp_all add: sample_sip_leg_def sample_ext_leg_def isExternalMediaChannel_def js_def)

theorem leg_end_marks_and_schedules_cleanup_witness:
  "d_sipEnded (data_of (markChannelEndedAndMaybeCleanup (sample_core_env False) sample_sip_leg
                  (js ''StasisEnd'') sample_core) (js ''sip-1''))
   \<and> timers (markChannelEndedAndMaybeCleanup (sample_core_env False) sample_sip_leg
                (js ''StasisEnd'') sample_core)
       = [(0, \<lparr>t_delay = 1500, t_action = GraceCleanup (js ''sip-1'') (js ''StasisEnd'')\<rparr>)]
   \<and> trace (fire_timer (sample_core_env False) 0
               (markChannelEndedAndMaybeCleanup (sample_core_env False) sample_sip_leg
                  (js ''StasisEnd'') sample_core))
       = [CleanupStarted (js ''sip-1'') (GraceTimeout (js ''StasisEnd''))]"
  using leg_end_marks_and_schedules_cleanup
    [of sample_core sample_sip_leg "js ''sip-1''" sample_call "sample_core_env False"
        "js ''StasisEnd''"]
  by (simp add: sample_legs resolveSipIdForChannel_def sample_core_def sample_call_def
      sample_core_env_def env_ms_def js_Nil_iff)

lemma sample_handed_off:
  "redirectToQueue (sample_core_env False) (js ''sip-1'') sample_core =
     sample_core
       \<lparr>sipMap := [(js ''sip-1'', sample_call\<lparr>d_redirecting := True\<rparr>)],
        rtpReceivers := Map.empty,
        rtpSenders := Map.empty,
        ignoreExtEvents := {js ''ext-1''},
        timers := [(0, \<lparr>t_delay = 10000, t_action = IgnoreExtExpire (js ''ext-1'')\<rparr>)],
        nextTimer := 1,
        trace := [StreamEnd (js ''sip-1''), WsClose (js ''sip-1''), HangupChannel (js ''ext-1''),
                  DestroyBridge (js ''sip-1_bridge''), CloseReceiver (js ''sip-1''),
                  CloseSender (js ''sip-1''), ReleaseRtpPort 12000,
                  ContinueInDialplan (js ''sip-1'') (js ''ext-queues'') (js ''3000'')]\<rparr>"
  by (simp add: redirectToQueue_def Let_def sample_core_def sample_call_def sample_core_env_def
      trim_sample_queue step_defs tryContexts_def sipMap_set_def env_ms_def js_eq_iff js_Nil_iff)

text \<open>
  When the hangup of the external leg throws at the call, the handoff goes on without
  putting the leg on the ignore list.
\<close>

lemma sample_handoff_hangup_throws:
  "ignoreExtEvents (redirectToQueue ((sample_core_env True)\<lparr>throwsAtCall := (\<lambda>a. True)\<rparr>)
                      (js ''sip-1'') sample_core) = {}
   \<and> timers (redirectToQueue ((sample_core_env True)\<lparr>throwsAtCall := (\<lambda>a. True)\<rparr>)
               (js ''sip-1'') sample_core) = []"
  by (simp add: redirectToQueue_def Let_def sample_core_def sample_call_def sample_core_env_def
      trim_sample_queue step_defs tryContexts_def sipMap_set_def env_ms_def js_eq_iff js_Nil_iff)

text \<open>
  The claim as stated fails: after a handoff has begun the call is registered and not
  cleaned, its external leg is on the ignore list, and the leg's end event changes
  nothing; the external end-flag stays unset.
\<close>

theorem ignored_ext_leg_end_counterexample:
  "resolveSipIdForChannel
       (redirectToQueue (sample_core_env False) (js ''sip-1'') sample_core) sample_ext_leg
     = Some (js ''sip-1'')
   \<and> map_of (sipMap (redirectToQueue (sample_core_env False) (js ''sip-1'') sample_core))
        (js ''sip-1'') = Some (sample_call\<lparr>d_redirecting := True\<rparr>)
   \<and> \<not> d_cleaned (sample_call\<lparr>d_redirecting := True\<rparr>)
   \<and> js ''sip-1''
        \<notin> cleanedChannels (redirectToQueue (sample_core_env False) (js ''sip-1'') sample_core)
   \<and> markChannelEndedAndMaybeCleanup (sample_core_env False) sample_ext_leg (js ''StasisEnd'')
        (redirectToQueue (sample_core_env False) (js ''sip-1'') sample_core)
       = redirectToQueue (sample_core_env False) (js ''sip-1'') sample_core
   \<and> on_StasisEnd (sample_core_env False) sample_ext_leg
        (redirectToQueue (sample_core_env False) (js ''sip-1'') sample_core)
       = redirectToQueue (sample_core_env False) (js ''sip-1'') sample_core
   \<and> \<not> d_extEnded (data_of (markChannelEndedAndMaybeCleanup (sample_core_env False)
                               sample_ext_leg (js ''StasisEnd'')
                               (redirectToQueue (sample_core_env False) (js ''sip-1'')
                                  sample_core))
                     (js ''sip-1''))"
  unfolding sample_handed_off
  by (simp add: sample_legs resolveSipIdForChannel_def markChannelEndedAndMaybeCleanup_def
      on_StasisEnd_def late_event_def Let_def sample_core_def sample_call_def data_of_def
      js_eq_iff js_Nil_iff)


section \<open>Termination after playback\<close>

lemma tc_append [simp]:
  "terminate_cleanups i ph (xs @ ys) = terminate_cleanups i ph xs + terminate_cleanups i ph ys"
  by (simp add: terminate_cleanups_def)

lemma tc_Nil [simp]: "terminate_cleanups i ph [] = 0"
  by (simp add: terminate_cleanups_def)

lemma tc_Cons [simp]:
  "terminate_cleanups i ph (a # xs) =
     (if a = CleanupStarted i (AssistantTerminate ph) then 1 else 0) + terminate_cleanups i ph xs"
  by (simp add: terminate_cleanups_def)

lemma tc_cong:
  "trace c' = trace c \<Longrightarrow> terminate_cleanups i ph (trace c') = terminate_cleanups i ph (trace c)"
  by simp

lemma tc_cleanup_call:
  "j \<noteq> i \<or> r \<noteq> AssistantTerminate ph \<Longrightarrow>
   terminate_cleanups i ph (trace (cleanup_call env j r c)) = terminate_cleanups i ph (trace c)"
  by (auto simp: cleanup_call_def Let_def)

lemma tc_step_actions: "terminate_cleanups i ph (step_actions env j r st c) = 0"
  by (cases st) (simp_all add: step_actions.simps split: option.splits)

lemma tc_cleanup_resume:
  "terminate_cleanups i ph (trace (cleanup_resume env j c)) = terminate_cleanups i ph (trace c)"
proof (cases "cleanupPromises c j")
  case None
  then show ?thesis by (simp add: cleanup_resume_def)
next
  case (Some pr)
  show ?thesis
  proof (cases pr)
    case Settled
    with Some show ?thesis by (simp add: cleanup_resume_def)
  next
    case (Running r sts aw)
    show ?thesis
    proof (cases sts)
      case Nil
      with Some Running show ?thesis by (simp add: cleanup_resume_def)
    next
      case (Cons st sts')
      with Some Running show ?thesis
        by (subst cleanup_resume_step [where r = r and st = st and sts = sts' and aw = aw])
           (simp_all add: cleanup_step_trace tc_step_actions)
    qed
  qed
qed

lemma tc_mark:
  "terminate_cleanups i ph (trace (markChannelEndedAndMaybeCleanup env ch src c))
     = terminate_cleanups i ph (trace c)"
  by (simp add: markChannelEndedAndMaybeCleanup_def Let_def tc_cleanup_call
      split: option.splits)

lemma tc_wait_done:
  "j \<noteq> i \<or> ph' \<noteq> ph \<Longrightarrow>
   terminate_cleanups i ph (trace (wait_done env h j ph' c)) = terminate_cleanups i ph (trace c)"
  by (auto simp: wait_done_def tc_cleanup_call)

lemma tc_notify:
  "j \<noteq> i \<Longrightarrow>
   terminate_cleanups i ph (trace (notify_listener env j c l)) = terminate_cleanups i ph (trace c)"
  by (cases l) (auto simp: notify_listener_def tc_wait_done)

lemma tc_foldl_notify:
  "j \<noteq> i \<Longrightarrow>
   terminate_cleanups i ph (trace (foldl (notify_listener env j) c ls))
     = terminate_cleanups i ph (trace c)"
  by (induction ls arbitrary: c) (simp_all add: tc_notify)

lemma tc_fire_timer:
  assumes "\<not> releases c (EvTimer h) i ph"
  shows "terminate_cleanups i ph (trace (fire_timer env h c)) = terminate_cleanups i ph (trace c)"
  using assms
  by (auto simp: fire_timer_def Let_def tc_cleanup_call tc_wait_done step_defs
      split: option.splits timer_action.splits)

lemma tc_terminate:
  assumes "\<not> releases c (EvTerminateRequest j ph') i ph"
  shows "terminate_cleanups i ph (trace (terminateAfterPlayback env j ph' c))
           = terminate_cleanups i ph (trace c)"
proof (cases "j = i \<and> ph' = ph")
  case True
  with assms have "\<not> isQueueEmpty (d_streamHandler (data_of c j))" by simp
  then show ?thesis by (simp add: terminateAfterPlayback_def Let_def)
next
  case False
  then have "j \<noteq> i \<or> AssistantTerminate ph' \<noteq> AssistantTerminate ph" by simp
  then show ?thesis
    by (simp add: terminateAfterPlayback_def Let_def tc_cleanup_call)
qed

lemma tc_try_contexts:
  "terminate_cleanups i ph (trace (snd (try_contexts env sip q ctxs c)))
     = terminate_cleanups i ph (trace c)"
proof -
  obtain new where "trace (snd (try_contexts env sip q ctxs c)) = trace c @ new"
    and "list_all is_continue new"
    using try_contexts_trace [of env sip q ctxs c] by blast
  moreover have "list_all is_continue new \<Longrightarrow> terminate_cleanups i ph new = 0" for new
    by (induction new) (auto simp: terminate_cleanups_def elim: is_continue.elims)
  ultimately show ?thesis by simp
qed

lemma tc_redirect:
  "terminate_cleanups i ph (trace (redirectToQueue env sip c)) = terminate_cleanups i ph (trace c)"
  by (simp add: redirectToQueue_def Let_def tc_try_contexts split: option.splits)

text \<open>One event: only a releasing event opens a cleanup for the terminate phrase.\<close>

lemma tc_core_step:
  assumes "\<not> releases c ev i ph"
  shows "terminate_cleanups i ph (trace (core_step env c ev)) = terminate_cleanups i ph (trace c)"
proof (cases ev)
  case (EvStasisEnd ch)
  then show ?thesis by (simp add: on_StasisEnd_def Let_def tc_mark)
next
  case (EvChannelDestroyed ch)
  then show ?thesis by (simp add: on_ChannelDestroyed_def tc_mark)
next
  case (EvBridgeDestroyed b)
  then show ?thesis by (simp add: on_BridgeDestroyed_def tc_cleanup_call split: option.splits)
next
  case (EvSetupError j)
  then show ?thesis by (simp add: tc_cleanup_call)
next
  case (EvTimer h)
  then show ?thesis using assms by (simp add: tc_fire_timer)
next
  case (EvAudioFinished j)
  then show ?thesis using assms by (simp add: audioFinished_def tc_foldl_notify)
next
  case (EvTerminateRequest j ph')
  then show ?thesis using assms by (simp add: tc_terminate)
next
  case (EvRedirectRequest j)
  then show ?thesis by (simp add: tc_redirect)
next
  case (EvResume j)
  then show ?thesis by (simp add: tc_cleanup_resume)
qed

lemma run_snoc: "run env c (evs @ [ev]) = core_step env (run env c evs) ev"
  by (simp add: run_def)

lemma tc_run:
  "terminate_cleanups i ph (trace c) < terminate_cleanups i ph (trace (run env c evs))
   \<Longrightarrow> \<exists>pre ev post. evs = pre @ ev # post \<and> releases (run env c pre) ev i ph"
proof (induction evs rule: rev_induct)
  case Nil
  then show ?case by (simp add: run_def)
next
  case (snoc e evs)
  show ?case
  proof (cases "terminate_cleanups i ph (trace c)
                  < terminate_cleanups i ph (trace (run env c evs))")
    case True
    from snoc.IH [OF this] obtain pre ev post
      where "evs = pre @ ev # post" and "releases (run env c pre) ev i ph" by blast
    then show ?thesis
      by (intro exI [of _ pre] exI [of _ ev] exI [of _ "post @ [e]"]) simp
  next
    case False
    have "releases (run env c evs) e i ph"
    proof (rule ccontr)
      assume "\<not> releases (run env c evs) e i ph"
      from tc_core_step [OF this, of env] snoc.prems False show False
        by (simp add: run_snoc)
    qed
    then show ?thesis
      by (intro exI [of _ evs] exI [of _ e] exI [of _ "[]"]) simp
  qed
qed

text \<open>A terminate request that finds audio queued registers a listener and arms
  the fallback timer; it opens no cleanup.\<close>

lemma terminate_waits:
  assumes "\<not> d_redirecting (data_of c i)" and "\<not> d_cleaned (data_of c i)"
    and "i \<notin> cleanedChannels c" and "\<not> isQueueEmpty (d_streamHandler (data_of c i))"
  shows "trace (terminateAfterPlayback env i ph c) = trace c
    \<and> d_terminateAfterPlayback (data_of (terminateAfterPlayback env i ph c) i)
    \<and> timers (terminateAfterPlayback env i ph c)
        = timers c @ [(nextTimer c, \<lparr>t_delay = TERMINATE_FALLBACK_MS env,
                                      t_action = TerminateFallback i ph\<rparr>)]
    \<and> listeners (terminateAfterPlayback env i ph c) = listeners c @ [(nextTimer c, i, ph)]"
  using assms by (simp add: terminateAfterPlayback_def Let_def setTimeout_def)

text \<open>The session's handling of a finished assistant transcript.\<close>

lemma body_transcript_done:
  "prop_of response (js ''type'') = Some (JStr (js ''response.audio_transcript.done''))
   \<Longrightarrow> processMessage_body env s response = on_transcript_done env s response"
  by (simp add: processMessage_body_def js_eq_iff)

lemma transcript_done_no_teardown:
  "filter is_teardown (out (snd (try_catch (on_transcript_done env s response)
       (\<lambda>e s'. (None, emit (ErrorLogged e) s'))))) = filter is_teardown (out s)"
  "terminationInFlight (snd (try_catch (on_transcript_done env s response)
       (\<lambda>e s'. (None, emit (ErrorLogged e) s')))) = terminationInFlight s"
  by (simp_all add: on_transcript_done_def try_catch_def emit_def Let_def
      split: option.splits jsv.splits)

lemma transcript_done_arms:
  assumes "prop_of response (js ''transcript'') = Some (JStr t)" and "t \<noteq> []"
    and "matched_phrase (AGENT_TERMINATE_PHRASES env) (lowerNFKC env t) = Some m"
  shows "terminateRequested (snd (try_catch (on_transcript_done env s response)
           (\<lambda>e s'. (None, emit (ErrorLogged e) s'))))"
    and "terminateReason (snd (try_catch (on_transcript_done env s response)
           (\<lambda>e s'. (None, emit (ErrorLogged e) s')))) = Some m"
    and "terminationWatchdogStarted (snd (try_catch (on_transcript_done env s response)
           (\<lambda>e s'. (None, emit (ErrorLogged e) s'))))"
  using assms
  by (simp_all add: on_transcript_done_def try_catch_def emit_def Let_def
      split: option.splits)

text \<open>
  C1. For every session and every call: handling a finished assistant transcript starts
  no teardown, whatever it says (no \<open>finalizeAndTerminate\<close>, no terminate request to the
  call's owner), and a terminate phrase in it sets \<open>terminateRequested\<close> with the phrase
  as reason. A terminate request that reaches \<open>terminateAfterPlayback\<close> while audio is
  queued opens no cleanup: it sets \<open>terminateAfterPlayback\<close>, registers an
  \<open>audioFinished\<close> listener and arms a timer of \<open>TERMINATE_FALLBACK_MS\<close>. Over any
  sequence of events, a cleanup of the call with reason \<open>assistant-terminate\<close> is opened
  only by the sender's \<open>audioFinished\<close> for that call, by the fallback timer of such a
  request, or by a request that finds the sender's queues empty.
\<close>

theorem terminate_phrase_defers_cleanup:
  "(prop_of response (js ''type'') = Some (JStr (js ''response.audio_transcript.done'')) \<longrightarrow>
      filter is_teardown (out (snd (processMessage env s response)))
        = filter is_teardown (out s)
      \<and> terminationInFlight (snd (processMessage env s response)) = terminationInFlight s
      \<and> (\<forall>t m. prop_of response (js ''transcript'') = Some (JStr t) \<and> t \<noteq> []
             \<and> matched_phrase (AGENT_TERMINATE_PHRASES env) (lowerNFKC env t) = Some m
           \<longrightarrow> terminateRequested (snd (processMessage env s response))
             \<and> terminateReason (snd (processMessage env s response)) = Some m))
   \<and> (\<not> d_redirecting (data_of c i) \<and> \<not> d_cleaned (data_of c i) \<and> i \<notin> cleanedChannels c
        \<and> \<not> isQueueEmpty (d_streamHandler (data_of c i)) \<longrightarrow>
      trace (terminateAfterPlayback cenv i ph c) = trace c
      \<and> d_terminateAfterPlayback (data_of (terminateAfterPlayback cenv i ph c) i)
      \<and> timers (terminateAfterPlayback cenv i ph c)
          = timers c @ [(nextTimer c, \<lparr>t_delay = TERMINATE_FALLBACK_MS cenv,
                                        t_action = TerminateFallback i ph\<rparr>)]
      \<and> listeners (terminateAfterPlayback cenv i ph c) = listeners c @ [(nextTimer c, i, ph)])
   \<and> (terminate_cleanups i ph (trace c) < terminate_cleanups i ph (trace (run cenv c evs)) \<longrightarrow>
      (\<exists>pre ev post. evs = pre @ ev # post \<and> releases (run cenv c pre) ev i ph))"
proof (intro conjI impI allI)
  assume ty: "prop_of response (js ''type'') = Some (JStr (js ''response.audio_transcript.done''))"
  have pm: "processMessage env s response =
      try_catch (on_transcript_done env s response) (\<lambda>e s'. (None, emit (ErrorLogged e) s'))"
    by (simp add: processMessage_def body_transcript_done [OF ty])
  show "filter is_teardown (out (snd (processMessage env s response)))
          = filter is_teardown (out s)"
    unfolding pm by (rule transcript_done_no_teardown)
  show "terminationInFlight (snd (processMessage env s response)) = terminationInFlight s"
    unfolding pm by (rule transcript_done_no_teardown)
  fix t m
  assume m: "prop_of response (js ''transcript'') = Some (JStr t) \<and> t \<noteq> []
     \<and> matched_phrase (AGENT_TERMINATE_PHRASES env) (lowerNFKC env t) = Some m"
  then have tr: "prop_of response (js ''transcript'') = Some (JStr t)" and ne: "t \<noteq> []"
    and mp: "matched_phrase (AGENT_TERMINATE_PHRASES env) (lowerNFKC env t) = Some m"
    by simp_all
  show "terminateRequested (snd (processMessage env s response))"
    unfolding pm by (rule transcript_done_arms(1) [OF tr ne mp])
  show "terminateReason (snd (processMessage env s response)) = Some m"
    unfolding pm by (rule transcript_done_arms(2) [OF tr ne mp])
next
  assume g: "\<not> d_redirecting (data_of c i) \<and> \<not> d_cleaned (data_of c i)
     \<and> i \<notin> cleanedChannels c \<and> \<not> isQueueEmpty (d_streamHandler (data_of c i))"
  then have w: "trace (terminateAfterPlayback cenv i ph c) = trace c
    \<and> d_terminateAfterPlayback (data_of (terminateAfterPlayback cenv i ph c) i)
    \<and> timers (terminateAfterPlayback cenv i ph c)
        = timers c @ [(nextTimer c, \<lparr>t_delay = TERMINATE_FALLBACK_MS cenv,
                                      t_action = TerminateFallback i ph\<rparr>)]
    \<and> listeners (terminateAfterPlayback cenv i ph c) = listeners c @ [(nextTimer c, i, ph)]"
    by (intro terminate_waits) simp_all
  from w show "trace (terminateAfterPlayback cenv i ph c) = trace c" by simp
  from w show "d_terminateAfterPlayback (data_of (terminateAfterPlayback cenv i ph c) i)"
    by simp
  from w show "timers (terminateAfterPlayback cenv i ph c)
        = timers c @ [(nextTimer c, \<lparr>t_delay = TERMINATE_FALLBACK_MS cenv,
                                      t_action = TerminateFallback i ph\<rparr>)]" by simp
  from w show "listeners (terminateAfterPlayback cenv i ph c)
        = listeners c @ [(nextTimer c, i, ph)]" by simp
next
  assume "terminate_cleanups i ph (trace c) < terminate_cleanups i ph (trace (run cenv c evs))"
  then show "\<exists>pre ev post. evs = pre @ ev # post \<and> releases (run cenv c pre) ev i ph"
    by (rule tc_run)
qed

text \<open>
  The sample call: ``Thanks, goodbye!'' arms the request; the request waits while audio
  is queued, and \<open>audioFinished\<close> then opens the cleanup.
\<close>

lemma sample_goodbye:
  "matched_phrase (AGENT_TERMINATE_PHRASES sample_env)
     (lowerNFKC sample_env (js ''Thanks, goodbye!'')) = Some (js ''goodbye'')"
  by (simp add: sample_env_def matched_phrase_def toLowerCase_def lower_unit_def js_def
      sublist_code)

lemma sample_terminate_run:
  "trace (run (sample_core_env False) sample_core
            [EvTerminateRequest (js ''sip-1'') (js ''goodbye''), EvAudioFinished (js ''sip-1'')])
     = [CleanupStarted (js ''sip-1'') (AssistantTerminate (js ''goodbye''))]"
  "trace (run (sample_core_env False) sample_core
            [EvTerminateRequest (js ''sip-1'') (js ''goodbye'')]) = []"
  by (simp_all add: run_def terminateAfterPlayback_def audioFinished_def notify_listener_def
      wait_done_def cleanup_call_def cleanup_mark_def isQueueEmpty_def sample_core_def
      sample_call_def sample_core_env_def env_ms_def data_of_def sipMap_set_def
      setTimeout_def clearTimeout_def Let_def js_eq_iff js_Nil_iff)

lemma sample_core_live:
  "\<not> d_redirecting (data_of sample_core (js ''sip-1''))"
  "\<not> d_cleaned (data_of sample_core (js ''sip-1''))"
  "js ''sip-1'' \<notin> cleanedChannels sample_core"
  "\<not> isQueueEmpty (d_streamHandler (data_of sample_core (js ''sip-1'')))"
  "timers sample_core = []" "nextTimer sample_core = 0" "trace sample_core = []"
  "TERMINATE_FALLBACK_MS (sample_core_env failing) = 8000"
  by (simp_all add: sample_core_def sample_call_def sample_core_env_def env_ms_def
      data_of_def isQueueEmpty_def)

lemma sample_transcript_done:
  "prop_of (ai_event ''response.audio_transcript.done'' ((js ''transcript'', v) # props))
     (js ''type'') = Some (JStr (js ''response.audio_transcript.done''))"
  "prop_of (ai_event ''response.audio_transcript.done'' ((js ''transcript'', v) # props))
     (js ''transcript'') = Some v"
  "out open_session = []"
  by (simp_all add: ai_event_def open_session_def js_eq_iff)

theorem terminate_phrase_defers_cleanup_witness:
  "filter is_teardown (out (snd (processMessage sample_env open_session
      (ai_event ''response.audio_transcript.done''
         [(js ''transcript'', JStr (js ''Thanks, goodbye!''))])))) = []
   \<and> terminateReason (snd (processMessage sample_env open_session
      (ai_event ''response.audio_transcript.done''
         [(js ''transcript'', JStr (js ''Thanks, goodbye!''))]))) = Some (js ''goodbye'')
   \<and> timers (terminateAfterPlayback (sample_core_env False) (js ''sip-1'') (js ''goodbye'')
               sample_core)
       = [(0, \<lparr>t_delay = 8000,
               t_action = TerminateFallback (js ''sip-1'') (js ''goodbye'')\<rparr>)]
   \<and> (\<exists>pre ev post.
        [EvTerminateRequest (js ''sip-1'') (js ''goodbye''), EvAudioFinished (js ''sip-1'')]
          = pre @ ev # post
        \<and> releases (run (sample_core_env False) sample_core pre) ev (js ''sip-1'')
            (js ''goodbye''))"
  using terminate_phrase_defers_cleanup
    [where env = sample_env and s = open_session
       and response = "ai_event ''response.audio_transcript.done''
                         [(js ''transcript'', JStr (js ''Thanks, goodbye!''))]"
       and cenv = "sample_core_env False" and c = sample_core and i = "js ''sip-1''"
       and ph = "js ''goodbye''"
       and evs = "[EvTerminateRequest (js ''sip-1'') (js ''goodbye''),
                   EvAudioFinished (js ''sip-1'')]"]
    sample_goodbye
  by (simp add: sample_terminate_run sample_core_live sample_transcript_done js_Nil_iff)

end
